(* ===== verification/Hwio_Prelude.thy ===== *)
theory Hwio_Prelude
  imports Main "HOL-Library.Word"
begin

text \<open>
  The prelude of the libhwio development: the result type in which every C++ exception, failed
  assertion and undefined memory access is a value; little-endian byte encodings of integers;
  the conversion between \<open>char\<close> and bytes; and byte arrays of fixed capacity
  (\<open>char buffer[N]\<close>) with bounds-checked loads and stores.

  Two collections carry the component proofs: \<open>res_simps\<close> evaluates results and array accesses,
  \<open>wire_simps\<close> holds the facts on byte encodings.
\<close>

named_theorems res_simps "evaluation of results and array accesses"
named_theorems wire_simps "encoding and decoding of bytes"

section \<open>Results\<close>

text \<open>
  The C++ exceptions the library throws or lets through. \<open>Runtime_error\<close>, \<open>Error_rw\<close>
  (\<open>hwio_error_rw\<close>), \<open>Dev_init_fail\<close>, \<open>Wrong_format\<close>, \<open>Device_tree_format_err\<close>
  and the property tree's \<open>Ptree_error\<close> derive from \<open>std::runtime_error\<close>;
  \<open>Invalid_argument\<close> and \<open>Out_of_range\<close> derive from \<open>std::logic_error\<close>, so a handler
  for \<open>std::runtime_error\<close> does not catch them. \<open>Std_exception\<close> is an object of the base class
  \<open>std::exception\<close> itself, which a rethrow by value leaves of any of them.
\<close>

datatype exn =
    Runtime_error
  | Error_rw
  | Dev_init_fail
  | Wrong_format
  | Device_tree_format_err
  | Ptree_error
  | Invalid_argument
  | Out_of_range
  | Std_exception

definition is_runtime_error :: "exn \<Rightarrow> bool" where
  "is_runtime_error e \<longleftrightarrow> e \<notin> {Invalid_argument, Out_of_range, Std_exception}"

text \<open>Undefined behaviour is a value too, so that a theorem can say where the code reaches it.
  \<open>Terminated\<close> is \<open>std::terminate\<close>, called for an exception that leaves a destructor.\<close>

datatype undefined_behaviour = Out_of_bounds | Use_after_free | Overlapping_memcpy | Null_dereference

datatype fault = Throw exn | Assert_failed | Undefined undefined_behaviour | Terminated

type_synonym 'a res = "fault + 'a"

definition bind_res :: "'a res \<Rightarrow> ('a \<Rightarrow> 'b res) \<Rightarrow> 'b res" where
  "bind_res m f = (case m of Inl e \<Rightarrow> Inl e | Inr x \<Rightarrow> f x)"

lemma bind_res_Inl [simp]: "bind_res (Inl e) f = Inl e"
  by (simp add: bind_res_def)

lemma bind_res_Inr [simp]: "bind_res (Inr x) f = f x"
  by (simp add: bind_res_def)

lemma bind_res_eq_Inr [res_simps]:
  "bind_res m f = Inr y \<longleftrightarrow> (\<exists>x. m = Inr x \<and> f x = Inr y)"
  by (cases m) auto

lemma bind_res_eq_Inl:
  "bind_res m f = Inl e \<longleftrightarrow> m = Inl e \<or> (\<exists>x. m = Inr x \<and> f x = Inl e)"
  by (cases m) auto

section \<open>Machine integers and bytes\<close>

type_synonym byte = "8 word"
type_synonym u16 = "16 word"
type_synonym u32 = "32 word"
type_synonym u64 = "64 word"

lemma unat_sint_nonneg:
  assumes "0 \<le> sint (w :: u32)"
  shows "int (unat w) = sint w" "unat w < 2 ^ 31"
proof -
  have lt: "sint w < 2 ^ 31" using sint_lt [of w] by simp
  have "uint w = uint (word_of_int (sint w) :: u32)" by simp
  also have "\<dots> = sint w mod 2 ^ 32" by (simp only: uint_word_of_int) simp
  also have "\<dots> = sint w" using assms lt by simp
  finally show eq: "int (unat w) = sint w" by simp
  have "int (unat w) < int (2 ^ 31)" using lt by (simp only: eq of_nat_power of_nat_numeral)
  then show "unat w < 2 ^ 31" by (simp only: of_nat_less_iff)
qed

text \<open>\<open>le_enc n v\<close> is the little-endian image of \<open>v\<close> in \<open>n\<close> bytes, \<open>le_dec\<close> reads it back.\<close>

primrec le_enc :: "nat \<Rightarrow> nat \<Rightarrow> byte list" where
  "le_enc 0 v = []"
| "le_enc (Suc n) v = word_of_nat v # le_enc n (v div 256)"

primrec le_dec :: "byte list \<Rightarrow> nat" where
  "le_dec [] = 0"
| "le_dec (b # bs) = unat b + 256 * le_dec bs"

lemma length_le_enc [simp]: "length (le_enc n v) = n"
  by (induction n arbitrary: v) simp_all

lemma unat_less_pow: "unat (w :: 'a::len word) < 2 ^ LENGTH('a)"
  by (rule unsigned_less)

lemma unat_byte_less [simp]: "unat (b :: byte) < 256"
  using unat_less_pow [of b] by simp

lemma unat_byte_of_nat [simp]: "unat (word_of_nat v :: byte) = v mod 256"
  by (simp add: unat_of_nat)

lemma le_dec_le_enc [wire_simps]: "le_dec (le_enc n v) = v mod 256 ^ n"
proof (induction n arbitrary: v)
  case (Suc n)
  have "le_dec (le_enc (Suc n) v) = v mod 256 + 256 * (v div 256 mod 256 ^ n)"
    by (simp add: Suc.IH)
  also have "\<dots> = v mod (256 * 256 ^ n)"
    by (simp add: mod_mult2_eq)
  finally show ?case by simp
qed simp

lemma le_dec_bound: "le_dec bs < 256 ^ length bs"
proof (induction bs)
  case (Cons b bs)
  have "le_dec bs + 1 \<le> 256 ^ length bs"
    using Cons.IH by simp
  then have "256 * (le_dec bs + 1) \<le> 256 * 256 ^ length bs"
    by (rule mult_le_mono2)
  moreover have "unat b < 256" by simp
  ultimately have "unat b + 256 * le_dec bs < 256 * 256 ^ length bs"
    by (simp only: distrib_left)
  then show ?case by simp
qed simp

lemma le_enc_le_dec [wire_simps]: "length bs = n \<Longrightarrow> le_enc n (le_dec bs) = bs"
proof (induction bs arbitrary: n)
  case (Cons b bs)
  have "(word_of_nat (unat b + 256 * le_dec bs) :: byte) = b"
    by (simp only: word_unat_eq_iff unat_byte_of_nat) simp
  moreover have "(unat b + 256 * le_dec bs) div 256 = le_dec bs"
    by simp
  ultimately show ?case
    using Cons by auto
qed simp

lemma le_enc_mod: "le_enc n (v mod 256 ^ n) = le_enc n v"
  by (metis le_dec_le_enc le_enc_le_dec length_le_enc)

lemma le_enc_append: "le_enc (m + n) v = le_enc m v @ le_enc n (v div 256 ^ m)"
  by (induction m arbitrary: v) (simp_all add: div_mult2_eq)

lemma le_enc_2_4:
  "le_enc 2 v = [word_of_nat v, word_of_nat (v div 256)]"
  "le_enc 4 v = [word_of_nat v, word_of_nat (v div 256), word_of_nat (v div 256 div 256), word_of_nat (v div 256 div 256 div 256)]"
proof -
  show two: "le_enc 2 v = [word_of_nat v, word_of_nat (v div 256)]" for v
    unfolding numeral_2_eq_2 by (simp only: le_enc.simps)
  show "le_enc 4 v = [word_of_nat v, word_of_nat (v div 256), word_of_nat (v div 256 div 256), word_of_nat (v div 256 div 256 div 256)]"
    using le_enc_append [of 2 2 v] by (simp add: two div_mult2_eq [symmetric])
qed

lemma le_dec_append: "le_dec (as @ bs) = le_dec as + 256 ^ length as * le_dec bs"
  by (induction as) (simp_all add: algebra_simps)

text \<open>Words of two, four and eight bytes.\<close>

definition enc16 :: "u16 \<Rightarrow> byte list" where
  "enc16 w = le_enc 2 (unat w)"

definition dec16 :: "byte list \<Rightarrow> u16" where
  "dec16 bs = word_of_nat (le_dec (take 2 bs))"

definition enc32 :: "u32 \<Rightarrow> byte list" where
  "enc32 w = le_enc 4 (unat w)"

definition dec32 :: "byte list \<Rightarrow> u32" where
  "dec32 bs = word_of_nat (le_dec (take 4 bs))"

definition enc64 :: "u64 \<Rightarrow> byte list" where
  "enc64 w = le_enc 8 (unat w)"

definition dec64 :: "byte list \<Rightarrow> u64" where
  "dec64 bs = word_of_nat (le_dec (take 8 bs))"

lemma length_enc [simp]:
  "length (enc16 a) = 2" "length (enc32 b) = 4" "length (enc64 c) = 8"
  by (simp_all add: enc16_def enc32_def enc64_def)

lemma dec16_enc16 [wire_simps, simp]: "dec16 (enc16 w @ bs) = w"
  using unat_less_pow [of w] by (simp add: dec16_def enc16_def le_dec_le_enc)

lemma dec32_enc32 [wire_simps, simp]: "dec32 (enc32 w @ bs) = w"
  using unat_less_pow [of w] by (simp add: dec32_def enc32_def le_dec_le_enc)

lemma dec64_enc64 [wire_simps, simp]: "dec64 (enc64 w @ bs) = w"
  using unat_less_pow [of w] by (simp add: dec64_def enc64_def le_dec_le_enc)

lemma dec_enc_exact [wire_simps, simp]:
  "dec16 (enc16 a) = a" "dec32 (enc32 b) = b" "dec64 (enc64 c) = c"
  using dec16_enc16 [of a "[]"] dec32_enc32 [of b "[]"] dec64_enc64 [of c "[]"] by simp_all

lemma enc32_dec32 [wire_simps]: "4 \<le> length bs \<Longrightarrow> enc32 (dec32 bs) = take 4 bs"
  using le_dec_bound [of "take 4 bs"]
  by (simp add: enc32_def dec32_def unat_of_nat le_enc_le_dec)

lemma enc16_dec16 [wire_simps]: "2 \<le> length bs \<Longrightarrow> enc16 (dec16 bs) = take 2 bs"
  using le_dec_bound [of "take 2 bs"]
  by (simp add: enc16_def dec16_def unat_of_nat le_enc_le_dec)

section \<open>Characters and bytes\<close>

definition char_byte :: "char \<Rightarrow> byte" where
  "char_byte c = word_of_nat (of_char c)"

definition byte_char :: "byte \<Rightarrow> char" where
  "byte_char b = char_of (unat b)"

lemma byte_char_byte [simp]: "byte_char (char_byte c) = c"
  by (simp add: byte_char_def char_byte_def)

lemma char_byte_char [simp]: "char_byte (byte_char b) = b"
  by (simp add: byte_char_def char_byte_def word_unat_eq_iff)

lemma char_byte_eq_iff [simp]: "char_byte c = char_byte d \<longleftrightarrow> c = d"
  by (metis byte_char_byte)

lemma char_byte_eq_0: "char_byte c = 0 \<longleftrightarrow> c = CHR 0x00"
proof -
  have "char_byte (CHR 0x00) = 0" by (simp add: char_byte_def)
  then show ?thesis by (metis char_byte_eq_iff)
qed

lemma map_byte_char_byte [simp]: "map (byte_char \<circ> char_byte) s = s"
  by (induction s) simp_all

section \<open>Byte arrays of fixed capacity\<close>

text \<open>
  A \<open>char buffer[N]\<close>: its capacity and its contents. A load or a store that leaves the array is
  undefined behaviour.
\<close>

record carray =
  acap :: nat
  aget :: "nat \<Rightarrow> byte"

definition aload :: "carray \<Rightarrow> nat \<Rightarrow> nat \<Rightarrow> byte list res" where
  "aload a off n =
     (if off + n \<le> acap a then Inr (map (aget a) [off..<off + n]) else Inl (Undefined Out_of_bounds))"

definition astore :: "carray \<Rightarrow> nat \<Rightarrow> byte list \<Rightarrow> carray res" where
  "astore a off bs =
     (if off + length bs \<le> acap a
      then Inr (a\<lparr>aget := (\<lambda>i. if off \<le> i \<and> i < off + length bs then bs ! (i - off) else aget a i)\<rparr>)
      else Inl (Undefined Out_of_bounds))"

text \<open>The bytes of a range, without the bounds check; used in statements.\<close>

definition abytes :: "carray \<Rightarrow> nat \<Rightarrow> nat \<Rightarrow> byte list" where
  "abytes a off n = map (aget a) [off..<off + n]"

lemma length_abytes [simp]: "length (abytes a off n) = n"
  by (simp add: abytes_def)

lemma aload_ok [res_simps]: "off + n \<le> acap a \<Longrightarrow> aload a off n = Inr (abytes a off n)"
  by (simp add: aload_def abytes_def)

lemma aload_fault [res_simps]: "acap a < off + n \<Longrightarrow> aload a off n = Inl (Undefined Out_of_bounds)"
  by (simp add: aload_def)

lemma astore_fault [res_simps]:
  "acap a < off + length bs \<Longrightarrow> astore a off bs = Inl (Undefined Out_of_bounds)"
  by (simp add: astore_def)

lemma astore_acap [res_simps]: "astore a off bs = Inr a' \<Longrightarrow> acap a' = acap a"
  by (auto simp: astore_def split: if_splits)

lemma astore_Inr_iff [res_simps]: "(\<exists>a'. astore a off bs = Inr a') \<longleftrightarrow> off + length bs \<le> acap a"
  by (simp add: astore_def)

lemma abytes_nth: "i < n \<Longrightarrow> abytes a off n ! i = aget a (off + i)"
  by (simp add: abytes_def)

lemma abytes_eq_iff: "abytes a off n = abytes b off' n \<longleftrightarrow> (\<forall>i < n. aget a (off + i) = aget b (off' + i))"
  by (simp add: list_eq_iff_nth_eq abytes_nth)

lemma abytes_astore_same [wire_simps]:
  assumes "astore a off bs = Inr a'"
  shows "abytes a' off (length bs) = bs"
  using assms by (auto simp: astore_def abytes_nth intro!: nth_equalityI split: if_splits)

lemma abytes_astore_other [wire_simps]:
  assumes "astore a off bs = Inr a'" and "off' + n \<le> off \<or> off + length bs \<le> off'"
  shows "abytes a' off' n = abytes a off' n"
  using assms by (auto simp: astore_def abytes_eq_iff split: if_splits)

lemma abytes_split: "abytes a off (m + n) = abytes a off m @ abytes a (off + m) n"
proof -
  have "[off..<off + (m + n)] = [off..<off + m] @ [off + m..<off + m + n]"
    by (metis add.assoc le_add1 upt_add_eq_append)
  then show ?thesis by (simp add: abytes_def)
qed

lemma take_abytes: "m \<le> n \<Longrightarrow> take m (abytes a off n) = abytes a off m"
  by (metis abytes_split append_eq_conv_conj le_add_diff_inverse length_abytes)

lemma drop_abytes: "m \<le> n \<Longrightarrow> drop m (abytes a off n) = abytes a (off + m) (n - m)"
  by (metis abytes_split append_eq_conv_conj le_add_diff_inverse length_abytes)

lemma abytes_append_iff:
  "abytes a p (length xs + length ys) = xs @ ys \<longleftrightarrow>
   abytes a p (length xs) = xs \<and> abytes a (p + length xs) (length ys) = ys"
  by (simp add: abytes_split)

lemma abytes_appendD:
  assumes "abytes a p n = xs @ ys"
  shows "abytes a p (length xs) = xs" "abytes a (p + length xs) (length ys) = ys"
proof -
  have "n = length xs + length ys" using arg_cong [OF assms, of length] by simp
  with assms show "abytes a p (length xs) = xs" "abytes a (p + length xs) (length ys) = ys"
    by (simp_all add: abytes_append_iff)
qed

end
