(* ===== verification/Hwio_CStd.thy ===== *)
theory Hwio_CStd
  imports Hwio_Prelude
begin

text \<open>
  The functions of the C and C++ standard libraries that libhwio calls, in the "C" locale: the
  character classes, \<open>std::stoi\<close> and base-16 \<open>std::stoul\<close> with the exceptions they throw,
  printing of integers, \<open>std::string::find_last_of\<close> and \<open>substr\<close> on 64-bit \<open>size_t\<close>
  positions, \<open>strncpy\<close>, and reading a NUL-terminated string out of a byte array.
\<close>

section \<open>Character classes\<close>

definition code :: "char \<Rightarrow> nat" where
  "code c = of_char c"

definition isdigit :: "char \<Rightarrow> bool" where
  "isdigit c \<longleftrightarrow> 48 \<le> code c \<and> code c \<le> 57"

definition isalpha :: "char \<Rightarrow> bool" where
  "isalpha c \<longleftrightarrow> (65 \<le> code c \<and> code c \<le> 90) \<or> (97 \<le> code c \<and> code c \<le> 122)"

definition isspace :: "char \<Rightarrow> bool" where
  "isspace c \<longleftrightarrow> code c = 32 \<or> (9 \<le> code c \<and> code c \<le> 13)"

definition isxdigit :: "char \<Rightarrow> bool" where
  "isxdigit c \<longleftrightarrow> isdigit c \<or> (65 \<le> code c \<and> code c \<le> 70) \<or> (97 \<le> code c \<and> code c \<le> 102)"

text \<open>The ECMAScript class \<open>\w\<close>.\<close>

definition isword :: "char \<Rightarrow> bool" where
  "isword c \<longleftrightarrow> isalpha c \<or> isdigit c \<or> c = CHR ''_''"

lemmas char_class_defs = code_def isdigit_def isalpha_def isspace_def isxdigit_def isword_def

lemma isdigit_not_alpha: "isdigit c \<Longrightarrow> \<not> isalpha c"
  by (auto simp: isdigit_def isalpha_def)

lemma isdigit_not_space: "isdigit c \<Longrightarrow> \<not> isspace c"
  by (auto simp: isdigit_def isspace_def)

lemma isdigit_punct: "\<not> isdigit CHR ''.''" "\<not> isdigit CHR '',''" "\<not> isdigit CHR ''-''"
  "\<not> isdigit CHR ''+''" "\<not> isdigit CHR ''_''"
  by (simp_all add: char_class_defs)

section \<open>Numbers\<close>

definition dec_val :: "string \<Rightarrow> nat" where
  "dec_val s = foldl (\<lambda>v c. 10 * v + (code c - 48)) 0 s"

definition hex_digit :: "char \<Rightarrow> nat" where
  "hex_digit c = (if isdigit c then code c - 48 else if code c \<le> 70 then code c - 55 else code c - 87)"

definition hex_val :: "string \<Rightarrow> nat" where
  "hex_val s = foldl (\<lambda>v c. 16 * v + hex_digit c) 0 s"

text \<open>An optional sign, as \<open>strtol\<close> and \<open>strtoul\<close> read it.\<close>

fun split_sign :: "string \<Rightarrow> bool \<times> string" where
  "split_sign (c # s) = (if c = CHR ''-'' then (True, s) else if c = CHR ''+'' then (False, s) else (False, c # s))"
| "split_sign [] = (False, [])"

text \<open>
  \<open>std::stoi\<close>: leading space, a sign, then the longest run of digits. No digit throws
  \<open>std::invalid_argument\<close>, a value outside \<open>int\<close> throws \<open>std::out_of_range\<close>.
\<close>

definition stoi :: "string \<Rightarrow> u32 res" where
  "stoi s =
     (let (neg, r) = split_sign (dropWhile isspace s);
          ds = takeWhile isdigit r;
          v = (if neg then - int (dec_val ds) else int (dec_val ds))
      in if ds = [] then Inl (Throw Invalid_argument)
         else if v < - (2 ^ 31) \<or> 2 ^ 31 \<le> v then Inl (Throw Out_of_range)
         else Inr (word_of_int v))"

text \<open>The prefix \<open>0x\<close> is skipped only in front of a hexadecimal digit.\<close>

fun skip_0x :: "string \<Rightarrow> string" where
  "skip_0x (z # x # h # s) =
     (if z = CHR ''0'' \<and> (x = CHR ''x'' \<or> x = CHR ''X'') \<and> isxdigit h then h # s else z # x # h # s)"
| "skip_0x s = s"

text \<open>
  \<open>std::stoul(s, nullptr, 16)\<close> on a 64-bit \<open>unsigned long\<close>. A minus sign negates the value
  modulo 2 to the 64.
\<close>

definition stoul16 :: "string \<Rightarrow> u64 res" where
  "stoul16 s =
     (let (neg, r) = split_sign (dropWhile isspace s);
          ds = takeWhile isxdigit (skip_0x r);
          v = hex_val ds
      in if ds = [] then Inl (Throw Invalid_argument)
         else if 2 ^ 64 \<le> v then Inl (Throw Out_of_range)
         else Inr (if neg then - word_of_nat v else word_of_nat v))"

text \<open>Decimal output of \<open>operator<<\<close> and \<open>std::to_string\<close>.\<close>

definition digit_char :: "nat \<Rightarrow> char" where
  "digit_char d = char_of (48 + d)"

fun show_nat :: "nat \<Rightarrow> string" where
  "show_nat n = (if n < 10 then [digit_char n] else show_nat (n div 10) @ [digit_char (n mod 10)])"

declare show_nat.simps [simp del]

definition show_int :: "int \<Rightarrow> string" where
  "show_int i = (if i < 0 then CHR ''-'' # show_nat (nat (- i)) else show_nat (nat i))"

lemma code_digit_char [simp]: "d < 10 \<Longrightarrow> code (digit_char d) = 48 + d"
  by (simp add: code_def digit_char_def)

lemma isdigit_digit_char [simp]: "d < 10 \<Longrightarrow> isdigit (digit_char d)"
  by (simp add: isdigit_def)

lemma dec_val_snoc [simp]: "dec_val (s @ [c]) = 10 * dec_val s + (code c - 48)"
  by (simp add: dec_val_def)

lemma show_nat_digits: "list_all isdigit (show_nat n)"
  by (induction n rule: show_nat.induct) (subst show_nat.simps, simp)

lemma show_nat_nonempty [simp]: "show_nat n \<noteq> []"
  by (subst show_nat.simps) simp

lemma dec_val_show_nat [simp]: "dec_val (show_nat n) = n"
proof (induction n rule: show_nat.induct)
  case (1 n)
  show ?case
  proof (cases "n < 10")
    case True
    then show ?thesis by (subst show_nat.simps) (simp add: dec_val_def)
  next
    case False
    with "1.IH" show ?thesis by (subst show_nat.simps) simp
  qed
qed

lemma takeWhile_digits [simp]: "list_all isdigit s \<Longrightarrow> takeWhile isdigit s = s"
  by (simp add: takeWhile_eq_all_conv list_all_iff)

lemma digits_split_sign:
  assumes "list_all isdigit s" "s \<noteq> []"
  shows "split_sign (dropWhile isspace s) = (False, s)"
  using assms isdigit_punct by (cases s) (auto simp: isdigit_not_space)

lemma stoi_digits:
  assumes "list_all isdigit s" "s \<noteq> []"
  shows "stoi s = (if dec_val s < 2 ^ 31 then Inr (word_of_nat (dec_val s)) else Inl (Throw Out_of_range))"
  using assms by (auto simp: stoi_def digits_split_sign Let_def)

section \<open>Strings and positions\<close>

text \<open>\<open>size_t\<close> positions as naturals below 2 to the 64; \<open>npos\<close> is the largest one.\<close>

definition npos :: nat where
  "npos = 2 ^ 64 - 1"

definition size_add :: "nat \<Rightarrow> nat \<Rightarrow> nat" where
  "size_add a b = (a + b) mod 2 ^ 64"

definition size_sub :: "nat \<Rightarrow> nat \<Rightarrow> nat" where
  "size_sub a b = (a + 2 ^ 64 - b) mod 2 ^ 64"

definition find_last_of :: "string \<Rightarrow> char \<Rightarrow> nat" where
  "find_last_of s c = (if c \<in> set s then length s - Suc (length (takeWhile (\<lambda>x. x \<noteq> c) (rev s))) else npos)"

definition substr :: "string \<Rightarrow> nat \<Rightarrow> nat \<Rightarrow> string res" where
  "substr s pos n = (if length s < pos then Inl (Throw Out_of_range) else Inr (take n (drop pos s)))"

lemma find_last_of_notin [simp]: "c \<notin> set s \<Longrightarrow> find_last_of s c = npos"
  by (simp add: find_last_of_def)

lemma find_last_of_append [simp]: "c \<notin> set b \<Longrightarrow> find_last_of (a @ c # b) c = length a"
proof -
  assume "c \<notin> set b"
  then have "takeWhile (\<lambda>x. x \<noteq> c) (rev (a @ c # b)) = rev b"
    by (simp add: takeWhile_append)
  then show ?thesis by (simp add: find_last_of_def)
qed

lemma size_add_npos_1 [simp]: "size_add npos 1 = 0" "size_add npos (Suc 0) = 0"
  by (simp_all add: size_add_def npos_def)

lemma size_add_small: "a + b < 2 ^ 64 \<Longrightarrow> size_add a b = a + b"
  by (simp add: size_add_def)

lemma size_sub_small: "b \<le> a \<Longrightarrow> a < 2 ^ 64 \<Longrightarrow> size_sub a b = a - b"
  by (simp add: size_sub_def add.commute [of a] flip: Nat.add_diff_assoc)

section \<open>NUL-terminated strings\<close>

text \<open>What C sees of a \<open>std::string\<close> through \<open>c_str()\<close>: the part before the first NUL.\<close>

definition cstr :: "string \<Rightarrow> string" where
  "cstr s = takeWhile (\<lambda>c. c \<noteq> CHR 0x00) s"

definition no_nul :: "string \<Rightarrow> bool" where
  "no_nul s \<longleftrightarrow> CHR 0x00 \<notin> set s"

lemma cstr_no_nul [simp]: "no_nul s \<Longrightarrow> cstr s = s"
  by (auto simp: cstr_def no_nul_def takeWhile_eq_all_conv)

text \<open>The \<open>n\<close> bytes \<open>strncpy(dst, s, n)\<close> stores: a long source is cut without a terminator.\<close>

definition strncpy_bytes :: "nat \<Rightarrow> string \<Rightarrow> byte list" where
  "strncpy_bytes n s = take n (map char_byte (cstr s) @ replicate n 0)"

lemma length_strncpy_bytes [simp]: "length (strncpy_bytes n s) = n"
  by (simp add: strncpy_bytes_def)

lemma strncpy_bytes_short:
  assumes "no_nul s" "length s < n"
  shows "strncpy_bytes n s = map char_byte s @ 0 # replicate (n - Suc (length s)) 0"
proof -
  have "n - length s = Suc (n - Suc (length s))" using assms by simp
  then have "replicate (n - length s) (0 :: byte) = 0 # replicate (n - Suc (length s)) 0"
    by (metis replicate_Suc)
  with assms show ?thesis by (simp add: strncpy_bytes_def)
qed

text \<open>
  \<open>std::string(const char *)\<close> on a pointer into an array: bytes up to the first NUL. A string
  that is not terminated inside the array is read past its end.
\<close>

function cstr_at :: "carray \<Rightarrow> nat \<Rightarrow> string res" where
  "cstr_at a i =
     (if i < acap a
      then if aget a i = 0 then Inr []
           else bind_res (cstr_at a (Suc i)) (\<lambda>s. Inr (byte_char (aget a i) # s))
      else Inl (Undefined Out_of_bounds))"
  by pat_completeness auto
termination
  by (relation "measure (\<lambda>(a, i). acap a - i)") auto

declare cstr_at.simps [simp del]

lemma cstr_at_terminated:
  assumes "no_nul s" "abytes a i (Suc (length s)) = map char_byte s @ [0]" "i + length s < acap a"
  shows "cstr_at a i = Inr s"
  using assms
proof (induction s arbitrary: i)
  case Nil
  then show ?case by (simp add: cstr_at.simps [of a i] abytes_def)
next
  case (Cons c s)
  have "abytes a i (Suc (length (c # s))) = aget a i # abytes a (Suc i) (Suc (length s))"
    using abytes_split [of a i 1 "Suc (length s)"] by (simp add: abytes_def)
  with Cons.prems(2) have hd: "aget a i = char_byte c"
    and tl: "abytes a (Suc i) (Suc (length s)) = map char_byte s @ [0]" by auto
  have "cstr_at a (Suc i) = Inr s"
    using Cons.prems tl by (intro Cons.IH) (auto simp: no_nul_def)
  moreover have "char_byte c \<noteq> 0"
    using Cons.prems(1) by (auto simp: no_nul_def char_byte_eq_0)
  ultimately show ?case
    using Cons.prems(3) hd by (simp add: cstr_at.simps [of a i])
qed

lemma cstr_at_strncpy:
  assumes "no_nul s" "length s < n" "abytes a i n = strncpy_bytes n s" "i + n \<le> acap a"
  shows "cstr_at a i = Inr s"
proof (rule cstr_at_terminated)
  have "take (Suc (length s)) (abytes a i n) = map char_byte s @ [0]"
    using assms by (simp add: strncpy_bytes_short)
  then show "abytes a i (Suc (length s)) = map char_byte s @ [0]"
    using assms(2) by (simp add: take_abytes)
qed (use assms in auto)

end
