(* ===== verification/Hwio_Version.thy ===== *)
theory Hwio_Version
  imports Hwio_CStd
begin

text \<open>
  Version numbers (\<open>src/src/hwio_version.h\<close>, \<open>src/src/hwio_version.cpp\<close>): the packed struct
  \<open>hwio_version\<close>, its comparison against a pattern with wildcards, its parser (a regular
  expression followed by \<open>std::stoi\<close>) and its printer.

  The lemmas show that the comparison is a partial order with the all-wildcard version on top,
  that the executable splitter accepts exactly the language of the regular expression, and that
  parsing inverts printing.
\<close>

record hwio_version =
  major :: u32
  minor :: u32
  subminor :: u32

text \<open>\<open>HWIO_VERSION_NA\<close> is \<open>-1\<close>: the component is not available, or matches anything.\<close>

definition HWIO_VERSION_NA :: u32 where
  "HWIO_VERSION_NA = - 1"

text \<open>The constructor from three numbers, and its default arguments.\<close>

definition hwio_version_ctor :: "u32 \<Rightarrow> u32 \<Rightarrow> u32 \<Rightarrow> hwio_version" where
  "hwio_version_ctor a b c = \<lparr>major = a, minor = b, subminor = c\<rparr>"

definition hwio_version_default :: hwio_version where
  "hwio_version_default = hwio_version_ctor HWIO_VERSION_NA HWIO_VERSION_NA HWIO_VERSION_NA"

definition hwio_version_eq :: "hwio_version \<Rightarrow> hwio_version \<Rightarrow> bool" where
  "hwio_version_eq this other =
     (if major other \<noteq> HWIO_VERSION_NA \<and> major other \<noteq> major this then False
      else if minor other \<noteq> HWIO_VERSION_NA \<and> minor other \<noteq> minor this then False
      else if subminor other \<noteq> HWIO_VERSION_NA \<and> subminor other \<noteq> subminor this then False
      else True)"

definition hwio_version_ne :: "hwio_version \<Rightarrow> hwio_version \<Rightarrow> bool" where
  "hwio_version_ne this other = (\<not> hwio_version_eq this other)"

definition show_version_field :: "u32 \<Rightarrow> string" where
  "show_version_field v = (if v = HWIO_VERSION_NA then ''<NA>'' else show_int (sint v))"

definition hwio_version_to_str :: "hwio_version \<Rightarrow> string" where
  "hwio_version_to_str v =
     show_version_field (major v) @ ''.'' @ show_version_field (minor v) @ ''.'' @
     show_version_field (subminor v)"

section \<open>The version pattern\<close>

text \<open>
  Regular expressions with the constructors the pattern uses, and the strings they match as a
  whole (\<open>std::regex_match\<close>). \<open>hwio_version_regex\<close> is the source's pattern.
\<close>

datatype regex = Cls "char \<Rightarrow> bool" | Seq regex regex | Alt regex regex | Plus regex | Opt regex

inductive matches :: "regex \<Rightarrow> string \<Rightarrow> bool" where
  cls: "P c \<Longrightarrow> matches (Cls P) [c]"
| seq: "matches r s \<Longrightarrow> matches q t \<Longrightarrow> matches (Seq r q) (s @ t)"
| altL: "matches r s \<Longrightarrow> matches (Alt r q) s"
| altR: "matches q s \<Longrightarrow> matches (Alt r q) s"
| one: "matches r s \<Longrightarrow> matches (Plus r) s"
| more: "matches r s \<Longrightarrow> matches (Plus r) t \<Longrightarrow> matches (Plus r) (s @ t)"
| none: "matches (Opt r) []"
| some: "matches r s \<Longrightarrow> matches (Opt r) s"

inductive_cases matches_ClsE [elim!]: "matches (Cls P) s"
inductive_cases matches_SeqE [elim!]: "matches (Seq r q) s"
inductive_simps matches_Alt_iff: "matches (Alt r q) s"
inductive_simps matches_Opt_iff: "matches (Opt r) s"

definition hwio_version_regex :: regex where
  "hwio_version_regex =
     Seq (Plus (Cls isdigit))
       (Seq (Cls (\<lambda>c. c = CHR ''.''))
         (Seq (Plus (Cls isdigit))
           (Opt (Seq (Cls (\<lambda>c. c = CHR ''.'')) (Alt (Cls isword) (Plus (Cls isdigit)))))))"

text \<open>
  The match with its groups: \<open>m[1]\<close>, \<open>m[2]\<close> and \<open>m[4]\<close>, where an absent group is the empty
  string.
\<close>

fun subminor_word :: "string \<Rightarrow> bool" where
  "subminor_word [w] = isword w"
| "subminor_word _ = False"

definition split_subminor :: "string \<Rightarrow> string option" where
  "split_subminor r =
     (case r of [] \<Rightarrow> Some []
      | c # g \<Rightarrow> if c = CHR ''.'' \<and> g \<noteq> [] \<and> (subminor_word g \<or> list_all isdigit g)
                then Some g else None)"

definition regex_match_version :: "string \<Rightarrow> (string \<times> string \<times> string) option" where
  "regex_match_version s =
     (let d1 = takeWhile isdigit s; r1 = dropWhile isdigit s
      in case r1 of [] \<Rightarrow> None
         | c # r2 \<Rightarrow>
             let d2 = takeWhile isdigit r2; r3 = dropWhile isdigit r2
             in if d1 \<noteq> [] \<and> c = CHR ''.'' \<and> d2 \<noteq> []
                then map_option (\<lambda>g. (d1, d2, g)) (split_subminor r3) else None)"

text \<open>The constructor from a string: \<open>std::stoi\<close> of each group may throw as well.\<close>

definition hwio_version_parse :: "string \<Rightarrow> hwio_version res" where
  "hwio_version_parse version_str =
     (case regex_match_version version_str of
        Some (m1, m2, sm) \<Rightarrow>
          bind_res (stoi m1) (\<lambda>a.
          bind_res (stoi m2) (\<lambda>b.
            case sm of
              [] \<Rightarrow> Inr (hwio_version_ctor a b HWIO_VERSION_NA)
            | c # _ \<Rightarrow>
                if isalpha c then Inr (hwio_version_ctor a b (word_of_nat (code c)))
                else bind_res (stoi sm) (\<lambda>d. Inr (hwio_version_ctor a b d))))
      | None \<Rightarrow> Inl (Throw Runtime_error))"

section \<open>Matching a version against a pattern\<close>

lemma hwio_version_eq_iff:
  "hwio_version_eq v p \<longleftrightarrow>
     (major p = HWIO_VERSION_NA \<or> major p = major v) \<and>
     (minor p = HWIO_VERSION_NA \<or> minor p = minor v) \<and>
     (subminor p = HWIO_VERSION_NA \<or> subminor p = subminor v)"
  by (auto simp: hwio_version_eq_def)

lemma hwio_version_eq_refl [simp]: "hwio_version_eq v v"
  by (simp add: hwio_version_eq_iff)

lemma hwio_version_eq_trans: "hwio_version_eq u v \<Longrightarrow> hwio_version_eq v w \<Longrightarrow> hwio_version_eq u w"
  by (auto simp: hwio_version_eq_iff)

lemma hwio_version_eq_antisym: "hwio_version_eq u v \<Longrightarrow> hwio_version_eq v u \<Longrightarrow> u = v"
  by (cases u, cases v) (auto simp: hwio_version_eq_iff)

lemma hwio_version_eq_default [simp]: "hwio_version_eq v hwio_version_default"
  by (simp add: hwio_version_eq_iff hwio_version_default_def hwio_version_ctor_def)

text \<open>The library's ordering with a top element, on the versions.\<close>

interpretation version_pattern: ordering_top hwio_version_eq
  "\<lambda>u v. hwio_version_eq u v \<and> u \<noteq> v" hwio_version_default
  by unfold_locales (auto intro: hwio_version_eq_trans hwio_version_eq_antisym)

section \<open>The splitter accepts the language of the pattern\<close>

lemma matches_Plus_Cls: "matches (Plus (Cls P)) s \<longleftrightarrow> s \<noteq> [] \<and> list_all P s"
proof
  assume "matches (Plus (Cls P)) s"
  then show "s \<noteq> [] \<and> list_all P s"
    by (induction "Plus (Cls P)" s rule: matches.induct) auto
next
  show "s \<noteq> [] \<and> list_all P s \<Longrightarrow> matches (Plus (Cls P)) s"
  proof (induction s)
    case (Cons c s)
    then have "matches (Cls P) [c]" by (simp add: matches.cls)
    with Cons show ?case
      using matches.more [of "Cls P" "[c]" s] by (cases "s = []") (auto intro: matches.one matches.cls)
  qed simp
qed

lemma subminor_word_iff: "subminor_word g \<longleftrightarrow> matches (Cls isword) g"
  by (cases g rule: subminor_word.cases) (auto intro: matches.cls)

text \<open>A string in the shape of the pattern, group by group.\<close>

definition version_shape :: "string \<Rightarrow> string \<Rightarrow> string \<Rightarrow> string \<Rightarrow> bool" where
  "version_shape s d1 d2 g \<longleftrightarrow>
     d1 \<noteq> [] \<and> list_all isdigit d1 \<and> d2 \<noteq> [] \<and> list_all isdigit d2 \<and>
     (if g = [] then s = d1 @ ''.'' @ d2
      else s = d1 @ ''.'' @ d2 @ ''.'' @ g \<and> (subminor_word g \<or> list_all isdigit g))"

lemma takeWhile_digits_dot [simp]:
  "list_all isdigit d \<Longrightarrow> takeWhile isdigit (d @ CHR ''.'' # t) = d"
  "list_all isdigit d \<Longrightarrow> dropWhile isdigit (d @ CHR ''.'' # t) = CHR ''.'' # t"
  by (auto simp: takeWhile_append dropWhile_append isdigit_punct list_all_iff takeWhile_eq_all_conv)

lemma dropWhile_digits [simp]: "list_all isdigit d \<Longrightarrow> dropWhile isdigit d = []"
  by (simp add: list_all_iff)

lemma version_shape_match: "version_shape s d1 d2 g \<Longrightarrow> regex_match_version s = Some (d1, d2, g)"
  by (auto simp: version_shape_def regex_match_version_def split_subminor_def Let_def split: if_splits)

lemma match_version_shape:
  assumes "regex_match_version s = Some (d1, d2, g)"
  shows "version_shape s d1 d2 g"
proof -
  obtain r2 where r1: "dropWhile isdigit s = CHR ''.'' # r2" and d1: "d1 = takeWhile isdigit s" "d1 \<noteq> []"
    and d2: "d2 = takeWhile isdigit r2" "d2 \<noteq> []" and g: "split_subminor (dropWhile isdigit r2) = Some g"
    using assms by (auto simp: regex_match_version_def Let_def split: list.splits if_splits)
  define t where "t = dropWhile isdigit r2"
  have s: "s = d1 @ CHR ''.'' # d2 @ t"
    using r1 d1 d2 unfolding t_def by (metis takeWhile_dropWhile_id)
  have dig: "list_all isdigit d1" "list_all isdigit d2"
    using d1 d2 by (auto simp: list_all_iff dest: set_takeWhileD)
  from g have "if g = [] then t = [] else t = CHR ''.'' # g \<and> (subminor_word g \<or> list_all isdigit g)"
    by (auto simp: split_subminor_def t_def [symmetric] split: list.splits if_splits)
  with s dig d1(2) d2(2) show ?thesis
    by (simp add: version_shape_def split: if_splits)
qed

lemma matches_version_regex:
  "matches hwio_version_regex s \<longleftrightarrow> (\<exists>d1 d2 g. version_shape s d1 d2 g)" (is "?l \<longleftrightarrow> ?r")
proof
  let ?opt = "Opt (Seq (Cls (\<lambda>c. c = CHR ''.'')) (Alt (Cls isword) (Plus (Cls isdigit))))"
  assume ?l
  then obtain d1 d2 t where d: "matches (Plus (Cls isdigit)) d1" "matches (Plus (Cls isdigit)) d2"
    and t: "matches ?opt t" and s: "s = d1 @ ''.'' @ d2 @ t"
    unfolding hwio_version_regex_def by auto
  from t consider "t = []" | g where "t = ''.'' @ g" "subminor_word g \<or> g \<noteq> [] \<and> list_all isdigit g"
    by (auto simp: matches_Opt_iff matches_Alt_iff matches_Plus_Cls subminor_word_iff intro: matches.cls)
  then show ?r
  proof cases
    case 1
    with d s have "version_shape s d1 d2 []" by (simp add: version_shape_def matches_Plus_Cls)
    then show ?thesis by blast
  next
    case (2 g)
    then have "g \<noteq> []" by auto
    with 2 d s have "version_shape s d1 d2 g" by (auto simp: version_shape_def matches_Plus_Cls)
    then show ?thesis by blast
  qed
next
  assume ?r
  then obtain d1 d2 g where sh: "version_shape s d1 d2 g" by blast
  let ?opt = "Opt (Seq (Cls (\<lambda>c. c = CHR ''.'')) (Alt (Cls isword) (Plus (Cls isdigit))))"
  have dot: "matches (Cls (\<lambda>c. c = CHR ''.'')) ''.''" by (rule matches.cls) simp
  have d: "matches (Plus (Cls isdigit)) d1" "matches (Plus (Cls isdigit)) d2"
    using sh by (auto simp: version_shape_def matches_Plus_Cls)
  have opt: "matches ?opt (if g = [] then [] else ''.'' @ g)"
  proof (cases "g = []")
    case False
    then have "matches (Alt (Cls isword) (Plus (Cls isdigit))) g"
      using sh by (auto simp: version_shape_def matches_Alt_iff matches_Plus_Cls simp flip: subminor_word_iff)
    with dot have "matches (Seq (Cls (\<lambda>c. c = CHR ''.'')) (Alt (Cls isword) (Plus (Cls isdigit)))) (''.'' @ g)"
      by (rule matches.seq)
    with False show ?thesis by (simp only: if_False matches.some)
  qed (simp add: matches.none)
  have s: "s = d1 @ ''.'' @ d2 @ (if g = [] then [] else ''.'' @ g)"
    using sh by (auto simp: version_shape_def)
  show ?l
    unfolding hwio_version_regex_def s by (intro matches.seq d dot opt)
qed

section \<open>Parsing and printing\<close>

lemma parse_version_shape:
  assumes "version_shape s d1 d2 g" "dec_val d1 < 2 ^ 31" "dec_val d2 < 2 ^ 31"
  shows "hwio_version_parse s =
    (if g = [] then Inr (hwio_version_ctor (word_of_nat (dec_val d1)) (word_of_nat (dec_val d2)) HWIO_VERSION_NA)
     else if isalpha (hd g)
     then Inr (hwio_version_ctor (word_of_nat (dec_val d1)) (word_of_nat (dec_val d2)) (word_of_nat (code (hd g))))
     else bind_res (stoi g)
       (\<lambda>d. Inr (hwio_version_ctor (word_of_nat (dec_val d1)) (word_of_nat (dec_val d2)) d)))"
  using assms
  by (auto simp: hwio_version_parse_def version_shape_match stoi_digits version_shape_def split: list.splits)

lemma show_version_field_nonneg:
  assumes "0 \<le> sint v"
  shows "show_version_field v = show_nat (unat v)"
proof -
  have "v \<noteq> HWIO_VERSION_NA" using assms by (auto simp: HWIO_VERSION_NA_def)
  moreover have "nat (sint v) = unat v"
    using unat_sint_nonneg(1) [OF assms] by linarith
  ultimately show ?thesis
    using assms by (simp add: show_version_field_def show_int_def)
qed

lemma regex_match_iff: "regex_match_version s \<noteq> None \<longleftrightarrow> matches hwio_version_regex s"
  by (metis match_version_shape matches_version_regex not_None_eq prod_cases3 version_shape_match)

lemma version_parse_runtime_error:
  "hwio_version_parse s = Inl (Throw Runtime_error) \<longleftrightarrow> \<not> matches hwio_version_regex s"
proof -
  have "stoi t \<noteq> Inl (Throw Runtime_error)" for t
    by (simp add: stoi_def Let_def split: prod.split)
  then have "hwio_version_parse s = Inl (Throw Runtime_error) \<longleftrightarrow> regex_match_version s = None"
    by (auto simp: hwio_version_parse_def bind_res_eq_Inl split: option.split list.split)
  then show ?thesis by (simp only: regex_match_iff [symmetric] not_not)
qed

text \<open>
  C27: the parser's matcher accepts exactly the strings of the regular expression in the source,
  and the constructor throws \<open>std::runtime_error\<close> for exactly the others.
\<close>

theorem version_parse_rejects_iff:
  "(regex_match_version s \<noteq> None \<longleftrightarrow> matches hwio_version_regex s) \<and>
   (hwio_version_parse s = Inl (Throw Runtime_error) \<longleftrightarrow> \<not> matches hwio_version_regex s)"
  by (intro conjI regex_match_iff version_parse_runtime_error)

text \<open>
  C28: comparing versions against patterns is a partial order whose greatest element is the
  version with three wildcards: a pattern matches what any of its instances matches.
\<close>

theorem version_match_ordering:
  "ordering_top hwio_version_eq (\<lambda>u v. hwio_version_eq u v \<and> u \<noteq> v) hwio_version_default"
  by (rule version_pattern.ordering_top_axioms)

text \<open>
  C29: printing a version whose three components are available and parsing the text again gives
  the version back.
\<close>

theorem version_parse_to_str:
  assumes "0 \<le> sint (major v)" "0 \<le> sint (minor v)" "0 \<le> sint (subminor v)"
  shows "hwio_version_parse (hwio_version_to_str v) = Inr v"
proof -
  let ?sh = "\<lambda>f. show_nat (unat (f v))"
  have "hwio_version_to_str v = ?sh major @ ''.'' @ ?sh minor @ ''.'' @ ?sh subminor"
    using assms by (simp add: hwio_version_to_str_def show_version_field_nonneg)
  then have shape: "version_shape (hwio_version_to_str v) (?sh major) (?sh minor) (?sh subminor)"
    by (simp add: version_shape_def show_nat_digits)
  have "isdigit (hd (?sh subminor))"
    using show_nat_digits [of "unat (subminor v)"] by (cases "?sh subminor") auto
  then have "\<not> isalpha (hd (?sh subminor))" by (rule isdigit_not_alpha)
  then show ?thesis
    using parse_version_shape [OF shape] unat_sint_nonneg(2) [OF assms(1)] unat_sint_nonneg(2) [OF assms(2)]
      unat_sint_nonneg(2) [OF assms(3)]
    by (simp add: stoi_digits show_nat_digits hwio_version_ctor_def)
qed

theorem version_parse_to_str_witness:
  "hwio_version_parse (hwio_version_to_str (hwio_version_ctor 12 0 97)) = Inr (hwio_version_ctor 12 0 97)"
  by (rule version_parse_to_str) (simp_all add: hwio_version_ctor_def)

end
