(* ===== verification/Hwio_Comp_Spec.thy ===== *)
theory Hwio_Comp_Spec
  imports Hwio_Version
begin

text \<open>
  Component specifications (\<open>src/src/hwio_comp_spec.h\<close>, \<open>src/src/hwio_comp_spec.cpp\<close>): a name,
  a vendor, a type and a version, parsed from device-tree compatibility strings and compared
  with wildcards. Positions in strings are \<open>size_t\<close> values, so \<open>npos + 1\<close> is 0 and a
  difference may wrap around.
\<close>

record hwio_comp_spec =
  spec_name :: string
  spec_vendor :: string
  spec_type :: string
  spec_version :: hwio_version

definition hwio_comp_spec_default :: hwio_comp_spec where
  "hwio_comp_spec_default =
     \<lparr>spec_name = [], spec_vendor = [], spec_type = [], spec_version = hwio_version_default\<rparr>"

definition hwio_comp_spec_ctor :: "string \<Rightarrow> string \<Rightarrow> hwio_version \<Rightarrow> hwio_comp_spec" where
  "hwio_comp_spec_ctor vendor ty ver =
     \<lparr>spec_name = [], spec_vendor = vendor, spec_type = ty, spec_version = ver\<rparr>"

definition name_set :: "string \<Rightarrow> hwio_comp_spec \<Rightarrow> hwio_comp_spec" where
  "name_set n s = s\<lparr>spec_name := n\<rparr>"

definition name_get :: "hwio_comp_spec \<Rightarrow> string" where
  "name_get s = spec_name s"

definition hwio_comp_spec_copy :: "hwio_comp_spec \<Rightarrow> hwio_comp_spec" where
  "hwio_comp_spec_copy s =
     name_set (spec_name s) (hwio_comp_spec_ctor (spec_vendor s) (spec_type s) (spec_version s))"

text \<open>
  The tail of both branches with a hyphen: the version is tried, and a
  \<open>std::runtime_error\<close> (only that) turns the whole rest into the type.
\<close>

definition try_version :: "string \<Rightarrow> nat \<Rightarrow> nat \<Rightarrow> (hwio_version \<times> nat) res" where
  "try_version compatibility_str version_begin type_end =
     (case bind_res (substr compatibility_str version_begin (length compatibility_str)) hwio_version_parse of
        Inr v \<Rightarrow> Inr (v, type_end)
      | Inl (Throw e) \<Rightarrow>
          if is_runtime_error e then Inr (hwio_version_default, length compatibility_str) else Inl (Throw e)
      | Inl f \<Rightarrow> Inl f)"

definition hwio_comp_spec_parse :: "string \<Rightarrow> hwio_comp_spec res" where
  "hwio_comp_spec_parse compatibility_str =
     (let comma = find_last_of compatibility_str CHR '','';
          hyphen = find_last_of compatibility_str CHR ''-'';
          type_begin = size_add comma 1;
          version_begin = size_add hyphen 1;
          type_end = hyphen;
          vendor_end = comma
      in if comma = npos \<and> hyphen = npos then
           Inr (hwio_comp_spec_default\<lparr>spec_type := compatibility_str\<rparr>)
         else if comma \<noteq> npos \<and> hyphen = npos then
           bind_res (substr compatibility_str 0 vendor_end) (\<lambda>vendor.
             Inr (hwio_comp_spec_default\<lparr>spec_type := [char_of type_begin], spec_vendor := vendor\<rparr>))
         else if comma = npos \<and> hyphen \<noteq> npos then
           bind_res (try_version compatibility_str version_begin type_end) (\<lambda>(ver, type_end).
           bind_res (substr compatibility_str 0 type_end) (\<lambda>ty.
             Inr (hwio_comp_spec_default\<lparr>spec_version := ver, spec_type := ty\<rparr>)))
         else
           bind_res (try_version compatibility_str version_begin (size_sub hyphen type_begin)) (\<lambda>(ver, type_end).
           bind_res (substr compatibility_str type_begin type_end) (\<lambda>ty.
           bind_res (substr compatibility_str 0 vendor_end) (\<lambda>vendor.
             Inr (hwio_comp_spec_default\<lparr>spec_version := ver, spec_type := ty, spec_vendor := vendor\<rparr>)))))"

definition hwio_comp_spec_to_str :: "hwio_comp_spec \<Rightarrow> string" where
  "hwio_comp_spec_to_str s =
     spec_name s @ '':'' @ spec_vendor s @ '','' @ spec_type s @ ''-'' @
     hwio_version_to_str (spec_version s)"

definition hwio_comp_spec_eq :: "hwio_comp_spec \<Rightarrow> hwio_comp_spec \<Rightarrow> bool" where
  "hwio_comp_spec_eq this other =
     (if spec_name this \<noteq> [] \<and> spec_name other \<noteq> [] then spec_name this = spec_name other
      else if spec_vendor this \<noteq> [] \<and> spec_vendor other \<noteq> [] \<and> spec_vendor this \<noteq> spec_vendor other
      then False
      else if spec_type this \<noteq> [] \<and> spec_type other \<noteq> [] \<and> spec_type this \<noteq> spec_type other
      then False
      else hwio_version_eq (spec_version this) (spec_version other))"

definition hwio_comp_spec_ne :: "hwio_comp_spec \<Rightarrow> hwio_comp_spec \<Rightarrow> bool" where
  "hwio_comp_spec_ne this other = (\<not> hwio_comp_spec_eq this other)"

lemma hwio_comp_spec_copy_id [simp]: "hwio_comp_spec_copy s = s"
  by (simp add: hwio_comp_spec_copy_def hwio_comp_spec_ctor_def name_set_def)

lemma hwio_comp_spec_eq_refl [simp]: "hwio_comp_spec_eq s s"
  by (simp add: hwio_comp_spec_eq_def)

section \<open>Parsing compatibility strings\<close>

text \<open>Only a hyphen is present.\<close>

lemma comp_spec_parse_type:
  assumes "CHR '','' \<notin> set ty" "CHR '','' \<notin> set ver" "CHR ''-'' \<notin> set ver"
    and len: "length (ty @ CHR ''-'' # ver) < npos"
  shows "hwio_comp_spec_parse (ty @ CHR ''-'' # ver) =
    bind_res (try_version (ty @ CHR ''-'' # ver) (Suc (length ty)) (length ty))
      (\<lambda>(v, type_end). Inr \<lparr>spec_name = [], spec_vendor = [],
          spec_type = take type_end (ty @ CHR ''-'' # ver), spec_version = v\<rparr>)"
proof -
  have "find_last_of (ty @ CHR ''-'' # ver) CHR '','' = npos" "length ty \<noteq> npos"
    using assms by auto
  moreover have "size_add (length ty) 1 = Suc (length ty)"
    using len by (simp add: size_add_small npos_def)
  ultimately show ?thesis
    using assms(3) by (simp add: hwio_comp_spec_parse_def Let_def substr_def hwio_comp_spec_default_def split_def)
qed

text \<open>Both separators are present, the hyphen after the comma.\<close>

lemma comp_spec_parse_vendor:
  assumes "CHR '','' \<notin> set ty" "CHR '','' \<notin> set ver" "CHR ''-'' \<notin> set ver"
    and len: "length (vendor @ CHR '','' # ty @ CHR ''-'' # ver) < npos"
  shows "hwio_comp_spec_parse (vendor @ CHR '','' # ty @ CHR ''-'' # ver) =
    bind_res (try_version (vendor @ CHR '','' # ty @ CHR ''-'' # ver) (Suc (Suc (length vendor + length ty))) (length ty))
      (\<lambda>(v, type_end). Inr \<lparr>spec_name = [], spec_vendor = vendor,
          spec_type = take type_end (ty @ CHR ''-'' # ver), spec_version = v\<rparr>)"
    (is "hwio_comp_spec_parse ?c = _")
proof -
  have comma: "find_last_of ?c CHR '','' = length vendor"
    using assms by simp
  have hyphen: "find_last_of ?c CHR ''-'' = Suc (length vendor + length ty)"
    using find_last_of_append [of "CHR ''-''" ver "vendor @ CHR '','' # ty"] assms by simp
  have small: "Suc (Suc (length vendor + length ty)) < 2 ^ 64"
    using len by (simp add: npos_def)
  then have pos: "size_add (length vendor) 1 = Suc (length vendor)"
      "size_add (Suc (length vendor + length ty)) 1 = Suc (Suc (length vendor + length ty))"
      "size_sub (Suc (length vendor + length ty)) (Suc (length vendor)) = length ty"
    by (simp_all add: size_add_small size_sub_small)
  have "length vendor \<noteq> npos" "Suc (length vendor + length ty) \<noteq> npos"
    using len by auto
  then show ?thesis
    using pos by (simp add: hwio_comp_spec_parse_def Let_def comma hyphen substr_def
        hwio_comp_spec_default_def split_def)
qed

text \<open>
  C30: a compatibility string \<open>vendor,type-version\<close> is parsed into its parts, for any vendor (it
  may hold commas and hyphens), any type without a comma, and any version the version parser accepts.
\<close>

theorem comp_spec_parse_vendor_type_version:
  assumes "CHR '','' \<notin> set ty" "CHR '','' \<notin> set ver" "CHR ''-'' \<notin> set ver"
    and "hwio_version_parse ver = Inr v" "length (vendor @ '','' @ ty @ ''-'' @ ver) < npos"
  shows "hwio_comp_spec_parse (vendor @ '','' @ ty @ ''-'' @ ver) =
    Inr \<lparr>spec_name = [], spec_vendor = vendor, spec_type = ty, spec_version = v\<rparr>"
  using comp_spec_parse_vendor [OF assms(1-3)] assms(4,5) by (simp add: try_version_def substr_def)

theorem comp_spec_parse_vendor_type_version_witness:
  "hwio_comp_spec_parse (''test-vendor'' @ '','' @ ''testing-type'' @ ''-'' @ ''1.0.a'') =
    Inr \<lparr>spec_name = [], spec_vendor = ''test-vendor'', spec_type = ''testing-type'',
         spec_version = hwio_version_ctor 1 0 97\<rparr>"
proof (rule comp_spec_parse_vendor_type_version)
  show "hwio_version_parse ''1.0.a'' = Inr (hwio_version_ctor 1 0 97)"
    by code_simp
qed (simp_all add: npos_def)

text \<open>What follows the last hyphen of a string.\<close>

definition version_part :: "string \<Rightarrow> string" where
  "version_part s = rev (takeWhile (\<lambda>c. c \<noteq> CHR ''-'') (rev s))"

lemma split_at_hyphen:
  assumes "CHR ''-'' \<in> set s"
  obtains a where "s = a @ CHR ''-'' # version_part s" "CHR ''-'' \<notin> set (version_part s)"
proof -
  from assms obtain a b where s: "s = a @ CHR ''-'' # b" "CHR ''-'' \<notin> set b"
    by (meson split_list_last)
  then have "version_part s = b"
    by (simp add: version_part_def takeWhile_append)
  with s that [of a] show ?thesis by simp
qed

lemma try_version_fails:
  assumes "c = a @ CHR ''-'' # b" "hwio_version_parse b = Inl (Throw Runtime_error)"
  shows "try_version c (Suc (length a)) e = Inr (hwio_version_default, length c)"
  using assms by (simp add: try_version_def substr_def is_runtime_error_def)

text \<open>
  When the text after the last hyphen is not a version, \<open>vendor,type\<close> keeps the whole type, hyphens
  included; the version is left unspecified. This also covers a vendor with a hyphen and a type
  without one, where the code computes the length of the type by a subtraction that wraps around.
\<close>

lemma comp_spec_parse_vendor_type:
  assumes "CHR '','' \<notin> set ty" "CHR ''-'' \<in> set (vendor @ '','' @ ty)"
    and "\<not> matches hwio_version_regex (version_part (vendor @ '','' @ ty))"
    and "length (vendor @ '','' @ ty) < npos"
  shows "hwio_comp_spec_parse (vendor @ '','' @ ty) =
    Inr \<lparr>spec_name = [], spec_vendor = vendor, spec_type = ty, spec_version = hwio_version_default\<rparr>"
proof -
  define c where "c = vendor @ CHR '','' # ty"
  obtain a where a: "c = a @ CHR ''-'' # version_part c" "CHR ''-'' \<notin> set (version_part c)"
    using split_at_hyphen [of c] assms(2) by (auto simp: c_def)
  have "hwio_version_parse (version_part c) = Inl (Throw Runtime_error)"
    using assms(3) version_parse_runtime_error by (auto simp: c_def)
  then have ver: "try_version c (Suc (length a)) e = Inr (hwio_version_default, length c)" for e
    using a(1) by (rule try_version_fails [rotated])
  have hyphen: "find_last_of c CHR ''-'' = length a"
    using find_last_of_append [OF a(2), of a] a(1) by simp
  have comma: "find_last_of c CHR '','' = length vendor"
    using assms(1) by (simp add: c_def)
  have len: "length c < npos" "length a < length c" "length vendor < length c"
    using assms(4) arg_cong [OF a(1), of length] by (simp_all add: c_def)
  then have "size_add (length a) 1 = Suc (length a)" "size_add (length vendor) 1 = Suc (length vendor)"
    by (simp_all add: size_add_small npos_def)
  with len show ?thesis
    using ver by (simp add: hwio_comp_spec_parse_def Let_def hyphen comma substr_def
        hwio_comp_spec_default_def flip: c_def) (simp add: c_def)
qed

text \<open>
  A string \<open>vendor,type\<close> without any hyphen loses its type: the code assigns the position
  \<open>type_begin\<close> to the string, which stores the one character with that code.
\<close>

lemma comp_spec_parse_loses_type:
  assumes "CHR '','' \<notin> set ty" "CHR ''-'' \<notin> set (vendor @ ty)" "length vendor + 1 < npos"
  shows "hwio_comp_spec_parse (vendor @ '','' @ ty) =
    Inr \<lparr>spec_name = [], spec_vendor = vendor, spec_type = [char_of (length vendor + 1)],
         spec_version = hwio_version_default\<rparr>"
proof -
  have "find_last_of (vendor @ CHR '','' # ty) CHR '','' = length vendor"
    "find_last_of (vendor @ CHR '','' # ty) CHR ''-'' = npos"
    using assms by simp_all
  moreover have "size_add (length vendor) 1 = Suc (length vendor)"
    using assms(3) by (simp add: size_add_small npos_def)
  ultimately show ?thesis
    using assms(3) by (simp add: hwio_comp_spec_parse_def Let_def substr_def hwio_comp_spec_default_def)
qed

text \<open>
  Only \<open>std::runtime_error\<close> is caught around the version parser, so a compatibility string
  that ends in an underscore subminor or in a component beyond \<open>int\<close> makes the constructor throw.
\<close>

lemma comp_spec_parse_escaping_exceptions:
  "hwio_comp_spec_parse ''uart-1.0._'' = Inl (Throw Invalid_argument) \<and>
   hwio_comp_spec_parse ''uart-1.4294967296'' = Inl (Throw Out_of_range)"
proof -
  have "hwio_version_parse ''1.0._'' = Inl (Throw Invalid_argument)" by code_simp
  moreover have "hwio_version_parse ''1.4294967296'' = Inl (Throw Out_of_range)"
    by (simp add: hwio_version_parse_def regex_match_version_def split_subminor_def stoi_digits
        dec_val_def char_class_defs)
  ultimately show ?thesis
    using comp_spec_parse_type [of "''uart''" "''1.0._''"] comp_spec_parse_type [of "''uart''" "''1.4294967296''"]
    by (simp add: npos_def try_version_def substr_def is_runtime_error_def)
qed

end
