(* ===== verification/Hwio_Wire.thy ===== *)
theory Hwio_Wire
  imports Hwio_Comp_Spec
begin

text \<open>
  The wire format of the client/server protocol (\<open>src/src/hwio_remote.h\<close>): the limits, the
  command and error codes, and the packed structs with their images in memory on a
  little-endian host. The structs are copied between buffers byte by byte with no conversion of
  the byte order, so their memory image is their wire image.
\<close>

section \<open>Limits, commands and error codes\<close>

definition MAX_DEVICES :: nat where [simp]: "MAX_DEVICES = 256"
definition BUFFER_SIZE :: nat where [simp]: "BUFFER_SIZE = 2048"
definition MAX_NAME_LEN :: nat where [simp]: "MAX_NAME_LEN = 128"
definition MAX_ITEMS_PER_QUERY :: nat where [simp]: "MAX_ITEMS_PER_QUERY = 5"
definition MAX_ERR_MSG_LEN :: nat where [simp]: "MAX_ERR_MSG_LEN = 1024"

text \<open>
  \<open>HWIO_CMD\<close>. The last two enumerators share the code 17, so the codes are constants rather
  than a datatype.
\<close>

definition HWIO_CMD_READ :: byte where [simp]: "HWIO_CMD_READ = 1"
definition HWIO_CMD_READ_RESP :: byte where [simp]: "HWIO_CMD_READ_RESP = 2"
definition HWIO_CMD_WRITE :: byte where [simp]: "HWIO_CMD_WRITE = 3"
definition HWIO_CMD_PING_REQUEST :: byte where [simp]: "HWIO_CMD_PING_REQUEST = 4"
definition HWIO_CMD_PING_REPLY :: byte where [simp]: "HWIO_CMD_PING_REPLY = 5"
definition HWIO_CMD_QUERY :: byte where [simp]: "HWIO_CMD_QUERY = 6"
definition HWIO_CMD_QUERY_RESP :: byte where [simp]: "HWIO_CMD_QUERY_RESP = 7"
definition HWIO_CMD_BYE :: byte where [simp]: "HWIO_CMD_BYE = 8"
definition HWIO_CMD_MSG :: byte where [simp]: "HWIO_CMD_MSG = 9"
definition HWIO_CMD_REMOTE_CALL :: byte where [simp]: "HWIO_CMD_REMOTE_CALL = 10"
definition HWIO_CMD_REMOTE_CALL_RET :: byte where [simp]: "HWIO_CMD_REMOTE_CALL_RET = 11"
definition HWIO_CMD_READ_MULTIPLE :: byte where [simp]: "HWIO_CMD_READ_MULTIPLE = 12"
definition HWIO_CMD_READ_MULTIPLE_RESP :: byte where [simp]: "HWIO_CMD_READ_MULTIPLE_RESP = 13"
definition HWIO_CMD_WRITE_MULTIPLE :: byte where [simp]: "HWIO_CMD_WRITE_MULTIPLE = 14"
definition HWIO_CMD_WRITE_KEYHOLE :: byte where [simp]: "HWIO_CMD_WRITE_KEYHOLE = 15"
definition HWIO_CMD_REMOTE_CALL_FAST :: byte where [simp]: "HWIO_CMD_REMOTE_CALL_FAST = 16"
definition HWIO_CMD_GET_REMOTE_CALL_ID :: byte where [simp]: "HWIO_CMD_GET_REMOTE_CALL_ID = 17"
definition HWIO_CMD_GET_REMOTE_CALL_ID_RESP :: byte where [simp]: "HWIO_CMD_GET_REMOTE_CALL_ID_RESP = 17"

text \<open>\<open>HWIO_SERVER_ERROR\<close>\<close>

datatype HWIO_SERVER_ERROR = UNKNOWN_COMMAND | MALFORMED_PACKET | DEV_CNT_EXCEEDED | ACCESS_DENIED | IO_ERROR

primrec err_code :: "HWIO_SERVER_ERROR \<Rightarrow> u32" where
  "err_code UNKNOWN_COMMAND = 1"
| "err_code MALFORMED_PACKET = 2"
| "err_code DEV_CNT_EXCEEDED = 3"
| "err_code ACCESS_DENIED = 4"
| "err_code IO_ERROR = 5"

section \<open>Packed structs\<close>

record Hwio_packet_header =
  command :: byte
  body_len :: u16

definition enc_header :: "Hwio_packet_header \<Rightarrow> byte list" where
  "enc_header h = command h # enc16 (body_len h)"

definition dec_header :: "byte list \<Rightarrow> Hwio_packet_header" where
  "dec_header bs = \<lparr>command = hd bs, body_len = dec16 (drop 1 bs)\<rparr>"

definition sizeof_header :: nat where [simp]: "sizeof_header = 3"

text \<open>\<open>RdReq\<close>, which is also the fixed part of a \<open>WrReq\<close>.\<close>

record RdReq =
  rd_devId :: u16
  rd_addr :: u32
  rd_size :: u16

definition enc_RdReq :: "RdReq \<Rightarrow> byte list" where
  "enc_RdReq r = enc16 (rd_devId r) @ enc32 (rd_addr r) @ enc16 (rd_size r)"

definition dec_RdReq :: "byte list \<Rightarrow> RdReq" where
  "dec_RdReq bs = \<lparr>rd_devId = dec16 bs, rd_addr = dec32 (drop 2 bs), rd_size = dec16 (drop 6 bs)\<rparr>"

definition sizeof_RdReq :: nat where [simp]: "sizeof_RdReq = 8"

text \<open>\<open>RemoteCall\<close> and \<open>GetRemoteCallId\<close>: a device id and a function name of 128 bytes.\<close>

definition sizeof_RemoteCall :: nat where [simp]: "sizeof_RemoteCall = 130"

definition enc_RemoteCall :: "u16 \<Rightarrow> string \<Rightarrow> byte list" where
  "enc_RemoteCall dev_id fn_name = enc16 dev_id @ strncpy_bytes MAX_NAME_LEN fn_name"

text \<open>\<open>RemoteCallFast\<close>: a device id and a function id.\<close>

definition sizeof_RemoteCallFast :: nat where [simp]: "sizeof_RemoteCallFast = 6"

definition enc_RemoteCallFast :: "u16 \<Rightarrow> u32 \<Rightarrow> byte list" where
  "enc_RemoteCallFast dev_id fn_id = enc16 dev_id @ enc32 fn_id"

text \<open>\<open>GetRemoteCallIdResp\<close>: a \<open>bool\<close> and a function id.\<close>

definition enc_GetRemoteCallIdResp :: "bool \<Rightarrow> u32 \<Rightarrow> byte list" where
  "enc_GetRemoteCallIdResp found fn_id = (if found then 1 else 0) # enc32 fn_id"

text \<open>\<open>hwio_version\<close> and \<open>Dev_query_item\<close>.\<close>

definition enc_version :: "hwio_version \<Rightarrow> byte list" where
  "enc_version v = enc32 (major v) @ enc32 (minor v) @ enc32 (subminor v)"

definition dec_version :: "byte list \<Rightarrow> hwio_version" where
  "dec_version bs = hwio_version_ctor (dec32 bs) (dec32 (drop 4 bs)) (dec32 (drop 8 bs))"

definition sizeof_Dev_query_item :: nat where [simp]: "sizeof_Dev_query_item = 396"

definition enc_query_item :: "hwio_comp_spec \<Rightarrow> byte list" where
  "enc_query_item s =
     strncpy_bytes MAX_NAME_LEN (spec_name s) @ strncpy_bytes MAX_NAME_LEN (spec_vendor s) @
     strncpy_bytes MAX_NAME_LEN (spec_type s) @ enc_version (spec_version s)"

text \<open>\<open>ErrMsg\<close>: the code and 1024 bytes of text.\<close>

definition sizeof_ErrMsg :: nat where [simp]: "sizeof_ErrMsg = 1028"

section \<open>Sizes and round trips\<close>

lemma length_enc_structs [simp]:
  "length (enc_header h) = 3" "length (enc_RdReq r) = 8" "length (enc_RemoteCall d n) = 130"
  "length (enc_RemoteCallFast d i) = 6" "length (enc_GetRemoteCallIdResp b i) = 5"
  "length (enc_version v) = 12" "length (enc_query_item s) = 396"
  by (simp_all add: enc_header_def enc_RdReq_def enc_RemoteCall_def enc_RemoteCallFast_def
      enc_GetRemoteCallIdResp_def enc_version_def enc_query_item_def)

lemma dec_enc_header [wire_simps, simp]: "dec_header (enc_header h @ bs) = h"
  by (simp add: dec_header_def enc_header_def)

lemma dec_enc_header_exact [wire_simps, simp]: "dec_header (enc_header h) = h"
  using dec_enc_header [of h "[]"] by simp

lemma dec_enc_RdReq [wire_simps, simp]: "dec_RdReq (enc_RdReq r @ bs) = r"
  by (simp add: dec_RdReq_def enc_RdReq_def)

lemma dec_enc_RdReq_exact [wire_simps, simp]: "dec_RdReq (enc_RdReq r) = r"
  using dec_enc_RdReq [of r "[]"] by simp

lemma dec_enc_version [wire_simps, simp]: "dec_version (enc_version v @ bs) = v"
  by (simp add: dec_version_def enc_version_def hwio_version_ctor_def)

lemma enc_dec_header [wire_simps]: "length bs = 3 \<Longrightarrow> enc_header (dec_header bs) = bs"
  by (cases bs) (simp_all add: enc_header_def dec_header_def enc16_dec16)

lemma dec_header_inj: "enc_header h @ bs = enc_header k @ cs \<Longrightarrow> h = k \<and> bs = cs"
  by (metis append_eq_append_conv dec_enc_header length_enc_structs(1))

end
