(* ===== verification/Hwio_Device.thy ===== *)
theory Hwio_Device
  imports Hwio_Comp_Spec
begin

unbundle bit_operations_syntax

text \<open>
  The device interface (\<open>src/src/device/ihwio_dev.h\<close>). A device is a pointer \<open>'d\<close>, its state
  lives in a world \<open>'w\<close>, and the virtual methods are the fields of a table \<open>dev_ops\<close>. The
  default \<open>read\<close>, \<open>write\<close> and \<open>memset\<close> are written over the virtual 8 and 32 bit accesses, as in
  the source.

  The locale \<open>byte_device\<close> states what a memory-like device promises of its four accesses; inside
  it the default operations are shown to copy, store and fill byte ranges.
\<close>

record ('w, 'd) dev_ops =
  get_spec :: "'d \<Rightarrow> 'w \<Rightarrow> hwio_comp_spec list"
  dev_name :: "'d \<Rightarrow> 'w \<Rightarrow> string"
  attach :: "'d \<Rightarrow> 'w \<Rightarrow> unit res \<times> 'w"
  dev_read :: "'d \<Rightarrow> u32 \<Rightarrow> carray \<Rightarrow> nat \<Rightarrow> nat \<Rightarrow> 'w \<Rightarrow> unit res \<times> carray \<times> 'w"
  dev_write :: "'d \<Rightarrow> u32 \<Rightarrow> carray \<Rightarrow> nat \<Rightarrow> nat \<Rightarrow> 'w \<Rightarrow> unit res \<times> 'w"

section \<open>The default read\<close>

text \<open>
  \<open>dst\<close> is the destination array, \<open>i\<close> the position in it, \<open>off\<close> the 32-bit offset in the device
  and \<open>n\<close> the number of bytes left. Whole words first, then the rest byte by byte.
\<close>

fun ihwio_read_bytes ::
  "(u32 \<Rightarrow> 'w \<Rightarrow> byte res \<times> 'w) \<Rightarrow> u32 \<Rightarrow> carray \<Rightarrow> nat \<Rightarrow> nat \<Rightarrow> 'w \<Rightarrow> unit res \<times> carray \<times> 'w" where
  "ihwio_read_bytes read8 off dst i 0 w = (Inr (), dst, w)"
| "ihwio_read_bytes read8 off dst i (Suc n) w =
     (case read8 off w of
        (Inl e, w') \<Rightarrow> (Inl e, dst, w')
      | (Inr v, w') \<Rightarrow>
          (case astore dst i [v] of
             Inl e \<Rightarrow> (Inl e, dst, w')
           | Inr dst' \<Rightarrow> ihwio_read_bytes read8 (off + 1) dst' (i + 1) n w'))"

function ihwio_read ::
  "(u32 \<Rightarrow> 'w \<Rightarrow> byte res \<times> 'w) \<Rightarrow> (u32 \<Rightarrow> 'w \<Rightarrow> u32 res \<times> 'w) \<Rightarrow>
   u32 \<Rightarrow> carray \<Rightarrow> nat \<Rightarrow> nat \<Rightarrow> 'w \<Rightarrow> unit res \<times> carray \<times> 'w" where
  "ihwio_read read8 read32 off dst i n w =
     (if 4 \<le> n then
        (case read32 off w of
           (Inl e, w') \<Rightarrow> (Inl e, dst, w')
         | (Inr v, w') \<Rightarrow>
             (case astore dst i (enc32 v) of
                Inl e \<Rightarrow> (Inl e, dst, w')
              | Inr dst' \<Rightarrow> ihwio_read read8 read32 (off + 4) dst' (i + 4) (n - 4) w'))
      else ihwio_read_bytes read8 off dst i n w)"
  by pat_completeness auto
termination
  by (relation "measure (\<lambda>(r8, r32, off, dst, i, n, w). n)") auto

section \<open>The default memset\<close>

definition memset_fill :: "byte \<Rightarrow> u32" where
  "memset_fill c =
     (let fill0 = ucast c :: u32;
          fill1 = fill0 OR (push_bit 8 (ucast c) OR ucast c)
      in fill1 OR push_bit (2 * 8) fill1)"

fun ihwio_memset_bytes :: "(u32 \<Rightarrow> byte \<Rightarrow> 'w \<Rightarrow> unit res \<times> 'w) \<Rightarrow> u32 \<Rightarrow> byte \<Rightarrow> nat \<Rightarrow> 'w \<Rightarrow> unit res \<times> 'w" where
  "ihwio_memset_bytes write8 off c 0 w = (Inr (), w)"
| "ihwio_memset_bytes write8 off c (Suc n) w =
     (case write8 off c w of
        (Inl e, w') \<Rightarrow> (Inl e, w')
      | (Inr _, w') \<Rightarrow> ihwio_memset_bytes write8 (off + 1) c n w')"

function ihwio_memset ::
  "(u32 \<Rightarrow> byte \<Rightarrow> 'w \<Rightarrow> unit res \<times> 'w) \<Rightarrow> (u32 \<Rightarrow> u32 \<Rightarrow> 'w \<Rightarrow> unit res \<times> 'w) \<Rightarrow>
   u32 \<Rightarrow> byte \<Rightarrow> nat \<Rightarrow> 'w \<Rightarrow> unit res \<times> 'w" where
  "ihwio_memset write8 write32 off c n w =
     (if 4 \<le> n then
        (case write32 off (memset_fill c) w of
           (Inl e, w') \<Rightarrow> (Inl e, w')
         | (Inr _, w') \<Rightarrow> ihwio_memset write8 write32 (off + 4) c (n - 4) w')
      else ihwio_memset_bytes write8 off c n w)"
  by pat_completeness auto
termination
  by (relation "measure (\<lambda>(w8, w32, off, c, n, w). n)") auto

section \<open>The default write\<close>

text \<open>\<open>src\<close> is the array the data pointer points into, \<open>i\<close> the position in it.\<close>

fun ihwio_write_bytes ::
  "(u32 \<Rightarrow> byte \<Rightarrow> 'w \<Rightarrow> unit res \<times> 'w) \<Rightarrow> u32 \<Rightarrow> carray \<Rightarrow> nat \<Rightarrow> nat \<Rightarrow> 'w \<Rightarrow> unit res \<times> 'w" where
  "ihwio_write_bytes write8 off src i 0 w = (Inr (), w)"
| "ihwio_write_bytes write8 off src i (Suc n) w =
     (case aload src i 1 of
        Inl e \<Rightarrow> (Inl e, w)
      | Inr bs \<Rightarrow>
          (case write8 off (hd bs) w of
             (Inl e, w') \<Rightarrow> (Inl e, w')
           | (Inr _, w') \<Rightarrow> ihwio_write_bytes write8 (off + 1) src (i + 1) n w'))"

function ihwio_write ::
  "(u32 \<Rightarrow> byte \<Rightarrow> 'w \<Rightarrow> unit res \<times> 'w) \<Rightarrow> (u32 \<Rightarrow> u32 \<Rightarrow> 'w \<Rightarrow> unit res \<times> 'w) \<Rightarrow>
   u32 \<Rightarrow> carray \<Rightarrow> nat \<Rightarrow> nat \<Rightarrow> 'w \<Rightarrow> unit res \<times> 'w" where
  "ihwio_write write8 write32 off src i n w =
     (if 4 \<le> n then
        (case aload src i 4 of
           Inl e \<Rightarrow> (Inl e, w)
         | Inr bs \<Rightarrow>
             (case write32 off (dec32 bs) w of
                (Inl e, w') \<Rightarrow> (Inl e, w')
              | (Inr _, w') \<Rightarrow> ihwio_write write8 write32 (off + 4) src (i + 4) (n - 4) w'))
      else ihwio_write_bytes write8 off src i n w)"
  by pat_completeness auto
termination
  by (relation "measure (\<lambda>(w8, w32, off, src, i, n, w). n)") auto

declare ihwio_read.simps [simp del] ihwio_memset.simps [simp del] ihwio_write.simps [simp del]

section \<open>Comparing devices\<close>

text \<open>
  \<open>operator==\<close>: the same object, or specifications that agree position by position;
  \<open>std::vector::at\<close> throws when the other device has fewer of them.
\<close>

fun dev_specs_eq :: "hwio_comp_spec list \<Rightarrow> hwio_comp_spec list \<Rightarrow> bool res" where
  "dev_specs_eq [] bs = Inr True"
| "dev_specs_eq (a # as) [] = Inl (Throw Out_of_range)"
| "dev_specs_eq (a # as) (b # bs) = (if hwio_comp_spec_ne a b then Inr False else dev_specs_eq as bs)"

definition dev_eq :: "('w, 'd) dev_ops \<Rightarrow> 'd \<Rightarrow> 'd \<Rightarrow> 'w \<Rightarrow> bool res" where
  "dev_eq ops a b w = (if a = b then Inr True else dev_specs_eq (get_spec ops a w) (get_spec ops b w))"

definition dev_ne :: "('w, 'd) dev_ops \<Rightarrow> 'd \<Rightarrow> 'd \<Rightarrow> 'w \<Rightarrow> bool res" where
  "dev_ne ops a b w = bind_res (dev_eq ops a b w) (\<lambda>e. Inr (\<not> e))"

section \<open>Memory-like devices\<close>

text \<open>The contents of a byte range of a memory, and a memory with a byte range replaced.\<close>

definition mem_range :: "(nat \<Rightarrow> byte) \<Rightarrow> nat \<Rightarrow> nat \<Rightarrow> byte list" where
  "mem_range m off n = map m [off..<off + n]"

definition mem_store :: "(nat \<Rightarrow> byte) \<Rightarrow> nat \<Rightarrow> byte list \<Rightarrow> nat \<Rightarrow> byte" where
  "mem_store m off bs = (\<lambda>i. if off \<le> i \<and> i < off + length bs then bs ! (i - off) else m i)"

lemma length_mem_range [simp]: "length (mem_range m off n) = n"
  by (simp add: mem_range_def)

lemma mem_range_0 [simp]: "mem_range m off 0 = []"
  by (simp add: mem_range_def)

lemma mem_store_Nil [simp]: "mem_store m off [] = m"
  by (rule ext) (auto simp: mem_store_def)

lemma mem_range_split: "mem_range m off (k + n) = mem_range m off k @ mem_range m (off + k) n"
  by (metis (no_types) add.assoc le_add1 map_append mem_range_def upt_add_eq_append)

lemma mem_store_append:
  "mem_store m off (as @ bs) = mem_store (mem_store m off as) (off + length as) bs"
  by (rule ext) (auto simp: mem_store_def nth_append)

lemma mem_range_store_same: "mem_range (mem_store m off bs) off (length bs) = bs"
  by (auto simp: mem_range_def mem_store_def intro!: nth_equalityI)

lemma mem_range_store_other:
  "off' + n \<le> off \<or> off + length bs \<le> off' \<Longrightarrow> mem_range (mem_store m off bs) off' n = mem_range m off' n"
  by (auto simp: mem_range_def mem_store_def)

lemma abytes_mem_range: "abytes a i n = mem_range (aget a) i n"
  by (simp add: abytes_def mem_range_def)

lemma astore_mem_store:
  "i + length bs \<le> acap a \<Longrightarrow> astore a i bs = Inr (a\<lparr>aget := mem_store (aget a) i bs\<rparr>)"
  by (simp add: astore_def mem_store_def)

lemma abytes_stored: "abytes (dst\<lparr>aget := mem_store (aget dst) i bs\<rparr>) i (length bs) = bs"
  by (auto simp: abytes_nth mem_store_def intro: nth_equalityI)

lemma unat_add_le:
  assumes "unat (off :: u32) + n \<le> l" "l < 2 ^ 32" "k \<le> n"
  shows "unat (off + word_of_nat k) = unat off + k"
proof -
  have "unat off + k < 2 ^ 32" using assms by linarith
  then show ?thesis by (simp add: unat_word_ariths unat_of_nat)
qed

lemma unat_add_1_4:
  assumes "unat (off :: u32) + n \<le> l" "l < 2 ^ 32"
  shows "1 \<le> n \<Longrightarrow> unat (off + 1) = unat off + 1" "4 \<le> n \<Longrightarrow> unat (off + 4) = unat off + 4"
  using unat_add_le [OF assms, of 1] unat_add_le [OF assms, of 4] by simp_all

lemma memset_fill_mult: "memset_fill c = ucast c * 0x01010101"
proof -
  let ?u = "ucast c :: u32"
  have "memset_fill c = (?u OR push_bit 8 ?u) OR (push_bit 16 ?u OR push_bit 24 ?u)"
    by (rule bit_word_eqI) (auto simp: memset_fill_def Let_def bit_simps)
  also have "\<dots> = (?u OR push_bit 8 ?u) + (push_bit 16 ?u OR push_bit 24 ?u)"
    by (rule disjunctive_add_eq_or [symmetric]) (rule bit_word_eqI, auto simp: bit_simps dest: bit_imp_le_length)
  also have "?u OR push_bit 8 ?u = ?u + push_bit 8 ?u"
    by (rule disjunctive_add_eq_or [symmetric]) (rule bit_word_eqI, auto simp: bit_simps dest: bit_imp_le_length)
  also have "push_bit 16 ?u OR push_bit 24 ?u = push_bit 16 ?u + push_bit 24 ?u"
    by (rule disjunctive_add_eq_or [symmetric]) (rule bit_word_eqI, auto simp: bit_simps dest: bit_imp_le_length)
  finally show ?thesis by (simp add: push_bit_eq_mult)
qed

lemma enc32_memset_fill: "enc32 (memset_fill c) = [c, c, c, c]"
proof -
  have "unat (ucast c :: u32) = unat c"
    by (simp add: unsigned_ucast_eq take_bit_nat_eq_self_iff order.strict_trans [OF unat_byte_less])
  moreover have "unat c \<le> 255" using unat_byte_less [of c] by linarith
  ultimately have "unat (memset_fill c) = unat c * 0x01010101"
    by (simp add: memset_fill_mult unat_word_ariths)
  also have "\<dots> = le_dec [c, c, c, c]" by simp
  finally show ?thesis
    unfolding enc32_def by (simp only: le_enc_le_dec list.size)
qed

text \<open>
  What a memory-like device promises: below \<open>limit w\<close> the accesses succeed, a read returns the
  contents and leaves the world alone, a write changes exactly the bytes it names. The contents
  are indexed by offset; words are little-endian.
\<close>

locale byte_device =
  fixes read8 :: "u32 \<Rightarrow> 'w \<Rightarrow> byte res \<times> 'w"
    and read32 :: "u32 \<Rightarrow> 'w \<Rightarrow> u32 res \<times> 'w"
    and write8 :: "u32 \<Rightarrow> byte \<Rightarrow> 'w \<Rightarrow> unit res \<times> 'w"
    and write32 :: "u32 \<Rightarrow> u32 \<Rightarrow> 'w \<Rightarrow> unit res \<times> 'w"
    and contents :: "'w \<Rightarrow> nat \<Rightarrow> byte"
    and limit :: "'w \<Rightarrow> nat"
    and poke :: "nat \<Rightarrow> byte list \<Rightarrow> 'w \<Rightarrow> 'w"
  assumes limit_bound: "limit w < 2 ^ 32"
    and read8_ok: "unat off + 1 \<le> limit w \<Longrightarrow> read8 off w = (Inr (contents w (unat off)), w)"
    and read32_ok: "unat off + 4 \<le> limit w \<Longrightarrow>
          read32 off w = (Inr (dec32 (mem_range (contents w) (unat off) 4)), w)"
    and write8_ok: "unat off + 1 \<le> limit w \<Longrightarrow> write8 off v w = (Inr (), poke (unat off) [v] w)"
    and write32_ok: "unat off + 4 \<le> limit w \<Longrightarrow> write32 off x w = (Inr (), poke (unat off) (enc32 x) w)"
    and poke_limit: "limit (poke i bs w) = limit w"
    and poke_contents: "i + length bs \<le> limit w \<Longrightarrow> contents (poke i bs w) = mem_store (contents w) i bs"
    and poke_Nil: "poke i [] w = w"
    and poke_append: "poke (i + length as) bs (poke i as w) = poke i (as @ bs) w"
begin

lemma read_bytes_ok:
  "unat off + n \<le> limit w \<Longrightarrow> i + n \<le> acap dst \<Longrightarrow>
   ihwio_read_bytes read8 off dst i n w =
     (Inr (), dst\<lparr>aget := mem_store (aget dst) i (mem_range (contents w) (unat off) n)\<rparr>, w)"
proof (induction n arbitrary: off dst i)
  case (Suc n)
  let ?b = "contents w (unat off)"
  have off: "unat (off + 1) = unat off + 1"
    using unat_add_1_4(1) [OF Suc.prems(1) limit_bound] by simp
  have split: "mem_range (contents w) (unat off) (Suc n) = [?b] @ mem_range (contents w) (unat off + 1) n"
    using mem_range_split [of "contents w" "unat off" 1 n] by (simp add: mem_range_def)
  show ?case
    using Suc.prems off Suc.IH [of "off + 1" "i + 1" "dst\<lparr>aget := mem_store (aget dst) i [?b]\<rparr>"]
    by (simp add: read8_ok astore_mem_store split mem_store_append del: append.simps)
qed simp

lemma read_ok:
  "unat off + n \<le> limit w \<Longrightarrow> i + n \<le> acap dst \<Longrightarrow>
   ihwio_read read8 read32 off dst i n w =
     (Inr (), dst\<lparr>aget := mem_store (aget dst) i (mem_range (contents w) (unat off) n)\<rparr>, w)"
proof (induction n arbitrary: off dst i rule: less_induct)
  case (less n)
  show ?case
  proof (cases "4 \<le> n")
    case True
    let ?bs = "mem_range (contents w) (unat off) 4"
    have off: "unat (off + 4) = unat off + 4"
      using unat_add_1_4(2) [OF less.prems(1) limit_bound True] .
    have enc: "enc32 (dec32 ?bs) = ?bs" by (simp add: enc32_dec32)
    have "mem_range (contents w) (unat off) n = ?bs @ mem_range (contents w) (unat off + 4) (n - 4)"
      using mem_range_split [of "contents w" "unat off" 4 "n - 4"] True by simp
    then show ?thesis
      using less.prems off True less.IH [of "n - 4" "off + 4" "i + 4" "dst\<lparr>aget := mem_store (aget dst) i ?bs\<rparr>"]
      by (simp add: ihwio_read.simps [of read8 read32 off] read32_ok enc astore_mem_store mem_store_append)
  next
    case False
    with less.prems show ?thesis
      by (simp add: ihwio_read.simps [of read8 read32 off] read_bytes_ok)
  qed
qed

lemma write_bytes_ok:
  "unat off + n \<le> limit w \<Longrightarrow> i + n \<le> acap src \<Longrightarrow>
   ihwio_write_bytes write8 off src i n w = (Inr (), poke (unat off) (abytes src i n) w)"
proof (induction n arbitrary: off i w)
  case 0
  then show ?case by (simp add: poke_Nil abytes_def)
next
  case (Suc n)
  have off: "unat (off + 1) = unat off + 1"
    using unat_add_1_4(1) [OF Suc.prems(1) limit_bound] by simp
  have "abytes src i (Suc n) = [aget src i] @ abytes src (i + 1) n"
    using abytes_split [of src i 1 n] by (simp add: abytes_def)
  moreover have "aload src i 1 = Inr [aget src i]"
    using Suc.prems by (simp add: aload_def)
  ultimately show ?case
    using Suc.prems off Suc.IH [of "off + 1" "poke (unat off) [aget src i] w" "i + 1"]
      poke_append [of "unat off" "[aget src i]"]
    by (simp add: write8_ok poke_limit)
qed

lemma write_ok:
  "unat off + n \<le> limit w \<Longrightarrow> i + n \<le> acap src \<Longrightarrow>
   ihwio_write write8 write32 off src i n w = (Inr (), poke (unat off) (abytes src i n) w)"
proof (induction n arbitrary: off i w rule: less_induct)
  case (less n)
  show ?case
  proof (cases "4 \<le> n")
    case True
    let ?bs = "abytes src i 4"
    have off: "unat (off + 4) = unat off + 4"
      using unat_add_1_4(2) [OF less.prems(1) limit_bound True] .
    have "abytes src i n = ?bs @ abytes src (i + 4) (n - 4)"
      using abytes_split [of src i 4 "n - 4"] True by simp
    moreover have "aload src i 4 = Inr ?bs" and "enc32 (dec32 ?bs) = ?bs"
      using less.prems True by (simp_all add: aload_ok enc32_dec32)
    ultimately show ?thesis
      using less.prems off True less.IH [of "n - 4" "off + 4" "poke (unat off) ?bs w" "i + 4"]
        poke_append [of "unat off" ?bs]
      by (simp add: ihwio_write.simps [of write8 write32 off] write32_ok poke_limit)
  next
    case False
    with less.prems show ?thesis
      by (simp add: ihwio_write.simps [of write8 write32 off] write_bytes_ok)
  qed
qed

lemma memset_bytes_ok:
  "unat off + n \<le> limit w \<Longrightarrow> ihwio_memset_bytes write8 off c n w = (Inr (), poke (unat off) (replicate n c) w)"
proof (induction n arbitrary: off w)
  case (Suc n)
  have "unat (off + 1) = unat off + 1"
    using unat_add_1_4(1) [OF Suc.prems(1) limit_bound] by simp
  then show ?case
    using Suc.prems Suc.IH [of "off + 1" "poke (unat off) [c] w"] poke_append [of "unat off" "[c]"]
    by (simp add: write8_ok poke_limit)
qed (simp add: poke_Nil)

lemma memset_ok:
  "unat off + n \<le> limit w \<Longrightarrow> ihwio_memset write8 write32 off c n w = (Inr (), poke (unat off) (replicate n c) w)"
proof (induction n arbitrary: off w rule: less_induct)
  case (less n)
  show ?case
  proof (cases "4 \<le> n")
    case True
    have off: "unat (off + 4) = unat off + 4"
      using unat_add_1_4(2) [OF less.prems(1) limit_bound True] .
    have "replicate 4 c = enc32 (memset_fill c)"
      by (simp add: enc32_memset_fill numeral_eq_Suc)
    then have "replicate n c = enc32 (memset_fill c) @ replicate (n - 4) c"
      using True by (metis le_add_diff_inverse replicate_add)
    then show ?thesis
      using less.prems off True less.IH [of "n - 4" "off + 4" "poke (unat off) (enc32 (memset_fill c)) w"]
        poke_append [of "unat off" "enc32 (memset_fill c)"]
      by (simp add: ihwio_memset.simps [of write8 write32 off] write32_ok poke_limit)
  next
    case False
    with less.prems show ?thesis
      by (simp add: ihwio_memset.simps [of write8 write32 off] memset_bytes_ok)
  qed
qed

text \<open>A destination that is too small, or a source that is too short, is left by the copying loops.\<close>

lemma read_bytes_overflow:
  "unat off + n \<le> limit w \<Longrightarrow> acap dst < i + n \<Longrightarrow>
   fst (ihwio_read_bytes read8 off dst i n w) = Inl (Undefined Out_of_bounds) \<or> n = 0"
proof (induction n arbitrary: off dst i)
  case (Suc n)
  have off: "unat (off + 1) = unat off + 1"
    using unat_add_1_4(1) [OF Suc.prems(1) limit_bound] by simp
  show ?case
  proof (cases "astore dst i [contents w (unat off)]")
    case (Inl e)
    with Suc.prems show ?thesis by (auto simp: read8_ok astore_def split: if_splits)
  next
    case (Inr dst')
    then have "acap dst' = acap dst" "i + 1 \<le> acap dst"
      by (auto simp: astore_def split: if_splits)
    with Inr Suc.prems off Suc.IH [of "off + 1" dst' "i + 1"] show ?thesis
      by (auto simp: read8_ok)
  qed
qed simp

lemma read_overflow:
  "unat off + n \<le> limit w \<Longrightarrow> acap dst < i + n \<Longrightarrow> 0 < n \<Longrightarrow>
   fst (ihwio_read read8 read32 off dst i n w) = Inl (Undefined Out_of_bounds)"
proof (induction n arbitrary: off dst i rule: less_induct)
  case (less n)
  show ?case
  proof (cases "4 \<le> n")
    case True
    let ?bs = "enc32 (dec32 (mem_range (contents w) (unat off) 4))"
    have off: "unat (off + 4) = unat off + 4"
      using unat_add_1_4(2) [OF less.prems(1) limit_bound True] .
    show ?thesis
    proof (cases "astore dst i ?bs")
      case (Inl e)
      with less.prems True show ?thesis
        by (auto simp: ihwio_read.simps [of read8 read32 off] read32_ok astore_def split: if_splits)
    next
      case (Inr dst')
      then have "acap dst' = acap dst" "i + 4 \<le> acap dst"
        by (auto simp: astore_def split: if_splits)
      with Inr less.prems off True less.IH [of "n - 4" "off + 4" dst' "i + 4"] show ?thesis
        by (auto simp: ihwio_read.simps [of read8 read32 off] read32_ok)
    qed
  next
    case False
    with less.prems read_bytes_overflow [of off n w dst i] show ?thesis
      by (auto simp: ihwio_read.simps [of read8 read32 off])
  qed
qed

lemma write_bytes_overrun:
  "unat off + n \<le> limit w \<Longrightarrow> acap src < i + n \<Longrightarrow>
   fst (ihwio_write_bytes write8 off src i n w) = Inl (Undefined Out_of_bounds) \<or> n = 0"
proof (induction n arbitrary: off i w)
  case (Suc n)
  have "unat (off + 1) = unat off + 1"
    using unat_add_1_4(1) [OF Suc.prems(1) limit_bound] by simp
  with Suc.prems Suc.IH [of "off + 1" "poke (unat off) [aget src i] w" "i + 1"] show ?case
    by (auto simp: write8_ok aload_def poke_limit)
qed simp

lemma write_overrun:
  "unat off + n \<le> limit w \<Longrightarrow> acap src < i + n \<Longrightarrow> 0 < n \<Longrightarrow>
   fst (ihwio_write write8 write32 off src i n w) = Inl (Undefined Out_of_bounds)"
proof (induction n arbitrary: off i w rule: less_induct)
  case (less n)
  show ?case
  proof (cases "4 \<le> n")
    case True
    have "unat (off + 4) = unat off + 4"
      using unat_add_1_4(2) [OF less.prems(1) limit_bound True] .
    moreover have "enc32 (dec32 (abytes src i 4)) = abytes src i 4"
      by (simp add: enc32_dec32)
    ultimately show ?thesis
      using less.prems True less.IH [of "n - 4" "off + 4" "poke (unat off) (abytes src i 4) w" "i + 4"]
      by (cases "i + 4 \<le> acap src")
        (auto simp: ihwio_write.simps [of write8 write32 off] write32_ok aload_ok aload_fault poke_limit)
  next
    case False
    with less.prems write_bytes_overrun [of off n w src i] show ?thesis
      by (auto simp: ihwio_write.simps [of write8 write32 off])
  qed
qed

end

text \<open>
  What the server relies on: the virtual \<open>read\<close> and \<open>write\<close> of a device copy byte ranges inside
  its window, and overrun the array they are given when it is too small.
\<close>

locale memory_device =
  fixes ops :: "('w, 'd) dev_ops"
    and contents :: "'d \<Rightarrow> 'w \<Rightarrow> nat \<Rightarrow> byte"
    and limit :: "'d \<Rightarrow> 'w \<Rightarrow> nat"
    and poke :: "'d \<Rightarrow> nat \<Rightarrow> byte list \<Rightarrow> 'w \<Rightarrow> 'w"
  assumes dev_read_ok: "unat off + n \<le> limit d w \<Longrightarrow> i + n \<le> acap dst \<Longrightarrow>
      dev_read ops d off dst i n w =
        (Inr (), dst\<lparr>aget := mem_store (aget dst) i (mem_range (contents d w) (unat off) n)\<rparr>, w)"
    and dev_read_overflow: "unat off + n \<le> limit d w \<Longrightarrow> acap dst < i + n \<Longrightarrow> 0 < n \<Longrightarrow>
      fst (dev_read ops d off dst i n w) = Inl (Undefined Out_of_bounds)"
    and dev_write_ok: "unat off + n \<le> limit d w \<Longrightarrow> i + n \<le> acap src \<Longrightarrow>
      dev_write ops d off src i n w = (Inr (), poke d (unat off) (abytes src i n) w)"
    and dev_write_overrun: "unat off + n \<le> limit d w \<Longrightarrow> acap src < i + n \<Longrightarrow> 0 < n \<Longrightarrow>
      fst (dev_write ops d off src i n w) = Inl (Undefined Out_of_bounds)"
    and limit_poke: "limit d' (poke d i bs w) = limit d' w"
    and contents_poke: "i + length bs \<le> limit d w \<Longrightarrow> contents d (poke d i bs w) = mem_store (contents d w) i bs"

end
