(* ===== verification/Hwio_Bus.thy ===== *)
theory Hwio_Bus
  imports Hwio_Device
begin

text \<open>
  Device lookup (\<open>src/src/bus/ihwio_bus.h\<close>, \<open>hwio_bus_primitive\<close>, \<open>hwio_bus_composite\<close>): the filter
  over a list of devices, the bus that holds such a list, and the bus that concatenates others.
  A bus is its \<open>find_devices\<close> method; since a remote bus talks to a server, the method may change
  the world and may throw.
\<close>

type_synonym ('w, 'd) bus = "hwio_comp_spec list \<Rightarrow> 'w \<Rightarrow> 'd list res \<times> 'w"

section \<open>The filter\<close>

text \<open>The three inner loops: each stops at its first hit.\<close>

fun name_match_loop :: "string \<Rightarrow> hwio_comp_spec list \<Rightarrow> bool" where
  "name_match_loop n [] = False"
| "name_match_loop n (s # spec) =
     (if spec_name s \<noteq> [] \<and> n = spec_name s then True else name_match_loop n spec)"

fun dev_specs_loop :: "hwio_comp_spec \<Rightarrow> hwio_comp_spec list \<Rightarrow> bool" where
  "dev_specs_loop s [] = False"
| "dev_specs_loop s (ds # dev_specs) =
     (if hwio_comp_spec_eq ds s then True else dev_specs_loop s dev_specs)"

fun spec_match_loop :: "hwio_comp_spec list \<Rightarrow> hwio_comp_spec list \<Rightarrow> bool" where
  "spec_match_loop dev_specs [] = False"
| "spec_match_loop dev_specs (s # spec) =
     (let matched = dev_specs_loop s dev_specs in if matched then True else spec_match_loop dev_specs spec)"

text \<open>The loop over the devices with its result vector.\<close>

fun filter_device_loop ::
  "('w, 'd) dev_ops \<Rightarrow> 'w \<Rightarrow> 'd list \<Rightarrow> hwio_comp_spec list \<Rightarrow> 'd list \<Rightarrow> 'd list" where
  "filter_device_loop ops w [] spec res = res"
| "filter_device_loop ops w (dev # devices) spec res =
     (let dev_specs = get_spec ops dev w;
          hit = (if dev_specs = [] then
                   (let n = dev_name ops dev w in if n \<noteq> [] then name_match_loop n spec else False)
                 else spec_match_loop dev_specs spec)
      in filter_device_loop ops w devices spec (if hit then res @ [dev] else res))"

definition filter_device_by_spec ::
  "('w, 'd) dev_ops \<Rightarrow> 'w \<Rightarrow> 'd list \<Rightarrow> hwio_comp_spec list \<Rightarrow> 'd list" where
  "filter_device_by_spec ops w devices spec = filter_device_loop ops w devices spec []"

section \<open>Buses\<close>

definition primitive_find_devices :: "('w, 'd) dev_ops \<Rightarrow> 'd list \<Rightarrow> ('w, 'd) bus" where
  "primitive_find_devices ops all_devices spec w = (Inr (filter_device_by_spec ops w all_devices spec), w)"

fun composite_loop :: "('w, 'd) bus list \<Rightarrow> hwio_comp_spec list \<Rightarrow> 'd list \<Rightarrow> 'w \<Rightarrow> 'd list res \<times> 'w" where
  "composite_loop [] spec res w = (Inr res, w)"
| "composite_loop (b # buses) spec res w =
     (case b spec w of
        (Inl e, w') \<Rightarrow> (Inl e, w')
      | (Inr ds, w') \<Rightarrow> composite_loop buses spec (res @ ds) w')"

definition composite_find_devices :: "('w, 'd) bus list \<Rightarrow> ('w, 'd) bus" where
  "composite_find_devices buses spec w = composite_loop buses spec [] w"

section \<open>What the filter selects\<close>

text \<open>
  A device with specifications is selected when one of them matches one of the query's; a device
  without any, when its name is the name in one of the query's.
\<close>

definition dev_selected :: "('w, 'd) dev_ops \<Rightarrow> 'w \<Rightarrow> hwio_comp_spec list \<Rightarrow> 'd \<Rightarrow> bool" where
  "dev_selected ops w spec dev \<longleftrightarrow>
     (if get_spec ops dev w = []
      then dev_name ops dev w \<noteq> [] \<and> (\<exists>s \<in> set spec. spec_name s = dev_name ops dev w)
      else \<exists>s \<in> set spec. \<exists>ds \<in> set (get_spec ops dev w). hwio_comp_spec_eq ds s)"

lemma name_match_loop_iff: "n \<noteq> [] \<Longrightarrow> name_match_loop n spec \<longleftrightarrow> (\<exists>s \<in> set spec. spec_name s = n)"
  by (induction spec) auto

lemma dev_specs_loop_iff: "dev_specs_loop s dev_specs \<longleftrightarrow> (\<exists>ds \<in> set dev_specs. hwio_comp_spec_eq ds s)"
  by (induction dev_specs) auto

lemma spec_match_loop_iff:
  "spec_match_loop dev_specs spec \<longleftrightarrow> (\<exists>s \<in> set spec. \<exists>ds \<in> set dev_specs. hwio_comp_spec_eq ds s)"
  by (induction spec) (auto simp: dev_specs_loop_iff Let_def)

lemma filter_device_loop_eq:
  "filter_device_loop ops w devices spec res = res @ filter (dev_selected ops w spec) devices"
proof (induction devices arbitrary: res)
  case (Cons dev devices)
  then show ?case
    by (auto simp: Let_def dev_selected_def name_match_loop_iff spec_match_loop_iff)
qed simp

text \<open>
  The nested loops with their early exits select each device at most once and in the order of the
  list: the result is the sublist of the devices that match the query.
\<close>

lemma filter_device_eq: "filter_device_by_spec ops w devices spec = filter (dev_selected ops w spec) devices"
  by (simp add: filter_device_by_spec_def filter_device_loop_eq)

lemma composite_loop_primitive:
  "composite_loop (map (primitive_find_devices ops) dss) spec res w =
     (Inr (res @ filter (dev_selected ops w spec) (concat dss)), w)"
  by (induction dss arbitrary: res) (simp_all add: primitive_find_devices_def filter_device_eq)

text \<open>
  A composite bus over primitive buses finds exactly what one primitive bus over all their
  devices finds, in the order of the buses.
\<close>

lemma composite_is_primitive:
  "composite_find_devices (map (primitive_find_devices ops) dss) spec w =
   primitive_find_devices ops (concat dss) spec w"
  by (simp add: composite_find_devices_def composite_loop_primitive primitive_find_devices_def filter_device_eq)

end
