(* ===== verification/Hwio_Server.thy ===== *)
theory Hwio_Server
  imports Hwio_Wire Hwio_Bus "HOL-Library.AList"
begin

text \<open>
  The message handlers of the server (\<open>src/src/server/\<close>). A handler gets the client object, the
  header of the message, whose body is at \<open>rx_pos\<close> in the client's receive buffer, and the server
  state. It writes its response into \<open>tx_buffer\<close> and returns how many bytes of it to send and
  whether to drop the client. Log output is not part of the state.

  \<open>rx_buffer\<close> of the source is a pointer into the receive buffer of the client being served; here it
  is the position \<open>rx_pos\<close>. A body shorter than what a handler reads is read on into whatever the
  buffer holds behind it, up to the end of the array.
\<close>

section \<open>State\<close>

definition RX_BUFFER_SIZE :: nat where [simp]: "RX_BUFFER_SIZE = 65536"

record RxBuffer =
  rx_array :: carray
  curr_ptr :: nat
  curr_len :: nat

record 'd ClientInfo =
  ci_id :: nat
  ci_fd :: int
  ci_rx :: RxBuffer
  ci_devices :: "'d option list"

record PProcRes =
  disconnect :: bool
  tx_size :: nat

text \<open>
  A plugin function gets the device, the arguments (array and position) and the place for the
  result (array and position). \<open>pl_what\<close> is the text of the exceptions it throws.
\<close>

record ('w, 'd) plugin_info =
  pl_fn :: "'d \<Rightarrow> carray \<Rightarrow> nat \<Rightarrow> carray \<Rightarrow> nat \<Rightarrow> 'w \<Rightarrow> unit res \<times> carray \<times> 'w"
  pl_what :: "exn \<Rightarrow> string"
  pl_args_size :: nat
  pl_ret_size :: nat

record ('w, 'd) HwioServer =
  tx_buffer :: carray
  rx_pos :: nat
  buses :: "('w, 'd) bus list"
  plugins :: "(string \<times> ('w, 'd) plugin_info) list"
  plugins_fast :: "('w, 'd) plugin_info list"
  plugins_fast_names :: "string list"
  world :: 'w

type_synonym ('w, 'd) handler =
  "'d ClientInfo \<Rightarrow> Hwio_packet_header \<Rightarrow> ('w, 'd) HwioServer \<Rightarrow>
   PProcRes res \<times> 'd ClientInfo \<times> ('w, 'd) HwioServer"

abbreviation rx_mem :: "'d ClientInfo \<Rightarrow> carray" where
  "rx_mem c \<equiv> rx_array (ci_rx c)"

section \<open>Errors and device ids (hwio_server_utils.cpp)\<close>

definition send_err_tx :: "HWIO_SERVER_ERROR \<Rightarrow> string \<Rightarrow> carray \<Rightarrow> carray res" where
  "send_err_tx ec msg tx =
     bind_res (astore tx (3 + 4) (strncpy_bytes MAX_ERR_MSG_LEN msg)) (\<lambda>t1.
     bind_res (astore t1 3 (enc32 (err_code ec))) (\<lambda>t2.
     bind_res (cstr_at t2 (3 + 4)) (\<lambda>m.
       astore t2 0 (enc_header \<lparr>command = HWIO_CMD_MSG, body_len = word_of_nat (4 + length m)\<rparr>))))"

definition send_err ::
  "HWIO_SERVER_ERROR \<Rightarrow> string \<Rightarrow> 'd ClientInfo \<Rightarrow> ('w, 'd) HwioServer \<Rightarrow>
   PProcRes res \<times> 'd ClientInfo \<times> ('w, 'd) HwioServer" where
  "send_err ec msg client s =
     (case send_err_tx ec msg (tx_buffer s) of
        Inl e \<Rightarrow> (Inl e, client, s)
      | Inr t \<Rightarrow> (Inr \<lparr>disconnect = True, tx_size = sizeof_ErrMsg\<rparr>, client, s\<lparr>tx_buffer := t\<rparr>))"

definition client_get_dev :: "'d ClientInfo \<Rightarrow> u16 \<Rightarrow> 'd option" where
  "client_get_dev client devId =
     (if unat devId < length (ci_devices client) then ci_devices client ! unat devId else None)"

section \<open>Read and write (hwio_server_rw.cpp)\<close>

definition handle_read :: "('w, 'd) dev_ops \<Rightarrow> ('w, 'd) handler" where
  "handle_read ops client header s =
     (if unat (body_len header) \<noteq> sizeof_RdReq
      then send_err MALFORMED_PACKET ''READ: size too small'' client s
      else case aload (rx_mem client) (rx_pos s) sizeof_RdReq of
        Inl e \<Rightarrow> (Inl e, client, s)
      | Inr bs \<Rightarrow>
          (let rdReq = dec_RdReq bs
           in case client_get_dev client (rd_devId rdReq) of
                None \<Rightarrow> send_err ACCESS_DENIED ''READ: device is not allocated'' client s
              | Some dev \<Rightarrow>
                  (case astore (tx_buffer s) 0
                          (enc_header \<lparr>command = HWIO_CMD_READ_RESP, body_len = rd_size rdReq\<rparr>) of
                     Inl e \<Rightarrow> (Inl e, client, s)
                   | Inr t \<Rightarrow>
                       (case dev_read ops dev (rd_addr rdReq) t sizeof_header (unat (rd_size rdReq)) (world s) of
                          (Inr _, t', w') \<Rightarrow>
                            (Inr \<lparr>disconnect = False, tx_size = sizeof_header + unat (rd_size rdReq)\<rparr>,
                             client, s\<lparr>tx_buffer := t', world := w'\<rparr>)
                        | (Inl e, t', w') \<Rightarrow>
                            (let s' = s\<lparr>tx_buffer := t', world := w'\<rparr>
                             in case e of
                                  Throw x \<Rightarrow>
                                    if is_runtime_error x
                                    then send_err IO_ERROR ''Can not read from device'' client s'
                                    else (Inl e, client, s')
                                | _ \<Rightarrow> (Inl e, client, s'))))))"

definition handle_write :: "('w, 'd) dev_ops \<Rightarrow> ('w, 'd) handler" where
  "handle_write ops client header s =
     (if unat (body_len header) < sizeof_RdReq
      then send_err MALFORMED_PACKET ''WRITE: size too small'' client s
      else case aload (rx_mem client) (rx_pos s) sizeof_RdReq of
        Inl e \<Rightarrow> (Inl e, client, s)
      | Inr bs \<Rightarrow>
          (let wrReq = dec_RdReq bs
           in if MAX_DEVICES \<le> unat (rd_devId wrReq)
              then send_err MALFORMED_PACKET ''WRITE: wrong device id'' client s
              else case client_get_dev client (rd_devId wrReq) of
                None \<Rightarrow> send_err ACCESS_DENIED ''WRITE: device is not allocated'' client s
              | Some dev \<Rightarrow>
                  (case dev_write ops dev (rd_addr wrReq) (rx_mem client) (rx_pos s + sizeof_RdReq)
                          (unat (rd_size wrReq)) (world s) of
                     (Inl e, w') \<Rightarrow> (Inl e, client, s\<lparr>world := w'\<rparr>)
                   | (Inr _, w') \<Rightarrow>
                       (Inr \<lparr>disconnect = False, tx_size = 0\<rparr>, client, s\<lparr>world := w'\<rparr>))))"

section \<open>Remote calls (hwio_server_remote_call.cpp)\<close>

text \<open>The common tail of both handlers: the response header, the call, and the result.\<close>

definition call_plugin ::
  "('w, 'd) plugin_info \<Rightarrow> 'd \<Rightarrow> nat \<Rightarrow> 'd ClientInfo \<Rightarrow> ('w, 'd) HwioServer \<Rightarrow>
   PProcRes res \<times> 'd ClientInfo \<times> ('w, 'd) HwioServer" where
  "call_plugin plugin dev args_pos client s =
     (case astore (tx_buffer s) 0
             (enc_header \<lparr>command = HWIO_CMD_REMOTE_CALL_RET, body_len = word_of_nat (pl_ret_size plugin)\<rparr>) of
        Inl e \<Rightarrow> (Inl e, client, s)
      | Inr t \<Rightarrow>
          (case pl_fn plugin dev (rx_mem client) args_pos t sizeof_header (world s) of
             (Inr _, t', w') \<Rightarrow>
               (Inr \<lparr>disconnect = False,
                     tx_size = (if pl_ret_size plugin \<noteq> 0 then sizeof_header + pl_ret_size plugin else 0)\<rparr>,
                client, s\<lparr>tx_buffer := t', world := w'\<rparr>)
           | (Inl e, t', w') \<Rightarrow>
               (let s' = s\<lparr>tx_buffer := t', world := w'\<rparr>
                in case e of
                     Throw x \<Rightarrow>
                       if is_runtime_error x
                       then send_err IO_ERROR
                              (''Call of plugin function raised and exception '' @ pl_what plugin x) client s'
                       else (Inl e, client, s')
                   | _ \<Rightarrow> (Inl e, client, s'))))"

definition handle_remote_call :: "('w, 'd) handler" where
  "handle_remote_call client header s =
     (if unat (body_len header) < sizeof_RemoteCall - 1
      then send_err MALFORMED_PACKET ''REMOTE CALL: size too small'' client s
      else case aload (rx_mem client) (rx_pos s) 2 of
        Inl e \<Rightarrow> (Inl e, client, s)
      | Inr bs \<Rightarrow>
          (case client_get_dev client (dec16 bs) of
             None \<Rightarrow> send_err ACCESS_DENIED ''REMOTE CALL: device is not allocated'' client s
           | Some dev \<Rightarrow>
               (case cstr_at (rx_mem client) (rx_pos s + 2) of
                  Inl e \<Rightarrow> (Inl e, client, s)
                | Inr fn_name \<Rightarrow>
                    (case map_of (plugins s) fn_name of
                       None \<Rightarrow> send_err MALFORMED_PACKET
                                 (''REMOTE CALL: RPC function '' @ fn_name @ '' not registered on server'') client s
                     | Some plugin \<Rightarrow>
                         call_plugin plugin dev (rx_pos s + sizeof_RemoteCall) client s))))"

definition handle_fast_remote_call :: "('w, 'd) handler" where
  "handle_fast_remote_call client header s =
     (if unat (body_len header) < sizeof_RemoteCallFast - 1
      then send_err MALFORMED_PACKET ''REMOTE CALL: size too small'' client s
      else case aload (rx_mem client) (rx_pos s) 2 of
        Inl e \<Rightarrow> (Inl e, client, s)
      | Inr bs \<Rightarrow>
          (case client_get_dev client (dec16 bs) of
             None \<Rightarrow> send_err ACCESS_DENIED ''REMOTE CALL: device is not allocated'' client s
           | Some dev \<Rightarrow>
               (case aload (rx_mem client) (rx_pos s + 2) 4 of
                  Inl e \<Rightarrow> (Inl e, client, s)
                | Inr ib \<Rightarrow>
                    (let fn_id = unat (dec32 ib)
                     in if length (plugins_fast s) \<le> fn_id
                        then send_err MALFORMED_PACKET
                               (''REMOTE CALL: RPC function with id '' @ show_nat fn_id @
                                '' is not registered on server'') client s
                        else call_plugin (plugins_fast s ! fn_id) dev
                               (rx_pos s + sizeof_RemoteCallFast) client s))))"

text \<open>The search for a function name: the first position, as a \<open>uint32_t\<close>.\<close>

fun find_fn :: "string \<Rightarrow> string list \<Rightarrow> u32 \<Rightarrow> u32 option" where
  "find_fn fn_name [] i = None"
| "find_fn fn_name (n # names) i = (if fn_name = n then Some i else find_fn fn_name names (i + 1))"

definition handle_get_rpc_fn_id :: "('w, 'd) handler" where
  "handle_get_rpc_fn_id client header s =
     (if unat (body_len header) < sizeof_RemoteCall
      then send_err MALFORMED_PACKET ''GET REMOTE CALL ID: size too small'' client s
      else case astore (tx_buffer s) 0
                  (enc_header \<lparr>command = HWIO_CMD_GET_REMOTE_CALL_ID_RESP, body_len = 5\<rparr> @
                   enc_GetRemoteCallIdResp False (- 1)) of
        Inl e \<Rightarrow> (Inl e, client, s)
      | Inr t \<Rightarrow>
          (let s' = s\<lparr>tx_buffer := t\<rparr>
           in case aload (rx_mem client) (rx_pos s) 2 of
                Inl e \<Rightarrow> (Inl e, client, s')
              | Inr bs \<Rightarrow>
                  (case client_get_dev client (dec16 bs) of
                     None \<Rightarrow> send_err ACCESS_DENIED ''GET REMOTE CALL ID: device is not allocated'' client s'
                   | Some dev \<Rightarrow>
                       (case cstr_at (rx_mem client) (rx_pos s + 2) of
                          Inl e \<Rightarrow> (Inl e, client, s')
                        | Inr fn_name \<Rightarrow>
                            (case find_fn fn_name (plugins_fast_names s) 0 of
                               None \<Rightarrow> (Inr \<lparr>disconnect = False, tx_size = sizeof_header + 5\<rparr>, client, s')
                             | Some i \<Rightarrow>
                                 (case astore t 3 (enc_GetRemoteCallIdResp True i) of
                                    Inl e \<Rightarrow> (Inl e, client, s')
                                  | Inr t' \<Rightarrow> (Inr \<lparr>disconnect = False, tx_size = sizeof_header + 5\<rparr>,
                                               client, s'\<lparr>tx_buffer := t'\<rparr>)))))))"

text \<open>\<open>install_plugin_fn\<close>: a later function of the same name replaces the entry of the map only.\<close>

definition install_plugin_fn ::
  "string \<Rightarrow> ('w, 'd) plugin_info \<Rightarrow> ('w, 'd) HwioServer \<Rightarrow> ('w, 'd) HwioServer" where
  "install_plugin_fn fn_name p s =
     s\<lparr>plugins := AList.update fn_name p (plugins s), plugins_fast := plugins_fast s @ [p],
       plugins_fast_names := plugins_fast_names s @ [fn_name]\<rparr>"

section \<open>Device queries (hwio_server_query.cpp)\<close>

definition extract_item :: "carray \<Rightarrow> nat \<Rightarrow> hwio_comp_spec res" where
  "extract_item rx p =
     bind_res (cstr_at rx (p + MAX_NAME_LEN)) (\<lambda>vendor.
     bind_res (cstr_at rx (p + 2 * MAX_NAME_LEN)) (\<lambda>ty.
     bind_res (aload rx (p + 3 * MAX_NAME_LEN) 12) (\<lambda>vb.
     bind_res (cstr_at rx p) (\<lambda>nm.
       Inr (name_set nm (hwio_comp_spec_ctor vendor ty (dec_version vb)))))))"

fun extractSpecFromClientQuery :: "carray \<Rightarrow> nat \<Rightarrow> nat \<Rightarrow> hwio_comp_spec list res" where
  "extractSpecFromClientQuery rx p 0 = Inr []"
| "extractSpecFromClientQuery rx p (Suc cnt) =
     bind_res (extract_item rx p) (\<lambda>spec.
     bind_res (extractSpecFromClientQuery rx (p + sizeof_Dev_query_item) cnt) (\<lambda>specs. Inr (spec # specs)))"

text \<open>
  The search of a device in the table of the client: whether it is there, at which id the search
  stopped, and the first empty slot seen on the way. The id is a 16-bit counter.
\<close>

fun find_dev :: "'d \<Rightarrow> 'd option list \<Rightarrow> u16 \<Rightarrow> u16 option \<Rightarrow> bool \<times> u16 \<times> u16 option" where
  "find_dev dev [] dev_id first_empty = (False, dev_id, first_empty)"
| "find_dev dev (cdev # devices) dev_id first_empty =
     (if cdev = Some dev then (True, dev_id, first_empty)
      else find_dev dev devices (dev_id + 1)
             (if cdev = None \<and> first_empty = None then Some dev_id else first_empty))"

text \<open>Registering one device for a client: the id, the new table, and the attached device.\<close>

definition register_dev ::
  "('w, 'd) dev_ops \<Rightarrow> 'd \<Rightarrow> 'd option list \<Rightarrow> 'w \<Rightarrow> u16 res \<times> 'd option list \<times> 'w" where
  "register_dev ops dev devices w =
     (case find_dev dev devices 0 None of
        (True, dev_id, _) \<Rightarrow> (Inr dev_id, devices, w)
      | (False, dev_id, None) \<Rightarrow>
          if length devices = unat dev_id then
            (case attach ops dev w of
               (Inl e, w') \<Rightarrow> (Inl e, devices @ [Some dev], w')
             | (Inr _, w') \<Rightarrow> (Inr dev_id, devices @ [Some dev], w'))
          else (Inl Assert_failed, devices, w)
      | (False, dev_id, Some e) \<Rightarrow>
          (case attach ops dev w of
             (Inl x, w') \<Rightarrow> (Inl x, devices[unat e := Some dev], w')
           | (Inr _, w') \<Rightarrow> (Inr e, devices[unat e := Some dev], w')))"

text \<open>The loop over the result: \<open>i\<close> is the position in \<open>ids\<close>, \<open>len\<close> the value of \<open>body_len\<close>.\<close>

fun lookup_loop ::
  "('w, 'd) dev_ops \<Rightarrow> 'd list \<Rightarrow> nat \<Rightarrow> u16 \<Rightarrow> 'd option list \<Rightarrow> carray \<Rightarrow> 'w \<Rightarrow>
   u16 res \<times> 'd option list \<times> carray \<times> 'w" where
  "lookup_loop ops [] i len devices tx w = (Inr len, devices, tx, w)"
| "lookup_loop ops (dev # result) i len devices tx w =
     (case register_dev ops dev devices w of
        (Inl e, devices', w') \<Rightarrow> (Inl e, devices', tx, w')
      | (Inr dev_id, devices', w') \<Rightarrow>
          (case bind_res (astore tx 1 (enc16 (len + 2))) (\<lambda>t. astore t (3 + 2 * i) (enc16 dev_id)) of
             Inl e \<Rightarrow> (Inl e, devices', tx, w')
           | Inr t \<Rightarrow> lookup_loop ops result (i + 1) (len + 2) devices' t w'))"

definition device_lookup_resp ::
  "('w, 'd) dev_ops \<Rightarrow> nat \<Rightarrow> 'd ClientInfo \<Rightarrow> ('w, 'd) HwioServer \<Rightarrow>
   PProcRes res \<times> 'd ClientInfo \<times> ('w, 'd) HwioServer" where
  "device_lookup_resp ops cnt client s =
     (case extractSpecFromClientQuery (rx_mem client) (rx_pos s) cnt of
        Inl e \<Rightarrow> (Inl e, client, s)
      | Inr spec \<Rightarrow>
          (case astore (tx_buffer s) 0 [HWIO_CMD_QUERY_RESP] of
             Inl e \<Rightarrow> (Inl e, client, s)
           | Inr t0 \<Rightarrow>
               (case composite_find_devices (buses s) spec (world s) of
                  (Inl e, w') \<Rightarrow> (Inl e, client, s\<lparr>tx_buffer := t0, world := w'\<rparr>)
                | (Inr result, w') \<Rightarrow>
                    (case astore t0 1 (enc16 0) of
                       Inl e \<Rightarrow> (Inl e, client, s\<lparr>tx_buffer := t0, world := w'\<rparr>)
                     | Inr t \<Rightarrow>
                         (case lookup_loop ops result 0 0 (ci_devices client) t w' of
                            (Inl e, devices, t', w'') \<Rightarrow>
                              (Inl e, client\<lparr>ci_devices := devices\<rparr>, s\<lparr>tx_buffer := t', world := w''\<rparr>)
                          | (Inr len, devices, t', w'') \<Rightarrow>
                              (Inr \<lparr>disconnect = False, tx_size = sizeof_header + unat len\<rparr>,
                               client\<lparr>ci_devices := devices\<rparr>, s\<lparr>tx_buffer := t', world := w''\<rparr>))))))"

section \<open>Dispatch (handle_msg in hwio_server.cpp)\<close>

definition handle_ping :: "('w, 'd) handler" where
  "handle_ping client header s =
     (if body_len header \<noteq> 0
      then send_err MALFORMED_PACKET ''ECHO_REQUEST: size has to be 0'' client s
      else case astore (tx_buffer s) 0 (enc_header \<lparr>command = HWIO_CMD_PING_REPLY, body_len = 0\<rparr>) of
        Inl e \<Rightarrow> (Inl e, client, s)
      | Inr t \<Rightarrow> (Inr \<lparr>disconnect = False, tx_size = sizeof_header\<rparr>, client, s\<lparr>tx_buffer := t\<rparr>))"

definition handle_query :: "('w, 'd) dev_ops \<Rightarrow> ('w, 'd) handler" where
  "handle_query ops client header s =
     (let cnt = unat (body_len header) div sizeof_Dev_query_item
      in if unat (body_len header) \<noteq> cnt * sizeof_Dev_query_item then
           send_err MALFORMED_PACKET
             (''QUERY: wrong size of packet '' @ show_nat (unat (body_len header)) @
              ''(not divisible by '' @ show_nat sizeof_Dev_query_item @ '')'') client s
         else if cnt = 0 \<or> MAX_ITEMS_PER_QUERY < cnt then
           send_err UNKNOWN_COMMAND (''Unsupported number of queries ('' @ show_nat cnt @ '')'' @ [CHR 0x0A]) client s
         else device_lookup_resp ops cnt client s)"

text \<open>A message of the client: the code stores a NUL 127 bytes into its text before logging it.\<close>

definition handle_client_msg :: "('w, 'd) handler" where
  "handle_client_msg client header s =
     (case astore (rx_mem client) (rx_pos s + 4 + (MAX_NAME_LEN - 1)) [0] of
        Inl e \<Rightarrow> (Inl e, client, s)
      | Inr a \<Rightarrow> (Inr \<lparr>disconnect = False, tx_size = 0\<rparr>,
                  client\<lparr>ci_rx := (ci_rx client)\<lparr>rx_array := a\<rparr>\<rparr>, s))"

definition handle_msg :: "('w, 'd) dev_ops \<Rightarrow> ('w, 'd) handler" where
  "handle_msg ops client header s =
     (let cmd = command header
      in if cmd = HWIO_CMD_REMOTE_CALL_FAST then handle_fast_remote_call client header s
         else if cmd = HWIO_CMD_READ then handle_read ops client header s
         else if cmd = HWIO_CMD_WRITE then handle_write ops client header s
         else if cmd = HWIO_CMD_REMOTE_CALL then handle_remote_call client header s
         else if cmd = HWIO_CMD_PING_REQUEST then handle_ping client header s
         else if cmd = HWIO_CMD_QUERY then handle_query ops client header s
         else if cmd = HWIO_CMD_GET_REMOTE_CALL_ID then handle_get_rpc_fn_id client header s
         else if cmd = HWIO_CMD_BYE then (Inr \<lparr>disconnect = True, tx_size = 0\<rparr>, client, s)
         else if cmd = HWIO_CMD_MSG then handle_client_msg client header s
         else send_err UNKNOWN_COMMAND [] client s)"

end
