(* ===== verification/Hwio_Device_Mmap.thy ===== *)
theory Hwio_Device_Mmap
  imports Hwio_Device
begin

unbundle bit_operations_syntax

text \<open>
  Devices mapped from a memory file (\<open>src/src/device/hwio_device_mmap.h\<close>,
  \<open>src/src/device/hwio_device_mmap.cpp\<close>). The world holds the device objects by their address, the
  contents of the memory files, and the answers of \<open>open\<close> and \<open>mmap\<close>. A mapping is shared, so
  an access through \<open>dev_mem\<close> is an access to the file at \<open>page_addr\<close> plus the distance from
  \<open>dev_mem\<close>; outside the mapped length it is undefined.
\<close>

record hwio_device_mmap =
  M_name :: string
  mem_file_name :: string
  mm_spec :: "hwio_comp_spec list"
  mm_fd :: int
  page_addr :: u32
  page_offset :: u32
  addr_space_size :: nat
  dev_mem_mapped :: bool \<comment> \<open>\<open>dev_mem != MAP_FAILED\<close>\<close>
  on_bus_base_addr :: u32
  on_bus_size :: u32

record mmap_world =
  dev_heap :: "nat \<Rightarrow> hwio_device_mmap option"
  mem_files :: "string \<Rightarrow> nat \<Rightarrow> byte"
  os_open :: "string \<Rightarrow> int"
  os_mmap :: "string \<Rightarrow> nat \<Rightarrow> nat \<Rightarrow> bool"

definition DEFAULT_MEM_PATH :: string where
  "DEFAULT_MEM_PATH = ''/dev/mem''"

text \<open>The constructor; \<open>page_size\<close> is the answer of \<open>sysconf(_SC_PAGESIZE)\<close>.\<close>

definition mmap_size :: "u32 \<Rightarrow> u32 \<Rightarrow> nat" where
  "mmap_size page_size sz =
     (let s0 = unat sz;
          s1 = (if s0 < unat page_size then unat page_size else s0)
      in if s1 div unat page_size < s1 then s1 + unat page_size else s1)"

definition hwio_device_mmap_ctor ::
  "u32 \<Rightarrow> hwio_comp_spec list \<Rightarrow> u32 \<Rightarrow> u32 \<Rightarrow> string \<Rightarrow> hwio_device_mmap" where
  "hwio_device_mmap_ctor page_size specs base_addr sz mem_path =
     (let pa = base_addr AND NOT (page_size - 1)
      in \<lparr>M_name = [], mem_file_name = mem_path, mm_spec = specs, mm_fd = - 1,
          page_addr = pa, page_offset = base_addr - pa, addr_space_size = mmap_size page_size sz,
          dev_mem_mapped = False, on_bus_base_addr = base_addr, on_bus_size = sz\<rparr>)"

text \<open>The constructor from one specification delegates without its last argument.\<close>

definition hwio_device_mmap_ctor1 ::
  "u32 \<Rightarrow> hwio_comp_spec \<Rightarrow> u32 \<Rightarrow> u32 \<Rightarrow> string \<Rightarrow> hwio_device_mmap" where
  "hwio_device_mmap_ctor1 page_size spec base_addr sz mem_path =
     hwio_device_mmap_ctor page_size [spec] base_addr sz DEFAULT_MEM_PATH"

definition mmap_name_set :: "string \<Rightarrow> hwio_device_mmap \<Rightarrow> hwio_device_mmap" where
  "mmap_name_set n d = d\<lparr>M_name := n, mm_spec := map (name_set n) (mm_spec d)\<rparr>"

definition mmap_get_spec :: "nat \<Rightarrow> mmap_world \<Rightarrow> hwio_comp_spec list" where
  "mmap_get_spec d w = (case dev_heap w d of None \<Rightarrow> [] | Some dv \<Rightarrow> mm_spec dv)"

definition mmap_name :: "nat \<Rightarrow> mmap_world \<Rightarrow> string" where
  "mmap_name d w = (case dev_heap w d of None \<Rightarrow> [] | Some dv \<Rightarrow> M_name dv)"

definition put_dev :: "nat \<Rightarrow> hwio_device_mmap \<Rightarrow> mmap_world \<Rightarrow> mmap_world" where
  "put_dev d dv w = w\<lparr>dev_heap := (dev_heap w)(d \<mapsto> dv)\<rparr>"

definition mmap_attach :: "nat \<Rightarrow> mmap_world \<Rightarrow> unit res \<times> mmap_world" where
  "mmap_attach d w =
     (case dev_heap w d of
        None \<Rightarrow> (Inl (Undefined Use_after_free), w)
      | Some dv \<Rightarrow>
          if mm_fd dv < 0 then
            let dv1 = dv\<lparr>mm_fd := os_open w (mem_file_name dv)\<rparr>
            in if mm_fd dv1 \<le> 0 then (Inl (Throw Dev_init_fail), put_dev d dv1 w)
               else let dv2 = dv1\<lparr>dev_mem_mapped :=
                          os_mmap w (mem_file_name dv) (addr_space_size dv) (unat (page_addr dv))\<rparr>
                    in if \<not> dev_mem_mapped dv2 then (Inl (Throw Dev_init_fail), put_dev d dv2 w)
                       else (Inr (), put_dev d dv2 w)
          else (Inr (), w))"

section \<open>Accesses\<close>

text \<open>\<open>*(T *) ((char *) dev_mem + page_offset + offset + k)\<close>, read and written as bytes.\<close>

definition mmap_pos :: "hwio_device_mmap \<Rightarrow> nat" where
  "mmap_pos dv = unat (page_addr dv) + unat (page_offset dv)"

definition mmap_load :: "nat \<Rightarrow> nat \<Rightarrow> nat \<Rightarrow> mmap_world \<Rightarrow> byte list res" where
  "mmap_load d off n w =
     (case dev_heap w d of
        None \<Rightarrow> Inl (Undefined Use_after_free)
      | Some dv \<Rightarrow>
          if dev_mem_mapped dv \<and> unat (page_offset dv) + off + n \<le> addr_space_size dv
          then Inr (mem_range (mem_files w (mem_file_name dv)) (mmap_pos dv + off) n)
          else Inl (Undefined Out_of_bounds))"

definition mmap_poke :: "nat \<Rightarrow> nat \<Rightarrow> byte list \<Rightarrow> mmap_world \<Rightarrow> mmap_world" where
  "mmap_poke d off bs w =
     (case dev_heap w d of
        None \<Rightarrow> w
      | Some dv \<Rightarrow>
          w\<lparr>mem_files := (mem_files w)(mem_file_name dv :=
              mem_store (mem_files w (mem_file_name dv)) (mmap_pos dv + off) bs)\<rparr>)"

definition mmap_store :: "nat \<Rightarrow> nat \<Rightarrow> byte list \<Rightarrow> mmap_world \<Rightarrow> unit res \<times> mmap_world" where
  "mmap_store d off bs w =
     (case dev_heap w d of
        None \<Rightarrow> (Inl (Undefined Use_after_free), w)
      | Some dv \<Rightarrow>
          if dev_mem_mapped dv \<and> unat (page_offset dv) + off + length bs \<le> addr_space_size dv
          then (Inr (), mmap_poke d off bs w)
          else (Inl (Undefined Out_of_bounds), w))"

definition mmap_read8 :: "nat \<Rightarrow> u32 \<Rightarrow> mmap_world \<Rightarrow> byte res \<times> mmap_world" where
  "mmap_read8 d offset w = (bind_res (mmap_load d (unat offset) 1 w) (\<lambda>bs. Inr (hd bs)), w)"

definition mmap_read32 :: "nat \<Rightarrow> u32 \<Rightarrow> mmap_world \<Rightarrow> u32 res \<times> mmap_world" where
  "mmap_read32 d offset w = (bind_res (mmap_load d (unat offset) 4 w) (\<lambda>bs. Inr (dec32 bs)), w)"

definition mmap_read64 :: "nat \<Rightarrow> u32 \<Rightarrow> mmap_world \<Rightarrow> u64 res \<times> mmap_world" where
  "mmap_read64 d offset w =
     (bind_res (mmap_load d (unat offset) 4 w) (\<lambda>lo.
      bind_res (mmap_load d (unat offset + 4) 4 w) (\<lambda>hi.
        Inr (ucast (dec32 lo) OR push_bit (4 * 8) (ucast (dec32 hi))))), w)"

definition mmap_write8 :: "nat \<Rightarrow> u32 \<Rightarrow> byte \<Rightarrow> mmap_world \<Rightarrow> unit res \<times> mmap_world" where
  "mmap_write8 d offset v w = mmap_store d (unat offset) [v] w"

definition mmap_write32 :: "nat \<Rightarrow> u32 \<Rightarrow> u32 \<Rightarrow> mmap_world \<Rightarrow> unit res \<times> mmap_world" where
  "mmap_write32 d offset v w = mmap_store d (unat offset) (enc32 v) w"

definition mmap_write64 :: "nat \<Rightarrow> u32 \<Rightarrow> u64 \<Rightarrow> mmap_world \<Rightarrow> unit res \<times> mmap_world" where
  "mmap_write64 d offset v w =
     (case mmap_store d (unat offset) (enc32 (ucast v)) w of
        (Inl e, w') \<Rightarrow> (Inl e, w')
      | (Inr _, w') \<Rightarrow> mmap_store d (unat offset + 4) (enc32 (ucast (drop_bit (4 * 8) v))) w')"

text \<open>The table of virtual methods: \<open>read\<close> and \<open>write\<close> are inherited.\<close>

definition mmap_ops :: "(mmap_world, nat) dev_ops" where
  "mmap_ops =
     \<lparr>get_spec = mmap_get_spec, dev_name = mmap_name, attach = mmap_attach,
      dev_read = (\<lambda>d. ihwio_read (mmap_read8 d) (mmap_read32 d)),
      dev_write = (\<lambda>d. ihwio_write (mmap_write8 d) (mmap_write32 d))\<rparr>"

text \<open>Printing, and destruction.\<close>

fun show_hex :: "nat \<Rightarrow> string" where
  "show_hex n =
     (if n < 16 then [if n < 10 then digit_char n else char_of (87 + n)]
      else show_hex (n div 16) @ [if n mod 16 < 10 then digit_char (n mod 16) else char_of (87 + n mod 16)])"

declare show_hex.simps [simp del]

definition mmap_to_str :: "hwio_device_mmap \<Rightarrow> string" where
  "mmap_to_str d =
     ''hwio_device_mmap: (base: 0x'' @ show_hex (unat (on_bus_base_addr d)) @
     '', size:0x'' @ show_hex (unat (on_bus_size d)) @
     '', attached:'' @ (if 0 < mm_fd d then ''yes'' else ''no'') @
     '', page:0x'' @ show_hex (unat (page_addr d)) @
     '', page_offset:0x'' @ show_hex (unat (page_offset d)) @ '')'' @ [CHR 0x0A] @
     ''    spec:'' @ [CHR 0x0A] @
     concat (map (\<lambda>s. ''        '' @ hwio_comp_spec_to_str s @ [CHR 0x0A]) (mm_spec d))"

definition mmap_delete :: "nat \<Rightarrow> mmap_world \<Rightarrow> mmap_world" where
  "mmap_delete d w = w\<lparr>dev_heap := (dev_heap w)(d := None)\<rparr>"

section \<open>Making devices\<close>

text \<open>\<open>new hwio_device_mmap\<close> at increasing addresses, each pushed to a vector of devices.\<close>

text \<open>The devices made so far: their addresses, the world, the next address.\<close>

type_synonym made = "nat list \<times> mmap_world \<times> nat"

fun make_all :: "hwio_device_mmap list \<Rightarrow> made \<Rightarrow> made" where
  "make_all [] m = m"
| "make_all (dv # dvs) (acc, w, nx) = make_all dvs (acc @ [nx], put_dev nx dv w, nx + 1)"

lemma make_all_append: "make_all (as @ bs) m = make_all bs (make_all as m)"
  by (induction as m rule: make_all.induct) simp_all

text \<open>Only the heap of devices of the world changes.\<close>

definition same_memory :: "mmap_world \<Rightarrow> mmap_world \<Rightarrow> bool" where
  "same_memory w w' \<longleftrightarrow> mem_files w' = mem_files w \<and> os_open w' = os_open w \<and> os_mmap w' = os_mmap w"

lemma make_all_result:
  "make_all dvs (acc, w, nx) = (acc', w', nx') \<Longrightarrow>
   acc' = acc @ [nx..<nx + length dvs] \<and> nx' = nx + length dvs \<and> same_memory w w' \<and>
   (\<forall>d. dev_heap w' d = (if nx \<le> d \<and> d < nx + length dvs then Some (dvs ! (d - nx)) else dev_heap w d))"
proof (induction dvs arbitrary: acc w nx)
  case (Cons dv dvs)
  have upt: "nx # [Suc nx..<Suc (nx + length dvs)] = [nx..<Suc (nx + length dvs)]"
    by (subst (2) upt_rec) simp
  have "d = nx \<or> (Suc nx \<le> d \<and> d - nx = Suc (d - Suc nx)) \<or> \<not> nx \<le> d" for d :: nat by arith
  then show ?case
    using Cons.IH [of "acc @ [nx]" "put_dev nx dv w" "nx + 1"] Cons.prems upt
    by (auto simp: put_dev_def same_memory_def)
qed (auto simp: same_memory_def)

section \<open>A mapped device is a byte memory\<close>

definition mmap_contents :: "nat \<Rightarrow> mmap_world \<Rightarrow> nat \<Rightarrow> byte" where
  "mmap_contents d w i =
     (case dev_heap w d of None \<Rightarrow> 0 | Some dv \<Rightarrow> mem_files w (mem_file_name dv) (mmap_pos dv + i))"

definition mmap_limit :: "nat \<Rightarrow> mmap_world \<Rightarrow> nat" where
  "mmap_limit d w =
     (case dev_heap w d of
        None \<Rightarrow> 0
      | Some dv \<Rightarrow> if dev_mem_mapped dv then min (addr_space_size dv - unat (page_offset dv)) (2 ^ 32 - 1) else 0)"

lemma mem_range_shift: "mem_range (\<lambda>i. m (k + i)) off n = mem_range m (k + off) n"
  by (auto simp: mem_range_def ac_simps intro!: nth_equalityI)

lemma mmap_load_ok:
  assumes "off + n \<le> mmap_limit d w" "0 < n"
  shows "mmap_load d off n w = Inr (mem_range (mmap_contents d w) off n)"
proof (cases "dev_heap w d")
  case (Some dv)
  then have "mmap_contents d w = (\<lambda>i. mem_files w (mem_file_name dv) (mmap_pos dv + i))"
    by (simp add: fun_eq_iff mmap_contents_def)
  with Some assms show ?thesis
    by (auto simp: mmap_limit_def mmap_load_def mem_range_shift split: if_splits)
qed (use assms in \<open>simp add: mmap_limit_def\<close>)

lemma mmap_store_ok:
  assumes "off + length bs \<le> mmap_limit d w" "bs \<noteq> []"
  shows "mmap_store d off bs w = (Inr (), mmap_poke d off bs w)"
  using assms by (cases bs) (auto simp: mmap_limit_def mmap_store_def split: option.splits if_splits)

lemma dev_heap_poke [simp]: "dev_heap (mmap_poke d i bs w) = dev_heap w"
  by (simp add: mmap_poke_def split: option.split)

lemma mmap_limit_poke: "mmap_limit d' (mmap_poke d i bs w) = mmap_limit d' w"
  by (simp add: mmap_limit_def)

lemma mmap_contents_poke:
  assumes "i + length bs \<le> mmap_limit d w"
  shows "mmap_contents d (mmap_poke d i bs w) = mem_store (mmap_contents d w) i bs"
proof (cases "dev_heap w d")
  case None
  with assms show ?thesis by (simp add: mmap_limit_def mmap_poke_def)
next
  case (Some dv)
  then show ?thesis
    by (auto simp: mmap_contents_def mmap_poke_def mem_store_def fun_eq_iff)
qed

interpretation mmap: byte_device "mmap_read8 d" "mmap_read32 d" "mmap_write8 d" "mmap_write32 d"
  "mmap_contents d" "mmap_limit d" "mmap_poke d" for d
proof unfold_locales
  show "mmap_limit d w < 2 ^ 32" for w
    by (simp add: mmap_limit_def min_less_iff_disj split: option.split)
next
  show "unat off + 1 \<le> mmap_limit d w \<Longrightarrow> mmap_read8 d off w = (Inr (mmap_contents d w (unat off)), w)" for off w
    by (simp add: mmap_read8_def mmap_load_ok mem_range_def)
next
  show "unat off + 4 \<le> mmap_limit d w \<Longrightarrow>
      mmap_read32 d off w = (Inr (dec32 (mem_range (mmap_contents d w) (unat off) 4)), w)" for off w
    by (simp add: mmap_read32_def mmap_load_ok)
next
  show "unat off + 1 \<le> mmap_limit d w \<Longrightarrow> mmap_write8 d off v w = (Inr (), mmap_poke d (unat off) [v] w)" for off v w
    by (simp add: mmap_write8_def mmap_store_ok)
next
  show "unat off + 4 \<le> mmap_limit d w \<Longrightarrow>
      mmap_write32 d off x w = (Inr (), mmap_poke d (unat off) (enc32 x) w)" for off x w
    by (simp add: mmap_write32_def mmap_store_ok enc32_def flip: length_greater_0_conv)
next
  show "mmap_poke d i [] w = w" for i w
    by (simp add: mmap_poke_def split: option.split)
next
  show "mmap_poke d (i + length as) bs (mmap_poke d i as w) = mmap_poke d i (as @ bs) w" for i as bs w
    by (auto simp: mmap_poke_def mem_store_append ac_simps split: option.split)
qed (rule mmap_limit_poke, rule mmap_contents_poke)

interpretation mmap_dev: memory_device mmap_ops mmap_contents mmap_limit mmap_poke
  by unfold_locales
    (simp_all add: mmap_ops_def mmap.read_ok mmap.read_overflow mmap.write_ok mmap.write_overrun
      mmap_limit_poke mmap.poke_contents)

section \<open>The mapped window\<close>

lemma page_split:
  fixes base :: u32
  assumes "ps = 2 ^ k" "k < 32"
  shows "unat (base - (base AND NOT (ps - 1))) = unat base mod 2 ^ k"
    and "unat (base AND NOT (ps - 1)) = unat base - unat base mod 2 ^ k"
proof -
  have mask: "ps - 1 = mask k" using assms(1) by (simp add: mask_eq_decr_exp)
  have "(base AND mask k) + (base AND NOT (mask k)) = (base AND mask k) OR (base AND NOT (mask k))"
    by (rule disjunctive_add_eq_or) (rule bit_word_eqI, auto simp: bit_simps)
  also have "\<dots> = base" by (rule bit_word_eqI) (auto simp: bit_simps)
  finally have sum: "(base AND mask k) + (base AND NOT (mask k)) = base" .
  have low: "base AND mask k = take_bit k base" by (simp add: take_bit_eq_mask)
  have diff: "base - (base AND NOT (mask k)) = take_bit k base"
    using sum by (simp add: low [symmetric] algebra_simps)
  have unat_low: "unat (take_bit k base) = unat base mod 2 ^ k"
    using take_bit_eq_mod [of k "unat base"] by (simp only: unsigned_take_bit_eq)
  show "unat (base - (base AND NOT (ps - 1))) = unat base mod 2 ^ k"
    by (simp only: mask diff unat_low)
  have "base AND NOT (mask k) = base - take_bit k base"
    using sum by (simp add: low [symmetric] algebra_simps)
  moreover have "take_bit k base \<le> base"
    by (simp add: word_le_nat_alt unat_low)
  ultimately show "unat (base AND NOT (ps - 1)) = unat base - unat base mod 2 ^ k"
    by (simp add: mask unat_sub unat_low)
qed

lemma mmap_size_ge:
  assumes "0 < unat ps"
  shows "unat sz + (unat ps - 1) \<le> mmap_size ps sz"
proof (cases "unat ps = 1")
  case False
  let ?s = "if unat sz < unat ps then unat ps else unat sz"
  have "?s div unat ps < ?s"
    using assms False by (intro div_less_dividend) (auto simp: not_less)
  then have "mmap_size ps sz = ?s + unat ps"
    by (simp add: mmap_size_def Let_def)
  then show ?thesis by (cases "unat sz < unat ps") simp_all
qed (simp add: mmap_size_def Let_def)

lemma ctor_window:
  assumes "page_size = 2 ^ k" "k < 32"
    and dv_def: "dv = hwio_device_mmap_ctor page_size specs base sz path"
  shows "unat (page_addr dv) mod unat page_size = 0 \<and>
    unat (page_addr dv) + unat (page_offset dv) = unat base \<and>
    unat (page_offset dv) + unat (on_bus_size dv) \<le> addr_space_size dv"
proof -
  have "(2 :: nat) ^ k < 2 ^ 32"
    using assms(2) by (rule power_strict_increasing) simp
  then have ps: "unat page_size = 2 ^ k"
    using unat_of_nat [of "2 ^ k", where 'a = 32] assms(1) by simp
  have off: "unat (page_offset dv) = unat base mod 2 ^ k"
    and pa: "unat (page_addr dv) = unat base - unat base mod 2 ^ k"
    using page_split [OF assms(1,2), of base] by (simp_all add: dv_def hwio_device_mmap_ctor_def Let_def)
  have "unat sz + (2 ^ k - 1) \<le> addr_space_size dv"
    using mmap_size_ge [of page_size sz] ps by (simp add: dv_def hwio_device_mmap_ctor_def Let_def)
  moreover have "unat base mod 2 ^ k < 2 ^ k" by simp
  ultimately have "unat base mod 2 ^ k + unat sz \<le> addr_space_size dv" by linarith
  then show ?thesis
    using off pa ps by (simp add: dv_def hwio_device_mmap_ctor_def Let_def minus_mod_eq_mult_div)
qed

text \<open>
  C21: for a page size that is a power of two, the mapping starts at a multiple of the page size,
  the device's base address is at \<open>page_offset\<close> in it, and the mapped length covers the whole
  window of the device, whatever its base and size.
\<close>

theorem mmap_window_covered:
  assumes "page_size = 2 ^ k" "k < 32"
    and dv_def: "dv = hwio_device_mmap_ctor page_size specs base sz path"
  shows "unat (page_addr dv) mod unat page_size = 0 \<and>
    unat (page_addr dv) + unat (page_offset dv) = unat base \<and>
    unat (page_offset dv) + unat (on_bus_size dv) \<le> addr_space_size dv"
  by (rule ctor_window [OF assms])

theorem mmap_window_covered_witness:
  "unat (page_addr (hwio_device_mmap_ctor 4096 [] 0x84000123 0x10000 ''/dev/mem'')) mod unat (4096 :: u32) = 0 \<and>
   unat (page_addr (hwio_device_mmap_ctor 4096 [] 0x84000123 0x10000 ''/dev/mem'')) +
     unat (page_offset (hwio_device_mmap_ctor 4096 [] 0x84000123 0x10000 ''/dev/mem'')) = unat (0x84000123 :: u32) \<and>
   unat (page_offset (hwio_device_mmap_ctor 4096 [] 0x84000123 0x10000 ''/dev/mem'')) +
     unat (on_bus_size (hwio_device_mmap_ctor 4096 [] 0x84000123 0x10000 ''/dev/mem'')) \<le>
     addr_space_size (hwio_device_mmap_ctor 4096 [] 0x84000123 0x10000 ''/dev/mem'')"
  by (rule mmap_window_covered [where k = 12, OF _ _ refl]) simp_all

section \<open>Attaching and accessing a device\<close>

lemma mmap_limit_attached:
  assumes "dev_heap w d = Some dv" "dev_mem_mapped dv"
    and "unat (page_offset dv) + unat (on_bus_size dv) \<le> addr_space_size dv"
  shows "unat (on_bus_size dv) \<le> mmap_limit d w"
  using assms unat_less_pow [of "on_bus_size dv"] by (simp add: mmap_limit_def)

lemma mmap_attach_fresh:
  assumes "dev_heap w d = Some dv" "mm_fd dv = - 1"
    and "unat (page_offset dv) + unat (on_bus_size dv) \<le> addr_space_size dv"
    and "0 < os_open w (mem_file_name dv)"
    and "os_mmap w (mem_file_name dv) (addr_space_size dv) (unat (page_addr dv))"
  shows "\<exists>w'. mmap_attach d w = (Inr (), w') \<and> mem_files w' = mem_files w \<and>
    unat (on_bus_size dv) \<le> mmap_limit d w' \<and> mmap_attach d w' = (Inr (), w') \<and>
    mmap_contents d w' = (\<lambda>i. mem_files w (mem_file_name dv) (mmap_pos dv + i))"
proof -
  let ?dv = "dv\<lparr>mm_fd := os_open w (mem_file_name dv), dev_mem_mapped := True\<rparr>"
  have att: "mmap_attach d w = (Inr (), put_dev d ?dv w)"
    using assms by (simp add: mmap_attach_def Let_def)
  have heap: "dev_heap (put_dev d ?dv w) d = Some ?dv"
    by (simp add: put_dev_def)
  have "unat (on_bus_size dv) \<le> mmap_limit d (put_dev d ?dv w)"
    using mmap_limit_attached [OF heap] assms(3) by simp
  moreover have "mmap_attach d (put_dev d ?dv w) = (Inr (), put_dev d ?dv w)"
    using heap assms(4) by (simp add: mmap_attach_def)
  moreover have "mmap_contents d (put_dev d ?dv w) = (\<lambda>i. mem_files w (mem_file_name dv) (mmap_pos dv + i))"
    by (simp add: mmap_contents_def put_dev_def mmap_pos_def fun_eq_iff)
  ultimately show ?thesis
    using att by (auto simp: put_dev_def)
qed

text \<open>Attaching a fresh device and reading through it reads the memory file behind its base address.\<close>

lemma mmap_fresh_read:
  assumes "dev_heap w d = Some dv" "mm_fd dv = - 1"
    and "unat (page_offset dv) + unat (on_bus_size dv) \<le> addr_space_size dv"
    and "0 < os_open w (mem_file_name dv)"
    and "os_mmap w (mem_file_name dv) (addr_space_size dv) (unat (page_addr dv))"
    and "unat (page_addr dv) + unat (page_offset dv) = unat (on_bus_base_addr dv)"
    and "unat off + n \<le> unat (on_bus_size dv)" "i + n \<le> acap dst"
  shows "\<exists>w'. mmap_attach d w = (Inr (), w') \<and> dev_read mmap_ops d off dst i n w' =
    (Inr (), dst\<lparr>aget := mem_store (aget dst) i
       (mem_range (mem_files w (mem_file_name dv)) (unat (on_bus_base_addr dv) + unat off) n)\<rparr>, w')"
proof -
  obtain w' where w': "mmap_attach d w = (Inr (), w')" "unat (on_bus_size dv) \<le> mmap_limit d w'"
      "mmap_contents d w' = (\<lambda>i. mem_files w (mem_file_name dv) (mmap_pos dv + i))"
    using mmap_attach_fresh [OF assms(1-5)] by blast
  have "unat off + n \<le> mmap_limit d w'" using w'(2) assms(7) by linarith
  from mmap_dev.dev_read_ok [OF this assms(8)] show ?thesis
    using w'(1,3) assms(6) by (simp add: mem_range_shift mmap_pos_def)
qed

text \<open>A world with one device, for the witnesses.\<close>

definition demo_world :: "hwio_device_mmap \<Rightarrow> bool \<Rightarrow> mmap_world" where
  "demo_world dv can_map =
     \<lparr>dev_heap = [0 \<mapsto> dv], mem_files = (\<lambda>_ _. 0), os_open = (\<lambda>_. 3), os_mmap = (\<lambda>_ _ _. can_map)\<rparr>"

definition demo_dev :: hwio_device_mmap where
  "demo_dev = hwio_device_mmap_ctor 4096 [] 0x1000 0x1000 ''mem0.dat''"

lemma demo_dev_window:
  "page_addr demo_dev = 0x1000" "page_offset demo_dev = 0" "on_bus_size demo_dev = 0x1000"
  "addr_space_size demo_dev = 8192" "mm_fd demo_dev = - 1" "mem_file_name demo_dev = ''mem0.dat''"
  by (simp_all add: demo_dev_def hwio_device_mmap_ctor_def mmap_size_def)

text \<open>
  After \<open>mmap\<close> failed once, the device keeps the open descriptor, so a second \<open>attach\<close>
  returns normally although nothing is mapped, and every access is then undefined.
\<close>

lemma mmap_attach_retry_unmapped:
  assumes "dev_heap w d = Some dv" "mm_fd dv = - 1" "0 < os_open w (mem_file_name dv)"
    and "\<not> os_mmap w (mem_file_name dv) (addr_space_size dv) (unat (page_addr dv))"
  shows "\<exists>w'. mmap_attach d w = (Inl (Throw Dev_init_fail), w') \<and> mmap_attach d w' = (Inr (), w') \<and>
    (\<forall>offset. fst (mmap_read8 d offset w') = Inl (Undefined Out_of_bounds))"
proof -
  let ?dv = "dv\<lparr>mm_fd := os_open w (mem_file_name dv), dev_mem_mapped := False\<rparr>"
  let ?w = "put_dev d ?dv w"
  have heap: "dev_heap ?w d = Some ?dv" by (simp add: put_dev_def)
  have "mmap_attach d w = (Inl (Throw Dev_init_fail), ?w)"
    using assms by (simp add: mmap_attach_def Let_def)
  moreover have "mmap_attach d ?w = (Inr (), ?w)"
    using heap assms(3) by (simp add: mmap_attach_def)
  moreover have "fst (mmap_read8 d offset ?w) = Inl (Undefined Out_of_bounds)" for offset
    using heap by (simp add: mmap_read8_def mmap_load_def)
  ultimately show ?thesis by blast
qed

section \<open>Reading back what was written\<close>

text \<open>
  C20: \<open>write\<close> of \<open>n\<close> bytes inside the window of a mapped device succeeds, and \<open>read\<close> of the
  same range returns exactly these bytes; the word-wise loops and the bytes left over make no
  difference.
\<close>

theorem mmap_write_read:
  assumes "unat off + n \<le> mmap_limit d w" "i + n \<le> acap src" "j + n \<le> acap dst"
  shows "\<exists>w' dst'. dev_write mmap_ops d off src i n w = (Inr (), w') \<and>
    dev_read mmap_ops d off dst j n w' = (Inr (), dst', w') \<and> abytes dst' j n = abytes src i n \<and>
    mmap_limit d w' = mmap_limit d w \<and>
    mmap_contents d w' = mem_store (mmap_contents d w) (unat off) (abytes src i n)"
proof -
  let ?w = "mmap_poke d (unat off) (abytes src i n) w"
  let ?dst = "dst\<lparr>aget := mem_store (aget dst) j (abytes src i n)\<rparr>"
  have wr: "dev_write mmap_ops d off src i n w = (Inr (), ?w)"
    using mmap.write_ok [OF assms(1,2)] by (simp add: mmap_ops_def)
  have cont: "mmap_contents d ?w = mem_store (mmap_contents d w) (unat off) (abytes src i n)"
    using mmap.poke_contents assms(1) by simp
  have lim: "mmap_limit d ?w = mmap_limit d w" by (rule mmap.poke_limit)
  have "mem_range (mmap_contents d ?w) (unat off) n = abytes src i n"
    using mem_range_store_same [of "mmap_contents d w" "unat off" "abytes src i n"] by (simp add: cont)
  then have rd: "dev_read mmap_ops d off dst j n ?w = (Inr (), ?dst, ?w)"
    using mmap.read_ok [of off n d ?w j dst] assms lim by (simp add: mmap_ops_def)
  have "abytes ?dst j n = abytes src i n"
    using mem_range_store_same [of "aget dst" j "abytes src i n"] by (simp add: abytes_mem_range)
  with wr rd lim cont show ?thesis by blast
qed

definition demo_attached :: mmap_world where
  "demo_attached = demo_world (demo_dev\<lparr>mm_fd := 3, dev_mem_mapped := True\<rparr>) True"

lemma demo_attached_limit: "mmap_limit 0 demo_attached = 8192"
  by (simp add: mmap_limit_def demo_attached_def demo_world_def demo_dev_window)

definition demo_array :: carray where
  "demo_array = \<lparr>acap = 16, aget = word_of_nat\<rparr>"

theorem mmap_write_read_witness:
  "\<exists>w' dst'. dev_write mmap_ops 0 2 demo_array 1 7 demo_attached = (Inr (), w') \<and>
    dev_read mmap_ops 0 2 demo_array 0 7 w' = (Inr (), dst', w') \<and> abytes dst' 0 7 = abytes demo_array 1 7 \<and>
    mmap_limit 0 w' = mmap_limit 0 demo_attached \<and>
    mmap_contents 0 w' = mem_store (mmap_contents 0 demo_attached) (unat (2 :: u32)) (abytes demo_array 1 7)"
  by (rule mmap_write_read) (simp_all add: demo_attached_limit demo_array_def)

text \<open>
  \<open>memset\<close> fills exactly the given range with the given byte: the 32-bit pattern it writes is
  the byte four times.
\<close>

lemma mmap_memset:
  assumes "unat off + n \<le> mmap_limit d w"
  shows "\<exists>w'. ihwio_memset (mmap_write8 d) (mmap_write32 d) off c n w = (Inr (), w') \<and>
    mmap_contents d w' = mem_store (mmap_contents d w) (unat off) (replicate n c)"
  using mmap.memset_ok [OF assms] mmap.poke_contents [of "unat off" "replicate n c"] assms by simp

lemma enc64_split: "enc64 v = enc32 (ucast v) @ enc32 (ucast (drop_bit 32 v))"
proof -
  have lo: "unat (ucast v :: u32) = unat v mod 256 ^ 4"
    by (simp add: unsigned_ucast_eq take_bit_eq_mod)
  have "unat (drop_bit 32 v) = unat v div 256 ^ 4"
    using drop_bit_eq_div [of 32 "unat v"] by (simp only: unat_drop_bit_eq) simp
  then have hi: "unat (ucast (drop_bit 32 v) :: u32) = (unat v div 256 ^ 4) mod 256 ^ 4"
    by (simp add: unsigned_ucast_eq take_bit_eq_mod)
  show ?thesis
    using le_enc_append [of 4 4 "unat v"] by (simp add: enc64_def enc32_def lo hi le_enc_mod del: power_numeral)
qed

lemma dec64_split:
  assumes "length as = 4" "length bs = 4"
  shows "ucast (dec32 as) OR push_bit 32 (ucast (dec32 bs)) = dec64 (as @ bs)"
proof -
  define v where "v = dec64 (as @ bs)"
  have "enc64 v = as @ bs"
    using le_dec_bound [of "as @ bs"] assms by (simp add: v_def enc64_def dec64_def unat_of_nat le_enc_le_dec)
  then have "enc32 (ucast v) = as" "enc32 (ucast (drop_bit 32 v)) = bs"
    using assms by (simp_all add: enc64_split append_eq_append_conv)
  then have "dec32 as = ucast v" "dec32 bs = ucast (drop_bit 32 v)"
    by auto
  moreover have "ucast (ucast v :: u32) OR push_bit 32 (ucast (ucast (drop_bit 32 v) :: u32)) = v"
    by (rule bit_word_eqI) (auto simp: bit_simps)
  ultimately show ?thesis by (simp only: v_def [symmetric])
qed

lemma mmap_read_ok:
  assumes "unat off + n \<le> mmap_limit d w"
  shows "n = 1 \<Longrightarrow> mmap_read8 d off w = (Inr (hd (mem_range (mmap_contents d w) (unat off) n)), w)"
    "n = 4 \<Longrightarrow> mmap_read32 d off w = (Inr (dec32 (mem_range (mmap_contents d w) (unat off) n)), w)"
    "n = 8 \<Longrightarrow> mmap_read64 d off w = (Inr (dec64 (mem_range (mmap_contents d w) (unat off) n)), w)"
  using assms mem_range_split [of "mmap_contents d w" "unat off" 4 4]
  by (simp_all add: mmap_read8_def mmap_read32_def mmap_read64_def mmap_load_ok dec64_split)

lemma mmap_write_ok:
  assumes "unat off + length bs \<le> mmap_limit d w"
  shows "bs = [b] \<Longrightarrow> mmap_write8 d off b w = (Inr (), mmap_poke d (unat off) bs w)"
    "bs = enc32 v \<Longrightarrow> mmap_write32 d off v w = (Inr (), mmap_poke d (unat off) bs w)"
    "bs = enc64 x \<Longrightarrow> mmap_write64 d off x w = (Inr (), mmap_poke d (unat off) bs w)"
proof -
  show "mmap_write8 d off b w = (Inr (), mmap_poke d (unat off) bs w)" if "bs = [b]"
    using assms that by (simp add: mmap_write8_def mmap_store_ok)
  show "mmap_write32 d off v w = (Inr (), mmap_poke d (unat off) bs w)" if "bs = enc32 v"
    using assms mmap_store_ok [of "unat off" "enc32 v" d w] that by (simp add: mmap_write32_def flip: length_0_conv)
  let ?lo = "enc32 (ucast x :: u32)" and ?hi = "enc32 (ucast (drop_bit 32 x) :: u32)"
  have ne: "?lo \<noteq> []" "?hi \<noteq> []" by (simp_all flip: length_greater_0_conv)
  assume bs: "bs = enc64 x"
  have "mmap_store d (unat off) ?lo w = (Inr (), mmap_poke d (unat off) ?lo w)"
    using assms ne bs by (intro mmap_store_ok) simp_all
  moreover have "mmap_store d (unat off + 4) ?hi (mmap_poke d (unat off) ?lo w) =
      (Inr (), mmap_poke d (unat off + 4) ?hi (mmap_poke d (unat off) ?lo w))"
    using assms ne bs by (intro mmap_store_ok) (simp_all add: mmap.poke_limit)
  moreover have "mmap_poke d (unat off + 4) ?hi (mmap_poke d (unat off) ?lo w) = mmap_poke d (unat off) (enc64 x) w"
    using mmap.poke_append [where i = "unat off" and as = ?lo and bs = ?hi] by (simp add: enc64_split)
  ultimately show "mmap_write64 d off x w = (Inr (), mmap_poke d (unat off) bs w)"
    using bs by (simp add: mmap_write64_def)
qed

text \<open>
  C22: the 64-bit accesses are made of two 32-bit ones, low half first; together they store and
  read the eight little-endian bytes of the value, and a read after a write returns the value.
\<close>

theorem mmap_read64_write64:
  assumes "unat off + 8 \<le> mmap_limit d w"
  shows "mmap_write64 d off v w = (Inr (), mmap_poke d (unat off) (enc64 v) w) \<and>
    mmap_read64 d off w = (Inr (dec64 (mem_range (mmap_contents d w) (unat off) 8)), w) \<and>
    fst (mmap_read64 d off (mmap_poke d (unat off) (enc64 v) w)) = Inr v"
proof -
  let ?w = "mmap_poke d (unat off) (enc64 v) w"
  have "mem_range (mmap_contents d ?w) (unat off) 8 = enc64 v"
    using mem_range_store_same [of "mmap_contents d w" "unat off" "enc64 v"] assms
    by (simp add: mmap.poke_contents)
  then show ?thesis
    using mmap_write_ok(3) [of off "enc64 v" d w] mmap_read_ok(3) [OF assms] mmap_read_ok(3) [of off 8 d ?w] assms
    by (simp add: mmap.poke_limit)
qed

theorem mmap_read64_write64_witness:
  "mmap_write64 0 16 0x123456789ABCDEF0 demo_attached =
     (Inr (), mmap_poke 0 (unat (16 :: u32)) (enc64 0x123456789ABCDEF0) demo_attached) \<and>
   mmap_read64 0 16 demo_attached =
     (Inr (dec64 (mem_range (mmap_contents 0 demo_attached) (unat (16 :: u32)) 8)), demo_attached) \<and>
   fst (mmap_read64 0 16 (mmap_poke 0 (unat (16 :: u32)) (enc64 0x123456789ABCDEF0) demo_attached)) =
     Inr 0x123456789ABCDEF0"
  by (rule mmap_read64_write64) (simp add: demo_attached_limit)

end
