(* ===== verification/Hwio_Server_Laws.thy ===== *)
theory Hwio_Server_Laws
  imports Hwio_Server Hwio_Device_Mmap
begin

text \<open>
  What the handlers do: the error frame, refused accesses, reads and writes of memory-like devices,
  the table of device ids, remote calls. The lemmas on reads and writes are proved once for every
  \<open>memory_device\<close>, those on queries for every set of \<open>attachable\<close> devices; both are used for
  mapped devices.
\<close>

definition server_wf :: "('w, 'd) HwioServer \<Rightarrow> bool" where
  "server_wf s \<longleftrightarrow> acap (tx_buffer s) = BUFFER_SIZE"

section \<open>The error frame\<close>

lemma send_err_tx_ok:
  assumes "acap tx = 2048" "no_nul msg" "length msg < 1024"
  shows "\<exists>t. send_err_tx ec msg tx = Inr t \<and> acap t = 2048 \<and>
    abytes t 0 1031 = enc_header \<lparr>command = HWIO_CMD_MSG, body_len = word_of_nat (4 + length msg)\<rparr> @
      enc32 (err_code ec) @ strncpy_bytes 1024 msg"
proof -
  let ?h = "enc_header \<lparr>command = HWIO_CMD_MSG, body_len = word_of_nat (4 + length msg)\<rparr>"
  obtain t1 where t1: "astore tx 7 (strncpy_bytes 1024 msg) = Inr t1" "acap t1 = 2048"
    using assms(1) by (simp add: astore_def)
  obtain t2 where t2: "astore t1 3 (enc32 (err_code ec)) = Inr t2" "acap t2 = 2048"
    using t1(2) by (simp add: astore_def)
  obtain t3 where t3: "astore t2 0 ?h = Inr t3" "acap t3 = 2048"
    using t2(2) by (simp add: astore_def)
  have m2: "abytes t2 7 1024 = strncpy_bytes 1024 msg"
    using abytes_astore_same [OF t1(1)] abytes_astore_other [OF t2(1), of 7 1024] by simp
  then have "cstr_at t2 7 = Inr msg"
    using assms t2(2) by (intro cstr_at_strncpy [where n = 1024]) simp_all
  then have "send_err_tx ec msg tx = Inr t3"
    using t1(1) t2(1) t3(1) by (simp add: send_err_tx_def)
  moreover have "abytes t3 0 3 = ?h" "abytes t3 3 4 = enc32 (err_code ec)" "abytes t3 7 1024 = strncpy_bytes 1024 msg"
    using abytes_astore_same [OF t3(1)] abytes_astore_same [OF t2(1)] m2
      abytes_astore_other [OF t3(1), of 3 4] abytes_astore_other [OF t3(1), of 7 1024] by simp_all
  moreover have "abytes t3 0 1031 = abytes t3 0 3 @ abytes t3 3 4 @ abytes t3 7 1024"
    using abytes_split [of t3 0 3 1028] abytes_split [of t3 3 4 1024] by simp
  ultimately show ?thesis using t3(2) by simp
qed

lemma send_err_ok:
  assumes "server_wf s" "no_nul msg" "length msg < 1024"
  obtains t where "send_err ec msg client s =
      (Inr \<lparr>disconnect = True, tx_size = 1028\<rparr>, client, s\<lparr>tx_buffer := t\<rparr>)" "acap t = 2048"
    "abytes t 0 1031 = enc_header \<lparr>command = HWIO_CMD_MSG, body_len = word_of_nat (4 + length msg)\<rparr> @
      enc32 (err_code ec) @ strncpy_bytes 1024 msg"
  using send_err_tx_ok [of "tx_buffer s" msg ec] assms that
  by (auto simp: send_err_def server_wf_def)

text \<open>
  C40: an error drops the client and sends 1028 bytes of a frame whose header announces only the
  code and the text: the number of bytes sent agrees with the header only for a text of 1021
  characters.
\<close>

theorem send_err_frame:
  assumes "server_wf s" "no_nul msg" "length msg < 1024"
  shows "\<exists>t. send_err ec msg client s =
      (Inr \<lparr>disconnect = True, tx_size = 1028\<rparr>, client, s\<lparr>tx_buffer := t\<rparr>) \<and>
    abytes t 0 (3 + 4 + length msg) =
      enc_header \<lparr>command = HWIO_CMD_MSG, body_len = word_of_nat (4 + length msg)\<rparr> @
      enc32 (err_code ec) @ map char_byte msg \<and>
    (1028 = sizeof_header + unat (body_len (dec_header (abytes t 0 3))) \<longleftrightarrow> length msg = 1021)"
proof -
  let ?h = "\<lparr>command = HWIO_CMD_MSG, body_len = word_of_nat (4 + length msg)\<rparr>"
  obtain t where t: "send_err ec msg client s = (Inr \<lparr>disconnect = True, tx_size = 1028\<rparr>, client, s\<lparr>tx_buffer := t\<rparr>)"
    and frame: "abytes t 0 1031 = enc_header ?h @ enc32 (err_code ec) @ strncpy_bytes 1024 msg"
    using send_err_ok [OF assms] by blast
  have "take (7 + length msg) (abytes t 0 1031) = enc_header ?h @ enc32 (err_code ec) @ map char_byte msg"
    using assms(2,3) by (simp add: frame strncpy_bytes_short)
  then have pre: "abytes t 0 (3 + 4 + length msg) = enc_header ?h @ enc32 (err_code ec) @ map char_byte msg"
    using assms(3) by (simp add: take_abytes)
  have "abytes t 0 3 = enc_header ?h"
    using arg_cong [OF frame, of "take 3"] by (simp add: take_abytes)
  then have "unat (body_len (dec_header (abytes t 0 3))) = 4 + length msg"
    using assms(3) unat_of_nat [of "4 + length msg", where 'a = 16] by simp
  with t pre show ?thesis by auto
qed

text \<open>The commands for several accesses at once are part of the protocol, but the server drops a client that uses them.\<close>

lemma multiple_access_refused:
  assumes "server_wf s"
    and "command h \<in> {HWIO_CMD_READ_MULTIPLE, HWIO_CMD_READ_MULTIPLE_RESP, HWIO_CMD_WRITE_MULTIPLE, HWIO_CMD_WRITE_KEYHOLE}"
  obtains t where "handle_msg ops client h s = (Inr \<lparr>disconnect = True, tx_size = 1028\<rparr>, client, s\<lparr>tx_buffer := t\<rparr>)"
    "abytes t 0 7 = enc_header \<lparr>command = HWIO_CMD_MSG, body_len = 4\<rparr> @ enc32 (err_code UNKNOWN_COMMAND)"
proof -
  obtain t where t: "send_err UNKNOWN_COMMAND [] client s = (Inr \<lparr>disconnect = True, tx_size = 1028\<rparr>, client, s\<lparr>tx_buffer := t\<rparr>)"
      "abytes t 0 1031 = enc_header \<lparr>command = HWIO_CMD_MSG, body_len = 4\<rparr> @ enc32 (err_code UNKNOWN_COMMAND) @ strncpy_bytes 1024 []"
    using send_err_ok [OF assms(1), of "[]" UNKNOWN_COMMAND client] by (auto simp: no_nul_def)
  have "handle_msg ops client h s = send_err UNKNOWN_COMMAND [] client s" using assms(2) by (auto simp: handle_msg_def Let_def)
  moreover have "abytes t 0 7 = take 7 (abytes t 0 1031)" by (simp add: take_abytes)
  then have "abytes t 0 7 = enc_header \<lparr>command = HWIO_CMD_MSG, body_len = 4\<rparr> @ enc32 (err_code UNKNOWN_COMMAND)"
    unfolding t(2) by simp
  ultimately show thesis using t(1) that by simp
qed

text \<open>A server with one mapped device on its bus and a client that owns it, for the witnesses.\<close>

definition demo_server :: "(mmap_world, nat) HwioServer" where
  "demo_server = \<lparr>tx_buffer = \<lparr>acap = 2048, aget = (\<lambda>_. 0)\<rparr>, rx_pos = 3,
     buses = [primitive_find_devices mmap_ops [0]], plugins = [], plugins_fast = [], plugins_fast_names = [],
     world = demo_attached\<rparr>"

definition demo_client_at :: "nat \<Rightarrow> byte list \<Rightarrow> nat ClientInfo" where
  "demo_client_at p msg = \<lparr>ci_id = 0, ci_fd = 5,
     ci_rx = \<lparr>rx_array = \<lparr>acap = 65536, aget = mem_store (\<lambda>_. 0) p msg\<rparr>,
              curr_ptr = p, curr_len = length msg\<rparr>, ci_devices = [Some 0]\<rparr>"

abbreviation demo_client :: "byte list \<Rightarrow> nat ClientInfo" where
  "demo_client msg \<equiv> demo_client_at 0 msg"

lemma demo_server_wf: "server_wf demo_server"
  by (simp add: server_wf_def demo_server_def)

lemma demo_client_bytes:
  "i + n \<le> length msg \<Longrightarrow> abytes (rx_mem (demo_client_at p msg)) (p + i) n = take n (drop i msg)"
  by (auto simp: demo_client_at_def abytes_nth mem_store_def intro!: nth_equalityI)

theorem send_err_frame_witness:
  "\<exists>t. send_err ACCESS_DENIED ''denied'' (demo_client []) demo_server =
      (Inr \<lparr>disconnect = True, tx_size = 1028\<rparr>, demo_client [], demo_server\<lparr>tx_buffer := t\<rparr>) \<and>
    abytes t 0 (3 + 4 + length ''denied'') =
      enc_header \<lparr>command = HWIO_CMD_MSG, body_len = word_of_nat (4 + length ''denied'')\<rparr> @
      enc32 (err_code ACCESS_DENIED) @ map char_byte ''denied'' \<and>
    (1028 = sizeof_header + unat (body_len (dec_header (abytes t 0 3))) \<longleftrightarrow> length ''denied'' = 1021)"
  by (rule send_err_frame [OF demo_server_wf]) (simp_all add: no_nul_def)

section \<open>Refused accesses\<close>

text \<open>The requests that name a device: their body starts with its id.\<close>

definition names_device :: "byte \<Rightarrow> bool" where
  "names_device cmd \<longleftrightarrow> cmd \<in> {HWIO_CMD_READ, HWIO_CMD_WRITE, HWIO_CMD_REMOTE_CALL,
     HWIO_CMD_REMOTE_CALL_FAST, HWIO_CMD_GET_REMOTE_CALL_ID}"

text \<open>An error result: the client is dropped and only the transmit buffer has changed.\<close>

definition refused ::
  "'d ClientInfo \<Rightarrow> ('w, 'd) HwioServer \<Rightarrow> PProcRes res \<times> 'd ClientInfo \<times> ('w, 'd) HwioServer \<Rightarrow> bool" where
  "refused client s r \<longleftrightarrow>
     (\<exists>t. r = (Inr \<lparr>disconnect = True, tx_size = 1028\<rparr>, client, s\<lparr>tx_buffer := t\<rparr>) \<and> acap t = 2048 \<and>
          command (dec_header (abytes t 0 3)) = HWIO_CMD_MSG)"

lemma send_err_refused:
  assumes "server_wf s" "no_nul msg" "length msg < 1024"
  shows "refused client s (send_err ec msg client s)"
proof -
  let ?h = "\<lparr>command = HWIO_CMD_MSG, body_len = word_of_nat (4 + length msg)\<rparr>"
  obtain t where t: "send_err ec msg client s = (Inr \<lparr>disconnect = True, tx_size = 1028\<rparr>, client, s\<lparr>tx_buffer := t\<rparr>)"
      "acap t = 2048" and frame: "abytes t 0 1031 = enc_header ?h @ enc32 (err_code ec) @ strncpy_bytes 1024 msg"
    using send_err_ok [OF assms] by blast
  have "abytes t 0 3 = enc_header ?h"
    using arg_cong [OF frame, of "take 3"] by (simp add: take_abytes)
  with t show ?thesis by (auto simp: refused_def intro!: exI [of _ t])
qed

lemma refused_tx: "refused client (s\<lparr>tx_buffer := t\<rparr>) r \<Longrightarrow> refused client s r"
  by (auto simp: refused_def)

lemma client_get_dev_cong: "dec16 (take 2 bs) = dec16 bs"
  by (simp add: dec16_def)

lemma dec_RdReq_devId: "rd_devId (dec_RdReq bs) = dec16 bs"
  by (simp add: dec_RdReq_def)

lemma dev_id_bytes: "2 \<le> n \<Longrightarrow> dec16 (abytes a p n) = dec16 (abytes a p 2)"
  by (metis client_get_dev_cong take_abytes)

text \<open>A message whose device id is not in the client's table, and the handlers that read the id.\<close>

definition foreign_msg :: "'d ClientInfo \<Rightarrow> Hwio_packet_header \<Rightarrow> ('w, 'd) HwioServer \<Rightarrow> bool" where
  "foreign_msg client header s \<longleftrightarrow> server_wf s \<and> rx_pos s + unat (body_len header) \<le> acap (rx_mem client) \<and>
     client_get_dev client (dec16 (abytes (rx_mem client) (rx_pos s) 2)) = None"

lemma foreign_msg_load:
  assumes "foreign_msg client header s"
  shows "2 \<le> unat (body_len header) \<Longrightarrow>
      aload (rx_mem client) (rx_pos s) 2 = Inr (abytes (rx_mem client) (rx_pos s) 2)"
    and "8 \<le> unat (body_len header) \<Longrightarrow>
      aload (rx_mem client) (rx_pos s) 8 = Inr (abytes (rx_mem client) (rx_pos s) 8) \<and>
      client_get_dev client (rd_devId (dec_RdReq (abytes (rx_mem client) (rx_pos s) 8))) = None"
  using assms by (simp_all add: foreign_msg_def aload_ok dec_RdReq_devId dev_id_bytes [of 8])

lemma foreign_handlers_refused:
  assumes "foreign_msg client header s"
  shows "refused client s (handle_read ops client header s)" "refused client s (handle_write ops client header s)"
    "refused client s (handle_remote_call client header s)" "refused client s (handle_fast_remote_call client header s)"
proof -
  have "server_wf s" using assms by (simp add: foreign_msg_def)
  note err = send_err_refused [OF this]
  show "refused client s (handle_read ops client header s)" "refused client s (handle_write ops client header s)"
    using foreign_msg_load(2) [OF assms] by (auto simp: handle_read_def handle_write_def Let_def no_nul_def intro!: err)
  show "refused client s (handle_remote_call client header s)" "refused client s (handle_fast_remote_call client header s)"
    using foreign_msg_load(1) [OF assms] assms
    by (auto simp: handle_remote_call_def handle_fast_remote_call_def foreign_msg_def no_nul_def intro!: err)
qed

lemma foreign_fn_id_refused:
  assumes "foreign_msg client header s"
  shows "refused client s (handle_get_rpc_fn_id client header s)"
proof -
  have wf: "server_wf s" using assms by (simp add: foreign_msg_def)
  obtain t where t: "astore (tx_buffer s) 0 (enc_header \<lparr>command = 17, body_len = 5\<rparr> @ enc_GetRemoteCallIdResp False (- 1)) = Inr t"
      "acap t = 2048"
    using wf by (simp add: astore_def server_wf_def)
  then have "server_wf (s\<lparr>tx_buffer := t\<rparr>)" by (simp add: server_wf_def)
  then have "refused client s (send_err ACCESS_DENIED
      ''GET REMOTE CALL ID: device is not allocated'' client (s\<lparr>tx_buffer := t\<rparr>))"
    by (intro refused_tx [OF send_err_refused]) (simp_all add: no_nul_def)
  then show ?thesis
    using t foreign_msg_load(1) [OF assms] assms
    by (auto simp: handle_get_rpc_fn_id_def foreign_msg_def no_nul_def intro!: send_err_refused [OF wf])
qed

text \<open>
  C14: a read, write or remote call that names a device id the client does not own is answered by
  an error frame and drops the client; no device is touched and the client's table is unchanged.
\<close>

theorem foreign_device_refused:
  assumes "server_wf s" "names_device (command header)"
    and "rx_pos s + unat (body_len header) \<le> acap (rx_mem client)"
    and "client_get_dev client (dec16 (abytes (rx_mem client) (rx_pos s) 2)) = None"
  shows "refused client s (handle_msg ops client header s)"
proof -
  have "foreign_msg client header s" using assms by (simp add: foreign_msg_def)
  note foreign = foreign_handlers_refused [OF this] foreign_fn_id_refused [OF this]
  then show ?thesis using assms(2) by (auto simp: names_device_def handle_msg_def)
qed

theorem foreign_device_refused_witness:
  "refused (demo_client (enc_header \<lparr>command = 1, body_len = 8\<rparr> @ enc_RdReq \<lparr>rd_devId = 1, rd_addr = 0, rd_size = 4\<rparr>))
     demo_server
     (handle_msg mmap_ops
        (demo_client (enc_header \<lparr>command = 1, body_len = 8\<rparr> @ enc_RdReq \<lparr>rd_devId = 1, rd_addr = 0, rd_size = 4\<rparr>))
        \<lparr>command = 1, body_len = 8\<rparr> demo_server)"
proof (rule foreign_device_refused [OF demo_server_wf])
  let ?c = "demo_client (enc_header \<lparr>command = 1, body_len = 8\<rparr> @ enc_RdReq \<lparr>rd_devId = 1, rd_addr = 0, rd_size = 4\<rparr>)"
  have "abytes (rx_mem ?c) (rx_pos demo_server) 2 = enc16 1"
    using demo_client_bytes [of 3 2 _ 0] by (simp add: demo_server_def enc_RdReq_def)
  then show "client_get_dev ?c (dec16 (abytes (rx_mem ?c) (rx_pos demo_server) 2)) = None"
    by (simp add: client_get_dev_def demo_client_at_def)
qed (simp_all add: names_device_def demo_server_def demo_client_at_def)

section \<open>Reads and writes of memory-like devices\<close>

text \<open>A well-formed read or write request at the current message.\<close>

definition request_at :: "'d ClientInfo \<Rightarrow> ('w, 'd) HwioServer \<Rightarrow> RdReq \<Rightarrow> 'd \<Rightarrow> bool" where
  "request_at client s r d \<longleftrightarrow>
     rx_pos s + sizeof_RdReq \<le> acap (rx_mem client) \<and>
     abytes (rx_mem client) (rx_pos s) sizeof_RdReq = enc_RdReq r \<and>
     client_get_dev client (rd_devId r) = Some d"

lemma request_at_load:
  "request_at client s r d \<Longrightarrow> aload (rx_mem client) (rx_pos s) 8 = Inr (enc_RdReq r)"
  by (simp add: request_at_def aload_ok)

lemma demo_request_at:
  assumes "length h = 3" "rd_devId r = 0" "p + 11 \<le> 65536"
  shows "request_at (demo_client_at p (h @ enc_RdReq r @ data)) (demo_server\<lparr>rx_pos := p + 3\<rparr>) r 0"
  using assms demo_client_bytes [of 3 8 "h @ enc_RdReq r @ data" p]
  by (simp add: request_at_def) (simp add: demo_client_at_def client_get_dev_def)

lemma demo_server_rx_pos: "server_wf (demo_server\<lparr>rx_pos := p\<rparr>)" "world (demo_server\<lparr>rx_pos := p\<rparr>) = demo_attached"
  by (simp_all add: server_wf_def demo_server_def)

lemmas demo_simps = demo_server_rx_pos demo_attached_limit

context memory_device
begin

lemma handle_read_ok:
  assumes "server_wf s" "body_len header = 8" "request_at client s r d"
    and "unat (rd_addr r) + unat (rd_size r) \<le> limit d (world s)" "unat (rd_size r) \<le> 2045"
  shows "\<exists>t. handle_read ops client header s =
      (Inr \<lparr>disconnect = False, tx_size = 3 + unat (rd_size r)\<rparr>, client, s\<lparr>tx_buffer := t\<rparr>) \<and> acap t = 2048 \<and>
    abytes t 0 (3 + unat (rd_size r)) =
      enc_header \<lparr>command = HWIO_CMD_READ_RESP, body_len = rd_size r\<rparr> @
      mem_range (contents d (world s)) (unat (rd_addr r)) (unat (rd_size r))"
proof -
  let ?h = "enc_header \<lparr>command = HWIO_CMD_READ_RESP, body_len = rd_size r\<rparr>" and ?n = "unat (rd_size r)"
  let ?data = "mem_range (contents d (world s)) (unat (rd_addr r)) ?n"
  obtain t where t: "astore (tx_buffer s) 0 ?h = Inr t" "acap t = 2048"
    using assms(1) by (simp add: astore_def server_wf_def)
  let ?t = "t\<lparr>aget := mem_store (aget t) 3 ?data\<rparr>"
  have st: "astore t 3 ?data = Inr ?t"
    using t(2) assms(5) by (simp add: astore_mem_store)
  have "dev_read ops d (rd_addr r) t 3 ?n (world s) = (Inr (), ?t, world s)"
    using assms(4,5) t(2) by (simp add: dev_read_ok)
  then have "handle_read ops client header s =
      (Inr \<lparr>disconnect = False, tx_size = 3 + ?n\<rparr>, client, s\<lparr>tx_buffer := ?t\<rparr>)"
    using assms(2,3) t request_at_load [OF assms(3)]
    by (simp add: handle_read_def request_at_def)
  moreover have "abytes ?t 0 3 = ?h" "abytes ?t 3 ?n = ?data"
    using abytes_astore_same [OF t(1)] abytes_astore_other [OF st, of 0 3] abytes_astore_same [OF st] by simp_all
  then have "abytes ?t 0 (3 + ?n) = ?h @ ?data"
    by (simp add: abytes_split)
  ultimately show ?thesis using t(2) by (intro exI [of _ ?t]) simp
qed

lemma handle_read_overflow:
  assumes "server_wf s" "body_len header = 8" "request_at client s r d"
    and "unat (rd_addr r) + unat (rd_size r) \<le> limit d (world s)" "2045 < unat (rd_size r)"
  shows "fst (handle_read ops client header s) = Inl (Undefined Out_of_bounds)"
proof -
  let ?h = "enc_header \<lparr>command = HWIO_CMD_READ_RESP, body_len = rd_size r\<rparr>" and ?n = "unat (rd_size r)"
  obtain t where t: "astore (tx_buffer s) 0 ?h = Inr t" "acap t = 2048"
    using assms(1) by (simp add: astore_def server_wf_def)
  have "fst (dev_read ops d (rd_addr r) t 3 ?n (world s)) = Inl (Undefined Out_of_bounds)"
    using assms(4,5) t(2) by (intro dev_read_overflow) simp_all
  then obtain t' w' where "dev_read ops d (rd_addr r) t 3 ?n (world s) = (Inl (Undefined Out_of_bounds), t', w')"
    by (metis prod.collapse)
  then show ?thesis
    using assms(2,3) t request_at_load [OF assms(3)]
    by (simp add: handle_read_def request_at_def)
qed

lemma handle_write_ok:
  assumes "8 \<le> unat (body_len header)" "request_at client s r d" "unat (rd_devId r) < 256"
    and "unat (rd_addr r) + unat (rd_size r) \<le> limit d (world s)"
    and "rx_pos s + 8 + unat (rd_size r) \<le> acap (rx_mem client)"
  shows "handle_write ops client header s =
      (Inr \<lparr>disconnect = False, tx_size = 0\<rparr>, client,
       s\<lparr>world := poke d (unat (rd_addr r)) (abytes (rx_mem client) (rx_pos s + 8) (unat (rd_size r))) (world s)\<rparr>)"
  using assms request_at_load [OF assms(2)]
  by (simp add: handle_write_def request_at_def dev_write_ok)

lemma handle_write_overrun:
  assumes "8 \<le> unat (body_len header)" "request_at client s r d" "unat (rd_devId r) < 256"
    and "unat (rd_addr r) + unat (rd_size r) \<le> limit d (world s)"
    and "acap (rx_mem client) < rx_pos s + 8 + unat (rd_size r)" "0 < unat (rd_size r)"
  shows "fst (handle_write ops client header s) = Inl (Undefined Out_of_bounds)"
proof -
  obtain w' where "dev_write ops d (rd_addr r) (rx_mem client) (rx_pos s + 8) (unat (rd_size r)) (world s) =
      (Inl (Undefined Out_of_bounds), w')"
    using dev_write_overrun [OF assms(4-6)] by (metis prod.collapse)
  then show ?thesis
    using assms(1-3) request_at_load [OF assms(2)]
    by (simp add: handle_write_def request_at_def)
qed

end

text \<open>
  C18: a read of an owned mapped device, inside its window and of at most 2045 bytes, is answered
  by a frame with exactly the bytes of the device; no device changes.
\<close>

theorem server_read_correct:
  assumes "server_wf s" "header = \<lparr>command = HWIO_CMD_READ, body_len = 8\<rparr>" "request_at client s r d"
    and "unat (rd_addr r) + unat (rd_size r) \<le> mmap_limit d (world s)" "unat (rd_size r) \<le> 2045"
  shows "\<exists>t. handle_msg mmap_ops client header s =
      (Inr \<lparr>disconnect = False, tx_size = 3 + unat (rd_size r)\<rparr>, client, s\<lparr>tx_buffer := t\<rparr>) \<and> acap t = 2048 \<and>
    abytes t 0 (3 + unat (rd_size r)) =
      enc_header \<lparr>command = HWIO_CMD_READ_RESP, body_len = rd_size r\<rparr> @
      mem_range (mmap_contents d (world s)) (unat (rd_addr r)) (unat (rd_size r))"
  using mmap_dev.handle_read_ok [OF assms(1) _ assms(3-5), of header] assms(2)
  by (simp add: handle_msg_def)

theorem server_read_correct_witness:
  "\<exists>t. handle_msg mmap_ops (demo_client ([1, 8, 0] @ enc_RdReq \<lparr>rd_devId = 0, rd_addr = 16, rd_size = 4\<rparr> @ []))
      \<lparr>command = HWIO_CMD_READ, body_len = 8\<rparr> (demo_server\<lparr>rx_pos := 0 + 3\<rparr>) =
      (Inr \<lparr>disconnect = False, tx_size = 3 + unat (rd_size \<lparr>rd_devId = 0, rd_addr = 16, rd_size = 4\<rparr>)\<rparr>,
       demo_client ([1, 8, 0] @ enc_RdReq \<lparr>rd_devId = 0, rd_addr = 16, rd_size = 4\<rparr> @ []),
       demo_server\<lparr>rx_pos := 0 + 3, tx_buffer := t\<rparr>) \<and> acap t = 2048 \<and>
    abytes t 0 (3 + unat (rd_size \<lparr>rd_devId = 0, rd_addr = 16, rd_size = 4\<rparr>)) =
      enc_header \<lparr>command = HWIO_CMD_READ_RESP, body_len = rd_size \<lparr>rd_devId = 0, rd_addr = 16, rd_size = 4\<rparr>\<rparr> @
      mem_range (mmap_contents 0 (world (demo_server\<lparr>rx_pos := 0 + 3\<rparr>)))
        (unat (rd_addr \<lparr>rd_devId = 0, rd_addr = 16, rd_size = 4\<rparr>)) (unat (rd_size \<lparr>rd_devId = 0, rd_addr = 16, rd_size = 4\<rparr>))"
  by (rule server_read_correct [OF demo_server_rx_pos(1) refl demo_request_at]) (simp_all add: demo_simps)

text \<open>
  C38: the size of a read request is not checked against the transmit buffer: a request of more
  than 2045 bytes that stays inside the device's window makes the server write past the end of
  its \<open>tx_buffer\<close>.
\<close>

theorem server_read_overflows_tx_buffer:
  assumes "server_wf s" "header = \<lparr>command = HWIO_CMD_READ, body_len = 8\<rparr>" "request_at client s r d"
    and "unat (rd_addr r) + unat (rd_size r) \<le> mmap_limit d (world s)" "2045 < unat (rd_size r)"
  shows "fst (handle_msg mmap_ops client header s) = Inl (Undefined Out_of_bounds)"
  using mmap_dev.handle_read_overflow [OF assms(1) _ assms(3-5), of header] assms(2)
  by (simp add: handle_msg_def)

theorem server_read_overflows_tx_buffer_witness:
  "fst (handle_msg mmap_ops (demo_client ([1, 8, 0] @ enc_RdReq \<lparr>rd_devId = 0, rd_addr = 0, rd_size = 4096\<rparr> @ []))
      \<lparr>command = HWIO_CMD_READ, body_len = 8\<rparr> (demo_server\<lparr>rx_pos := 0 + 3\<rparr>)) = Inl (Undefined Out_of_bounds)"
  by (rule server_read_overflows_tx_buffer [OF demo_server_rx_pos(1) refl demo_request_at]) (simp_all add: demo_simps)

text \<open>
  C19: a write to an owned mapped device stores the bytes that follow the request in the receive
  buffer, as many as the request's size field says, and answers nothing. The length of the
  message plays no role beyond its minimum of 8: when the size field is larger than the rest of
  the message, bytes of other messages are stored.
\<close>

theorem server_write_correct:
  assumes "command header = HWIO_CMD_WRITE" "8 \<le> unat (body_len header)" "request_at client s r d"
    and "unat (rd_devId r) < MAX_DEVICES"
    and "unat (rd_addr r) + unat (rd_size r) \<le> mmap_limit d (world s)"
    and "rx_pos s + 8 + unat (rd_size r) \<le> acap (rx_mem client)"
  shows "\<exists>w'. handle_msg mmap_ops client header s =
      (Inr \<lparr>disconnect = False, tx_size = 0\<rparr>, client, s\<lparr>world := w'\<rparr>) \<and>
    mmap_contents d w' = mem_store (mmap_contents d (world s)) (unat (rd_addr r))
      (abytes (rx_mem client) (rx_pos s + 8) (unat (rd_size r)))"
proof -
  let ?data = "abytes (rx_mem client) (rx_pos s + 8) (unat (rd_size r))"
  let ?w = "mmap_poke d (unat (rd_addr r)) ?data (world s)"
  have "handle_msg mmap_ops client header s =
      (Inr \<lparr>disconnect = False, tx_size = 0\<rparr>, client, s\<lparr>world := ?w\<rparr>)"
    using mmap_dev.handle_write_ok [OF assms(2,3) _ assms(5,6)] assms(1,4) by (simp add: handle_msg_def)
  moreover have "mmap_contents d ?w = mem_store (mmap_contents d (world s)) (unat (rd_addr r)) ?data"
    using mmap_dev.contents_poke assms(5) by simp
  ultimately show ?thesis by blast
qed

theorem server_write_correct_witness:
  "\<exists>w'. handle_msg mmap_ops
      (demo_client ([3, 10, 0] @ enc_RdReq \<lparr>rd_devId = 0, rd_addr = 16, rd_size = 2\<rparr> @ [0xAA, 0xBB]))
      \<lparr>command = HWIO_CMD_WRITE, body_len = 10\<rparr> (demo_server\<lparr>rx_pos := 0 + 3\<rparr>) =
      (Inr \<lparr>disconnect = False, tx_size = 0\<rparr>,
       demo_client ([3, 10, 0] @ enc_RdReq \<lparr>rd_devId = 0, rd_addr = 16, rd_size = 2\<rparr> @ [0xAA, 0xBB]),
       demo_server\<lparr>rx_pos := 0 + 3, world := w'\<rparr>) \<and>
    mmap_contents 0 w' = mem_store (mmap_contents 0 (world (demo_server\<lparr>rx_pos := 0 + 3\<rparr>)))
      (unat (rd_addr \<lparr>rd_devId = 0, rd_addr = 16, rd_size = 2\<rparr>))
      (abytes (rx_mem (demo_client ([3, 10, 0] @ enc_RdReq \<lparr>rd_devId = 0, rd_addr = 16, rd_size = 2\<rparr> @ [0xAA, 0xBB])))
        (rx_pos (demo_server\<lparr>rx_pos := 0 + 3\<rparr>) + 8) (unat (rd_size \<lparr>rd_devId = 0, rd_addr = 16, rd_size = 2\<rparr>)))"
  by (rule server_write_correct [OF _ _ demo_request_at]) (simp_all add: demo_simps demo_client_at_def)

text \<open>
  C39: the size of a write request is not checked against the message: a request whose size field
  reaches beyond the receive buffer makes the server read past the end of that buffer.
\<close>

theorem server_write_overruns_rx_buffer:
  assumes "command header = HWIO_CMD_WRITE" "8 \<le> unat (body_len header)" "request_at client s r d"
    and "unat (rd_devId r) < MAX_DEVICES" "0 < unat (rd_size r)"
    and "unat (rd_addr r) + unat (rd_size r) \<le> mmap_limit d (world s)"
    and "acap (rx_mem client) < rx_pos s + 8 + unat (rd_size r)"
  shows "fst (handle_msg mmap_ops client header s) = Inl (Undefined Out_of_bounds)"
  using mmap_dev.handle_write_overrun [OF assms(2,3) _ assms(6,7,5)] assms(1,4)
  by (simp add: handle_msg_def)

theorem server_write_overruns_rx_buffer_witness:
  "fst (handle_msg mmap_ops
      (demo_client_at 65520 ([3, 8, 0] @ enc_RdReq \<lparr>rd_devId = 0, rd_addr = 0, rd_size = 4096\<rparr> @ []))
      \<lparr>command = HWIO_CMD_WRITE, body_len = 8\<rparr> (demo_server\<lparr>rx_pos := 65520 + 3\<rparr>)) = Inl (Undefined Out_of_bounds)"
  by (rule server_write_overruns_rx_buffer [OF _ _ demo_request_at]) (simp_all add: demo_simps demo_client_at_def)

end
