(* ===== verification/Hwio_Query_Laws.thy ===== *)
theory Hwio_Query_Laws
  imports Hwio_Server_Laws
begin

text \<open>
  Device queries (\<open>src/src/server/hwio_server_query.cpp\<close>): the specifications read from a query are
  the ones written into it, and the table of device ids of a client is a partial map from ids to
  devices that a query only extends. The lemmas on the table hold for every set of devices that
  can be attached (locale \<open>attachable\<close>); mapped devices are one.
\<close>

section \<open>Reading the specifications of a query\<close>

text \<open>The strings a query item carries unchanged.\<close>

definition spec_fits :: "hwio_comp_spec \<Rightarrow> bool" where
  "spec_fits s \<longleftrightarrow> (\<forall>t \<in> {spec_name s, spec_vendor s, spec_type s}. no_nul t \<and> length t < MAX_NAME_LEN)"

lemma extract_item_enc:
  assumes "spec_fits s" "abytes rx p 396 = enc_query_item s" "p + 396 \<le> acap rx"
  shows "extract_item rx p = Inr s"
proof -
  note parts = assms(2) [unfolded enc_query_item_def]
  note p1 = abytes_appendD [OF parts] and p2 = abytes_appendD [OF abytes_appendD(2) [OF parts]]
  note p3 = abytes_appendD [OF p2(2)]
  have "cstr_at rx p = Inr (spec_name s)" "cstr_at rx (p + 128) = Inr (spec_vendor s)"
      "cstr_at rx (p + 256) = Inr (spec_type s)"
    using p1 p2 p3 assms(1,3) by (auto simp: spec_fits_def add.commute [of 256] intro!: cstr_at_strncpy [where n = 128])
  moreover have "aload rx (p + 384) 12 = Inr (enc_version (spec_version s))"
    using p3 assms(3) by (simp add: aload_ok add.commute [of 384])
  moreover have "dec_version (enc_version (spec_version s)) = spec_version s"
    using dec_enc_version [of "spec_version s" "[]"] by simp
  ultimately show ?thesis
    by (simp add: extract_item_def name_set_def hwio_comp_spec_ctor_def)
qed

lemma extract_specs_enc:
  assumes "list_all spec_fits specs" "abytes rx p (396 * length specs) = concat (map enc_query_item specs)"
    and "p + 396 * length specs \<le> acap rx"
  shows "extractSpecFromClientQuery rx p (length specs) = Inr specs"
  using assms
proof (induction specs arbitrary: p)
  case (Cons s specs)
  have parts: "abytes rx p (396 * length (s # specs)) = enc_query_item s @ concat (map enc_query_item specs)"
    using Cons.prems(2) by simp
  have len: "length (concat (map enc_query_item specs)) = 396 * length specs"
    by (induction specs) simp_all
  have "extract_item rx p = Inr s"
    using Cons.prems abytes_appendD [OF parts] by (intro extract_item_enc) simp_all
  moreover have "extractSpecFromClientQuery rx (p + 396) (length specs) = Inr specs"
    using Cons.prems abytes_appendD(2) [OF parts] by (intro Cons.IH) (simp_all add: len)
  ultimately show ?case by simp
qed simp

section \<open>The table of device ids\<close>

text \<open>The table as a partial map from ids to devices.\<close>

definition owned :: "'d option list \<Rightarrow> nat \<rightharpoonup> 'd" where
  "owned devices i = (if i < length devices then devices ! i else None)"

lemma client_get_dev_owned: "client_get_dev client devId = owned (ci_devices client) (unat devId)"
  by (simp add: client_get_dev_def owned_def)

lemma owned_append: "owned (devices @ [Some d]) = (owned devices)(length devices \<mapsto> d)"
  by (auto simp: owned_def fun_eq_iff nth_append)

lemma owned_update: "i < length devices \<Longrightarrow> owned (devices[i := Some d]) = (owned devices)(i \<mapsto> d)"
  by (auto simp: owned_def fun_eq_iff)

lemma ran_owned: "d \<in> ran (owned devices) \<longleftrightarrow> Some d \<in> set devices"
  by (auto simp: ran_def owned_def in_set_conv_nth split: if_splits)

text \<open>What registering a device does to the map: its id is the old one, or a free one.\<close>

definition registered :: "'d \<Rightarrow> (nat \<rightharpoonup> 'd) \<Rightarrow> nat \<Rightarrow> (nat \<rightharpoonup> 'd) \<Rightarrow> bool" where
  "registered d t i t' \<longleftrightarrow>
     t' = t(i \<mapsto> d) \<and> (t i = Some d \<or> t i = None \<and> d \<notin> ran t)"

lemma registered_map_le: "registered d t i t' \<Longrightarrow> t \<subseteq>\<^sub>m t' \<and> t' i = Some d"
  by (auto simp: registered_def map_le_def)

lemma registered_inj:
  assumes "registered d t i t'" "inj_on t (dom t)"
  shows "inj_on t' (dom t')"
  using assms unfolding registered_def inj_on_def by (auto simp: ran_def) (metis domI)+

lemma find_dev_found:
  "Some dev \<in> set devices \<Longrightarrow>
   \<exists>e. find_dev dev devices i fe = (True, i + word_of_nat (length (takeWhile (\<lambda>x. x \<noteq> Some dev) devices)), e)"
proof (induction devices arbitrary: i fe)
  case (Cons x devices)
  show ?case
  proof (cases "x = Some dev")
    case False
    then show ?thesis
      using Cons.prems Cons.IH [of "i + 1"] by (simp add: algebra_simps)
  qed simp
qed simp

lemma find_dev_missing:
  "Some dev \<notin> set devices \<Longrightarrow>
   find_dev dev devices i fe = (False, i + word_of_nat (length devices),
     (case fe of Some e \<Rightarrow> Some e
      | None \<Rightarrow> if None \<in> set devices
                then Some (i + word_of_nat (length (takeWhile (\<lambda>x. x \<noteq> None) devices))) else None))"
  by (induction devices arbitrary: i fe) (auto simp: algebra_simps split: option.split)

lemma takeWhile_hit:
  assumes "x \<in> set xs"
  shows "length (takeWhile (\<lambda>y. y \<noteq> x) xs) < length xs" "xs ! length (takeWhile (\<lambda>y. y \<noteq> x) xs) = x"
proof -
  show len: "length (takeWhile (\<lambda>y. y \<noteq> x) xs) < length xs"
    using assms by (induction xs) auto
  show "xs ! length (takeWhile (\<lambda>y. y \<noteq> x) xs) = x"
    using nth_length_takeWhile [OF len] by simp
qed

lemma unat_u16_of_nat: "n < 65536 \<Longrightarrow> unat (word_of_nat n :: u16) = n"
  by (simp add: unat_of_nat)

text \<open>
  Devices that can be attached: \<open>attach\<close> succeeds, and attaching one of them leaves the others
  attachable.
\<close>

locale attachable =
  fixes ops :: "('w, 'd) dev_ops"
    and ready :: "'d \<Rightarrow> 'w \<Rightarrow> bool"
  assumes attach_ready: "ready d w \<Longrightarrow>
    \<exists>w'. attach ops d w = (Inr (), w') \<and> (\<forall>d'. ready d' w \<longrightarrow> ready d' w')"
begin

lemma register_dev_ok:
  assumes "ready dev w" "length devices < 65536"
  shows "\<exists>i devices' w'. register_dev ops dev devices w = (Inr i, devices', w') \<and>
    registered dev (owned devices) (unat i) (owned devices') \<and> length devices' \<le> Suc (length devices) \<and>
    (\<forall>d'. ready d' w \<longrightarrow> ready d' w')"
proof (cases "Some dev \<in> set devices")
  case True
  let ?k = "length (takeWhile (\<lambda>x. x \<noteq> Some dev) devices)"
  obtain e where "find_dev dev devices 0 None = (True, word_of_nat ?k, e)"
    using find_dev_found [OF True, of 0 None] by auto
  moreover have "owned devices ?k = Some dev" "?k < 65536"
    using takeWhile_hit [OF True] assms(2) by (auto simp: owned_def)
  ultimately show ?thesis
    by (auto simp: register_dev_def registered_def unat_u16_of_nat fun_upd_idem)
next
  case False
  obtain w' where w': "attach ops dev w = (Inr (), w')" "\<forall>d'. ready d' w \<longrightarrow> ready d' w'"
    using attach_ready [OF assms(1)] by blast
  have new: "dev \<notin> ran (owned devices)" using False by (simp add: ran_owned)
  show ?thesis
  proof (cases "None \<in> set devices")
    case True
    let ?k = "length (takeWhile (\<lambda>x. x \<noteq> None) devices)"
    have "find_dev dev devices 0 None = (False, word_of_nat (length devices), Some (word_of_nat ?k))"
      using find_dev_missing [OF False, of 0 None] True by simp
    moreover have "?k < length devices" "owned devices ?k = None"
      using takeWhile_hit [OF True] by (auto simp: owned_def)
    ultimately show ?thesis
      using w' new assms(2)
      by (auto simp: register_dev_def registered_def unat_u16_of_nat owned_update intro!: exI [of _ "word_of_nat ?k"])
  next
    case None: False
    have "find_dev dev devices 0 None = (False, word_of_nat (length devices), None)"
      using find_dev_missing [OF False, of 0 None] None by simp
    then show ?thesis
      using w' new assms(2)
      by (auto simp: register_dev_def registered_def unat_u16_of_nat owned_append)
        (simp add: owned_def)
  qed
qed

text \<open>The loop over the found devices: one id per device, in order, written into \<open>ids\<close>.\<close>

lemma lookup_loop_ok:
  assumes "list_all (\<lambda>d. ready d w) result" "length devices + length result \<le> 65536"
    and "3 + 2 * (k + length result) \<le> acap tx" "abytes tx 1 2 = enc16 len"
  shows "\<exists>ids devices' tx' w'. lookup_loop ops result k len devices tx w =
      (Inr (len + 2 * word_of_nat (length result)), devices', tx', w') \<and>
    list_all2 (\<lambda>i d. owned devices' (unat i) = Some d) ids result \<and>
    owned devices \<subseteq>\<^sub>m owned devices' \<and>
    (inj_on (owned devices) (dom (owned devices)) \<longrightarrow> inj_on (owned devices') (dom (owned devices'))) \<and>
    acap tx' = acap tx \<and> abytes tx' 0 1 = abytes tx 0 1 \<and>
    abytes tx' 1 2 = enc16 (len + 2 * word_of_nat (length result)) \<and>
    abytes tx' 3 (2 * (k + length result)) = abytes tx 3 (2 * k) @ concat (map enc16 ids)"
  using assms
proof (induction result arbitrary: k len devices tx w)
  case (Cons dev result)
  obtain i devices1 w1 where reg: "register_dev ops dev devices w = (Inr i, devices1, w1)"
    and r: "registered dev (owned devices) (unat i) (owned devices1)" "length devices1 \<le> Suc (length devices)"
      "\<forall>d'. ready d' w \<longrightarrow> ready d' w1"
    using register_dev_ok [of dev w devices] Cons.prems by auto
  obtain t1 where t1: "astore tx 1 (enc16 (len + 2)) = Inr t1" "acap t1 = acap tx"
    using Cons.prems(3) by (simp add: astore_def)
  obtain t2 where t2: "astore t1 (3 + 2 * k) (enc16 i) = Inr t2" "acap t2 = acap tx"
    using Cons.prems(3) t1(2) by (simp add: astore_def)
  have bytes: "abytes t2 0 1 = abytes tx 0 1" "abytes t2 1 2 = enc16 (len + 2)"
      "abytes t2 3 (2 * k) = abytes tx 3 (2 * k)" "abytes t2 (3 + 2 * k) 2 = enc16 i"
    using abytes_astore_same [OF t1(1)] abytes_astore_same [OF t2(1)] abytes_astore_other [OF t1(1)]
      abytes_astore_other [OF t2(1)] by simp_all
  have "list_all (\<lambda>d. ready d w1) result"
    using Cons.prems(1) r(3) by (auto simp: list_all_iff)
  then obtain ids devices' tx' w' where ih:
      "lookup_loop ops result (k + 1) (len + 2) devices1 t2 w1 =
        (Inr (len + 2 + 2 * word_of_nat (length result)), devices', tx', w')"
      "list_all2 (\<lambda>i d. owned devices' (unat i) = Some d) ids result"
      "owned devices1 \<subseteq>\<^sub>m owned devices'"
      "inj_on (owned devices1) (dom (owned devices1)) \<longrightarrow> inj_on (owned devices') (dom (owned devices'))"
      "acap tx' = acap tx" "abytes tx' 0 1 = abytes t2 0 1"
      "abytes tx' 1 2 = enc16 (len + 2 + 2 * word_of_nat (length result))"
      "abytes tx' 3 (2 * (k + 1 + length result)) = abytes t2 3 (2 * (k + 1)) @ concat (map enc16 ids)"
    using Cons.IH [of w1 devices1 "k + 1" t2 "len + 2"] Cons.prems(2,3) r(2) t2(2) bytes(2) by auto
  have "owned devices' (unat i) = Some dev"
    using registered_map_le [OF r(1)] ih(3) by (metis domI map_le_def)
  moreover have "abytes t2 3 (2 * (k + 1)) = abytes tx 3 (2 * k) @ enc16 i"
    using abytes_split [of t2 3 "2 * k" 2] bytes(3,4) by simp
  moreover have "owned devices \<subseteq>\<^sub>m owned devices'"
    using registered_map_le [OF r(1)] ih(3) by (blast intro: map_le_trans)
  moreover have "lookup_loop ops (dev # result) k len devices tx w =
      (Inr (len + 2 * word_of_nat (length (dev # result))), devices', tx', w')"
    using reg t1(1) t2(1) ih(1) by (simp add: algebra_simps)
  ultimately show ?case
    using ih registered_inj [OF r(1)] bytes(1)
    by (intro exI [of _ "i # ids"] exI [of _ devices'] exI [of _ tx'] exI [of _ w']) (simp add: algebra_simps)
qed simp

lemma device_lookup_ok:
  assumes "server_wf s" "extractSpecFromClientQuery (rx_mem client) (rx_pos s) cnt = Inr specs"
    and "composite_find_devices (buses s) specs (world s) = (Inr result, w)"
    and "list_all (\<lambda>d. ready d w) result" "length result \<le> 1022"
    and "length (ci_devices client) + length result \<le> 65536"
  shows "\<exists>ids devices t w'. device_lookup_resp ops cnt client s =
      (Inr \<lparr>disconnect = False, tx_size = 3 + 2 * length result\<rparr>, client\<lparr>ci_devices := devices\<rparr>,
       s\<lparr>tx_buffer := t, world := w'\<rparr>) \<and> acap t = 2048 \<and>
    abytes t 0 (3 + 2 * length result) =
      enc_header \<lparr>command = HWIO_CMD_QUERY_RESP, body_len = word_of_nat (2 * length result)\<rparr> @ concat (map enc16 ids) \<and>
    list_all2 (\<lambda>i d. owned devices (unat i) = Some d) ids result \<and>
    owned (ci_devices client) \<subseteq>\<^sub>m owned devices \<and>
    (inj_on (owned (ci_devices client)) (dom (owned (ci_devices client))) \<longrightarrow> inj_on (owned devices) (dom (owned devices)))"
proof -
  obtain t0 where t0: "astore (tx_buffer s) 0 [HWIO_CMD_QUERY_RESP] = Inr t0" "acap t0 = 2048"
    using assms(1) by (simp add: astore_def server_wf_def)
  obtain t1 where t1: "astore t0 1 (enc16 0) = Inr t1" "acap t1 = 2048"
    using t0(2) by (simp add: astore_def)
  have b1: "abytes t1 0 1 = [HWIO_CMD_QUERY_RESP]" "abytes t1 1 2 = enc16 0"
    using abytes_astore_same [OF t0(1)] abytes_astore_same [OF t1(1)] abytes_astore_other [OF t1(1), of 0 1] by simp_all
  let ?len = "word_of_nat (2 * length result) :: u16"
  obtain ids devices t w' where loop: "lookup_loop ops result 0 0 (ci_devices client) t1 w = (Inr ?len, devices, t, w')"
    and ids: "list_all2 (\<lambda>i d. owned devices (unat i) = Some d) ids result"
    and tab: "owned (ci_devices client) \<subseteq>\<^sub>m owned devices"
      "inj_on (owned (ci_devices client)) (dom (owned (ci_devices client))) \<longrightarrow> inj_on (owned devices) (dom (owned devices))"
    and t: "acap t = 2048" "abytes t 0 1 = [HWIO_CMD_QUERY_RESP]" "abytes t 1 2 = enc16 ?len"
      "abytes t 3 (2 * length result) = concat (map enc16 ids)"
    using lookup_loop_ok [OF assms(4,6), of 0 t1 0] assms(5) t1(2) b1 by (auto simp: abytes_def)
  have "abytes t 0 (3 + 2 * length result) = abytes t 0 1 @ abytes t 1 2 @ abytes t 3 (2 * length result)"
    using abytes_split [of t 0 1 "2 + 2 * length result"] abytes_split [of t 1 2 "2 * length result"]
    by (simp add: numeral_3_eq_3)
  moreover have "unat ?len = 2 * length result"
    using assms(5) by (intro unat_u16_of_nat) simp
  ultimately show ?thesis
    using assms(2,3) t0(1) t1(1) loop ids tab t
    by (intro exI [of _ ids] exI [of _ devices] exI [of _ t] exI [of _ w'])
      (simp add: device_lookup_resp_def enc_header_def)
qed

end

section \<open>Queries for mapped devices\<close>

text \<open>A mapped device that is attached, or whose memory file can be opened and mapped.\<close>

definition mmap_ready :: "nat \<Rightarrow> mmap_world \<Rightarrow> bool" where
  "mmap_ready d w =
     (case dev_heap w d of
        None \<Rightarrow> False
      | Some dv \<Rightarrow> 0 \<le> mm_fd dv \<or>
          0 < os_open w (mem_file_name dv) \<and>
          os_mmap w (mem_file_name dv) (addr_space_size dv) (unat (page_addr dv)))"

interpretation mmap_attachable: attachable mmap_ops mmap_ready
proof
  show "\<exists>w'. attach mmap_ops d w = (Inr (), w') \<and> (\<forall>d'. mmap_ready d' w \<longrightarrow> mmap_ready d' w')"
    if "mmap_ready d w" for d w
    using that
    by (auto simp: mmap_ready_def mmap_ops_def mmap_attach_def put_dev_def Let_def split: option.splits)
qed

text \<open>A query for \<open>specs\<close> at the current message.\<close>

definition query_at :: "'d ClientInfo \<Rightarrow> ('w, 'd) HwioServer \<Rightarrow> hwio_comp_spec list \<Rightarrow> bool" where
  "query_at client s specs \<longleftrightarrow>
     list_all spec_fits specs \<and> rx_pos s + 396 * length specs \<le> acap (rx_mem client) \<and>
     abytes (rx_mem client) (rx_pos s) (396 * length specs) = concat (map enc_query_item specs)"

lemma handle_query_correct:
  assumes "server_wf s" "query_at client s specs" "0 < length specs" "length specs \<le> MAX_ITEMS_PER_QUERY"
    and "header = \<lparr>command = HWIO_CMD_QUERY, body_len = word_of_nat (396 * length specs)\<rparr>"
    and "composite_find_devices (buses s) specs (world s) = (Inr result, w)"
    and "list_all (\<lambda>d. mmap_ready d w) result" "length result \<le> 1022"
    and "length (ci_devices client) + length result \<le> 65536"
    and "inj_on (owned (ci_devices client)) (dom (owned (ci_devices client)))"
  shows "\<exists>ids client' t w'. handle_msg mmap_ops client header s =
      (Inr \<lparr>disconnect = False, tx_size = 3 + 2 * length result\<rparr>, client', s\<lparr>tx_buffer := t, world := w'\<rparr>) \<and>
    abytes t 0 (3 + 2 * length result) =
      enc_header \<lparr>command = HWIO_CMD_QUERY_RESP, body_len = word_of_nat (2 * length result)\<rparr> @ concat (map enc16 ids) \<and>
    map (client_get_dev client') ids = map Some result \<and>
    (\<forall>i d. client_get_dev client i = Some d \<longrightarrow> client_get_dev client' i = Some d) \<and>
    inj_on (owned (ci_devices client')) (dom (owned (ci_devices client'))) \<and> acap t = 2048"
proof -
  have "unat (word_of_nat (396 * length specs) :: u16) = 396 * length specs"
    using assms(4) by (intro unat_u16_of_nat) simp
  then have msg: "handle_msg mmap_ops client header s = device_lookup_resp mmap_ops (length specs) client s"
    using assms(3-5) by (auto simp: handle_msg_def handle_query_def Let_def)
  have "extractSpecFromClientQuery (rx_mem client) (rx_pos s) (length specs) = Inr specs"
    using assms(2) by (intro extract_specs_enc) (simp_all add: query_at_def)
  from mmap_attachable.device_lookup_ok [OF assms(1) this assms(6-9)]
  obtain ids devices t w' where r: "handle_msg mmap_ops client header s =
      (Inr \<lparr>disconnect = False, tx_size = 3 + 2 * length result\<rparr>, client\<lparr>ci_devices := devices\<rparr>,
       s\<lparr>tx_buffer := t, world := w'\<rparr>)"
    "abytes t 0 (3 + 2 * length result) =
      enc_header \<lparr>command = HWIO_CMD_QUERY_RESP, body_len = word_of_nat (2 * length result)\<rparr> @ concat (map enc16 ids)"
    "list_all2 (\<lambda>i d. owned devices (unat i) = Some d) ids result"
    "owned (ci_devices client) \<subseteq>\<^sub>m owned devices" "inj_on (owned devices) (dom (owned devices))" "acap t = 2048"
    using assms(10) by (auto simp: msg)
  have "map (client_get_dev (client\<lparr>ci_devices := devices\<rparr>)) ids = map Some result"
    using r(3) by (simp add: client_get_dev_owned list_eq_iff_nth_eq list_all2_conv_all_nth)
  moreover have "client_get_dev (client\<lparr>ci_devices := devices\<rparr>) i = Some d" if "client_get_dev client i = Some d" for i d
    using that r(4) by (simp add: client_get_dev_owned) (metis domI map_le_def)
  ultimately show ?thesis
    using r(1,2,5,6) by (intro exI [of _ ids] exI [of _ "client\<lparr>ci_devices := devices\<rparr>"] exI [of _ t] exI [of _ w']) simp
qed

text \<open>
  C15: a query of one to five specifications is answered by one id per device the buses find, in
  their order. Each id names its device in the client's table afterwards, ids given out before
  keep their devices, and no device has two ids.
\<close>

theorem server_query_correct:
  assumes "server_wf s" "query_at client s specs" "0 < length specs" "length specs \<le> MAX_ITEMS_PER_QUERY"
    and "header = \<lparr>command = HWIO_CMD_QUERY, body_len = word_of_nat (396 * length specs)\<rparr>"
    and "composite_find_devices (buses s) specs (world s) = (Inr result, w)"
    and "list_all (\<lambda>d. mmap_ready d w) result" "length result \<le> 1022"
    and "length (ci_devices client) + length result \<le> 65536"
    and "inj_on (owned (ci_devices client)) (dom (owned (ci_devices client)))"
  shows "\<exists>ids client' t w'. handle_msg mmap_ops client header s =
      (Inr \<lparr>disconnect = False, tx_size = 3 + 2 * length result\<rparr>, client', s\<lparr>tx_buffer := t, world := w'\<rparr>) \<and>
    abytes t 0 (3 + 2 * length result) =
      enc_header \<lparr>command = HWIO_CMD_QUERY_RESP, body_len = word_of_nat (2 * length result)\<rparr> @ concat (map enc16 ids) \<and>
    map (client_get_dev client') ids = map Some result \<and>
    (\<forall>i d. client_get_dev client i = Some d \<longrightarrow> client_get_dev client' i = Some d) \<and>
    inj_on (owned (ci_devices client')) (dom (owned (ci_devices client'))) \<and> acap t = 2048"
  by (rule handle_query_correct [OF assms])

definition demo_spec :: hwio_comp_spec where
  "demo_spec = name_set ''eth0'' (hwio_comp_spec_ctor ''xlnx'' ''axi-ethernet'' (hwio_version_ctor 1 0 97))"

definition demo_query_server :: "(mmap_world, nat) HwioServer" where
  "demo_query_server = demo_server\<lparr>world := demo_world (demo_dev\<lparr>mm_spec := [demo_spec]\<rparr>) True\<rparr>"

definition demo_query_client :: "nat ClientInfo" where
  "demo_query_client = (demo_client ([6, 140, 1] @ enc_query_item demo_spec))\<lparr>ci_devices := []\<rparr>"

lemma demo_query_at: "query_at demo_query_client demo_query_server [demo_spec]"
proof -
  have "abytes (rx_mem demo_query_client) 3 396 = enc_query_item demo_spec"
    using demo_client_bytes [of 3 396 "[6, 140, 1] @ enc_query_item demo_spec" 0] by (simp add: demo_query_client_def)
  moreover have "spec_fits demo_spec"
    by (simp add: spec_fits_def demo_spec_def name_set_def hwio_comp_spec_ctor_def no_nul_def)
  ultimately show ?thesis
    by (simp add: query_at_def demo_query_server_def demo_server_def)
      (simp add: demo_query_client_def demo_client_at_def)
qed

lemma demo_query_found:
  "composite_find_devices (buses demo_query_server) [demo_spec] (world demo_query_server) =
     (Inr [0], world demo_query_server)"
  by (simp add: composite_find_devices_def primitive_find_devices_def filter_device_eq dev_selected_def
      demo_query_server_def demo_server_def demo_world_def mmap_ops_def mmap_get_spec_def demo_spec_def
      hwio_comp_spec_eq_def name_set_def hwio_comp_spec_ctor_def)

theorem server_query_correct_witness:
  "\<exists>ids client' t w'. handle_msg mmap_ops demo_query_client
      \<lparr>command = HWIO_CMD_QUERY, body_len = word_of_nat (396 * length [demo_spec])\<rparr> demo_query_server =
      (Inr \<lparr>disconnect = False, tx_size = 3 + 2 * length [0 :: nat]\<rparr>, client', demo_query_server\<lparr>tx_buffer := t, world := w'\<rparr>) \<and>
    abytes t 0 (3 + 2 * length [0 :: nat]) =
      enc_header \<lparr>command = HWIO_CMD_QUERY_RESP, body_len = word_of_nat (2 * length [0 :: nat])\<rparr> @ concat (map enc16 ids) \<and>
    map (client_get_dev client') ids = map Some [0] \<and>
    (\<forall>i d. client_get_dev demo_query_client i = Some d \<longrightarrow> client_get_dev client' i = Some d) \<and>
    inj_on (owned (ci_devices client')) (dom (owned (ci_devices client'))) \<and> acap t = 2048"
proof (rule server_query_correct [OF _ demo_query_at _ _ refl demo_query_found])
  show "server_wf demo_query_server" by (simp add: demo_query_server_def demo_server_def server_wf_def)
  show "list_all (\<lambda>d. mmap_ready d (world demo_query_server)) [0]"
    by (simp add: mmap_ready_def demo_query_server_def demo_world_def)
qed (simp_all add: demo_query_client_def inj_on_def owned_def dom_def)

end
