(* ===== verification/Hwio_Rpc_Laws.thy ===== *)
theory Hwio_Rpc_Laws
  imports Hwio_Query_Laws
begin

text \<open>
  Remote calls (\<open>install_plugin_fn\<close> in \<open>src/src/server/hwio_server.h\<close>,
  \<open>src/src/server/hwio_server_remote_call.cpp\<close>): which installed function a call by name, a request
  for a function id, and a call by id reach.
\<close>

section \<open>Installed functions\<close>

text \<open>A server on which the functions \<open>ps\<close> were installed one after the other.\<close>

definition install_all ::
  "(string \<times> ('w, 'd) plugin_info) list \<Rightarrow> ('w, 'd) HwioServer \<Rightarrow> ('w, 'd) HwioServer" where
  "install_all ps s = foldl (\<lambda>s (n, p). install_plugin_fn n p s) s ps"

definition no_plugins :: "('w, 'd) HwioServer \<Rightarrow> bool" where
  "no_plugins s \<longleftrightarrow> plugins s = [] \<and> plugins_fast s = [] \<and> plugins_fast_names s = []"

lemma install_all_tables:
  "plugins_fast (install_all ps s) = plugins_fast s @ map snd ps"
  "plugins_fast_names (install_all ps s) = plugins_fast_names s @ map fst ps"
  "map_of (plugins (install_all ps s)) n = (case map_of (rev ps) n of None \<Rightarrow> map_of (plugins s) n | Some p \<Rightarrow> Some p)"
  by (induction ps arbitrary: s)
    (auto simp: install_all_def install_plugin_fn_def update_conv' map_add_def split: option.splits)

lemma install_all_other [simp]:
  "rx_pos (install_all ps s) = rx_pos s" "tx_buffer (install_all ps s) = tx_buffer s"
  by (induction ps arbitrary: s) (auto simp: install_all_def install_plugin_fn_def)

lemma server_wf_install_all [simp]: "server_wf (install_all ps s) = server_wf s"
  by (simp add: server_wf_def)

lemma find_fn_first:
  "find_fn n names i =
     (if n \<in> set names then Some (i + word_of_nat (length (takeWhile (\<lambda>m. m \<noteq> n) names))) else None)"
  by (induction names arbitrary: i) (auto simp: algebra_simps)

lemma map_of_first:
  "n \<in> fst ` set ps \<Longrightarrow> map_of ps n = Some (snd (ps ! length (takeWhile (\<lambda>m. m \<noteq> n) (map fst ps))))"
  by (induction ps) auto

lemma map_of_rev_distinct: "distinct (map fst ps) \<Longrightarrow> map_of (rev ps) = map_of ps"
  by (subst map_of_inject_set) (simp_all flip: rev_map)

section \<open>Requests\<close>

text \<open>A request whose body starts with an owned device and the bytes \<open>what\<close>.\<close>

definition rpc_at :: "'d ClientInfo \<Rightarrow> ('w, 'd) HwioServer \<Rightarrow> 'd \<Rightarrow> byte list \<Rightarrow> bool" where
  "rpc_at client s dev what \<longleftrightarrow>
     (\<exists>i. abytes (rx_mem client) (rx_pos s) (2 + length what) = enc16 i @ what \<and>
          rx_pos s + 2 + length what \<le> acap (rx_mem client) \<and> client_get_dev client i = Some dev)"

lemma rpc_atD:
  assumes "rpc_at client s dev what"
  obtains i where "aload (rx_mem client) (rx_pos s) 2 = Inr (enc16 i)" "client_get_dev client i = Some dev"
    "abytes (rx_mem client) (rx_pos s + 2) (length what) = what" "rx_pos s + 2 + length what \<le> acap (rx_mem client)"
proof -
  from assms obtain i where i: "abytes (rx_mem client) (rx_pos s) (2 + length what) = enc16 i @ what"
      "rx_pos s + 2 + length what \<le> acap (rx_mem client)" "client_get_dev client i = Some dev"
    by (auto simp: rpc_at_def)
  show thesis
    using abytes_appendD [OF i(1)] i(2,3) by (intro that [of i]) (simp_all add: aload_ok)
qed

lemma named_call_dispatch:
  assumes "rpc_at client s dev (strncpy_bytes 128 n)" "no_nul n" "length n < 128"
    and "129 \<le> unat (body_len header)" "map_of (plugins s) n = Some p"
  shows "handle_remote_call client header s = call_plugin p dev (rx_pos s + 130) client s"
  using assms(1)
proof (rule rpc_atD)
  fix i assume i: "aload (rx_mem client) (rx_pos s) 2 = Inr (enc16 i)" "client_get_dev client i = Some dev"
    "abytes (rx_mem client) (rx_pos s + 2) (length (strncpy_bytes 128 n)) = strncpy_bytes 128 n"
    "rx_pos s + 2 + length (strncpy_bytes 128 n) \<le> acap (rx_mem client)"
  then have "cstr_at (rx_mem client) (rx_pos s + 2) = Inr n"
    using assms(2,3) by (intro cstr_at_strncpy [where n = 128]) simp_all
  with i assms show ?thesis by (simp add: handle_remote_call_def)
qed

lemma fast_call_dispatch:
  assumes "rpc_at client s dev (enc32 k)" "5 \<le> unat (body_len header)" "unat k < length (plugins_fast s)"
  shows "handle_fast_remote_call client header s = call_plugin (plugins_fast s ! unat k) dev (rx_pos s + 6) client s"
  using assms(1)
proof (rule rpc_atD)
  fix i assume i: "aload (rx_mem client) (rx_pos s) 2 = Inr (enc16 i)" "client_get_dev client i = Some dev"
    "abytes (rx_mem client) (rx_pos s + 2) (length (enc32 k)) = enc32 k"
    "rx_pos s + 2 + length (enc32 k) \<le> acap (rx_mem client)"
  then have "aload (rx_mem client) (rx_pos s + 2) 4 = Inr (enc32 k)"
    by (simp add: aload_ok)
  with i assms(2,3) show ?thesis by (simp add: handle_fast_remote_call_def)
qed

lemma fn_id_reply:
  assumes "server_wf s" "rpc_at client s dev (strncpy_bytes 128 n)" "no_nul n" "length n < 128"
    and "130 \<le> unat (body_len header)"
  shows "\<exists>t. handle_get_rpc_fn_id client header s =
      (Inr \<lparr>disconnect = False, tx_size = 8\<rparr>, client, s\<lparr>tx_buffer := t\<rparr>) \<and> acap t = 2048 \<and>
    abytes t 0 8 = enc_header \<lparr>command = HWIO_CMD_GET_REMOTE_CALL_ID_RESP, body_len = 5\<rparr> @
      (case find_fn n (plugins_fast_names s) 0 of
         None \<Rightarrow> enc_GetRemoteCallIdResp False (- 1) | Some k \<Rightarrow> enc_GetRemoteCallIdResp True k)"
  using assms(2)
proof (rule rpc_atD)
  let ?h = "enc_header \<lparr>command = HWIO_CMD_GET_REMOTE_CALL_ID_RESP, body_len = 5\<rparr>"
  fix i assume i: "aload (rx_mem client) (rx_pos s) 2 = Inr (enc16 i)" "client_get_dev client i = Some dev"
    "abytes (rx_mem client) (rx_pos s + 2) (length (strncpy_bytes 128 n)) = strncpy_bytes 128 n"
    "rx_pos s + 2 + length (strncpy_bytes 128 n) \<le> acap (rx_mem client)"
  then have nm: "cstr_at (rx_mem client) (rx_pos s + 2) = Inr n"
    using assms(3,4) by (intro cstr_at_strncpy [where n = 128]) simp_all
  obtain t where t: "astore (tx_buffer s) 0 (?h @ enc_GetRemoteCallIdResp False (- 1)) = Inr t" "acap t = 2048"
    using assms(1) by (simp add: astore_def server_wf_def)
  have t8: "abytes t 0 8 = ?h @ enc_GetRemoteCallIdResp False (- 1)"
    using abytes_astore_same [OF t(1)] by simp
  show ?thesis
  proof (cases "find_fn n (plugins_fast_names s) 0")
    case None
    with i nm t t8 assms(5) show ?thesis by (intro exI [of _ t]) (simp add: handle_get_rpc_fn_id_def)
  next
    case (Some k)
    obtain t' where t': "astore t 3 (enc_GetRemoteCallIdResp True k) = Inr t'" "acap t' = 2048"
      using t(2) by (simp add: astore_def)
    have "abytes t' 0 3 = ?h" "abytes t' 3 5 = enc_GetRemoteCallIdResp True k"
      using abytes_astore_same [OF t'(1)] abytes_astore_other [OF t'(1), of 0 3] abytes_appendD [OF t8] by simp_all
    then have "abytes t' 0 8 = ?h @ enc_GetRemoteCallIdResp True k"
      using abytes_split [of t' 0 3 5] by simp
    with Some i nm t t' assms(5) show ?thesis by (intro exI [of _ t']) (simp add: handle_get_rpc_fn_id_def)
  qed
qed

text \<open>
  C24: on a server with any sequence of installed functions, a call by name reaches the function
  installed last under that name; a request for the id of the name is answered with the position
  of the function installed first, which is the function a call by that id reaches. With distinct
  names both are the same function.
\<close>

theorem rpc_by_name_and_by_id:
  assumes "server_wf s" "no_plugins s" "length ps < 2 ^ 32" "n \<in> set (map fst ps)" "no_nul n" "length n < MAX_NAME_LEN"
    and "rpc_at client1 (install_all ps s) dev (strncpy_bytes MAX_NAME_LEN n)"
    and "k = word_of_nat (length (takeWhile (\<lambda>m. m \<noteq> n) (map fst ps)))"
    and "rpc_at client2 (install_all ps s) dev (enc32 k)"
  shows "handle_msg ops client1 \<lparr>command = HWIO_CMD_REMOTE_CALL, body_len = 130\<rparr> (install_all ps s) =
      call_plugin (the (map_of (rev ps) n)) dev (rx_pos s + 130) client1 (install_all ps s) \<and>
    (\<exists>t. handle_msg ops client1 \<lparr>command = HWIO_CMD_GET_REMOTE_CALL_ID, body_len = 130\<rparr> (install_all ps s) =
        (Inr \<lparr>disconnect = False, tx_size = 8\<rparr>, client1, (install_all ps s)\<lparr>tx_buffer := t\<rparr>) \<and>
      abytes t 0 8 = enc_header \<lparr>command = HWIO_CMD_GET_REMOTE_CALL_ID_RESP, body_len = 5\<rparr> @ enc_GetRemoteCallIdResp True k) \<and>
    handle_msg ops client2 \<lparr>command = HWIO_CMD_REMOTE_CALL_FAST, body_len = 6\<rparr> (install_all ps s) =
      call_plugin (the (map_of ps n)) dev (rx_pos s + 6) client2 (install_all ps s) \<and>
    (distinct (map fst ps) \<longrightarrow> map_of (rev ps) n = map_of ps n)"
proof (intro conjI impI)
  let ?s = "install_all ps s" and ?j = "length (takeWhile (\<lambda>m. m \<noteq> n) (map fst ps))"
  have tabs: "plugins_fast ?s = map snd ps" "plugins_fast_names ?s = map fst ps" "map_of (plugins ?s) n = map_of (rev ps) n"
    using assms(2) by (auto simp: no_plugins_def install_all_tables split: option.split)
  have "map_of (rev ps) n = Some (the (map_of (rev ps) n))"
    using assms(4) by (cases "map_of (rev ps) n") (auto simp: map_of_eq_None_iff)
  then show "handle_msg ops client1 \<lparr>command = HWIO_CMD_REMOTE_CALL, body_len = 130\<rparr> ?s =
      call_plugin (the (map_of (rev ps) n)) dev (rx_pos s + 130) client1 ?s"
    using named_call_dispatch [of client1 ?s dev n "\<lparr>command = HWIO_CMD_REMOTE_CALL, body_len = 130\<rparr>" "the (map_of (rev ps) n)"]
      assms(5-7) tabs(3) by (simp add: handle_msg_def)
  have "find_fn n (plugins_fast_names ?s) 0 = Some k"
    using assms(4,8) by (simp add: find_fn_first tabs)
  then show "\<exists>t. handle_msg ops client1 \<lparr>command = HWIO_CMD_GET_REMOTE_CALL_ID, body_len = 130\<rparr> ?s =
        (Inr \<lparr>disconnect = False, tx_size = 8\<rparr>, client1, ?s\<lparr>tx_buffer := t\<rparr>) \<and>
      abytes t 0 8 = enc_header \<lparr>command = HWIO_CMD_GET_REMOTE_CALL_ID_RESP, body_len = 5\<rparr> @ enc_GetRemoteCallIdResp True k"
    using fn_id_reply [of ?s client1 dev n "\<lparr>command = HWIO_CMD_GET_REMOTE_CALL_ID, body_len = 130\<rparr>"] assms(1,5-7)
    by (auto simp: handle_msg_def)
  have j: "?j < length ps" using takeWhile_hit(1) [OF assms(4)] by simp
  then have "unat k = ?j" using assms(3,8) by (simp add: unat_of_nat)
  then show "handle_msg ops client2 \<lparr>command = HWIO_CMD_REMOTE_CALL_FAST, body_len = 6\<rparr> ?s =
      call_plugin (the (map_of ps n)) dev (rx_pos s + 6) client2 ?s"
    using fast_call_dispatch [OF assms(9), of "\<lparr>command = HWIO_CMD_REMOTE_CALL_FAST, body_len = 6\<rparr>"] j assms(4)
    by (simp add: handle_msg_def tabs map_of_first)
  show "map_of (rev ps) n = map_of ps n" if "distinct (map fst ps)"
    using map_of_rev_distinct [OF that] by simp
qed

text \<open>Two functions under the same name, for the witness.\<close>

definition demo_plugin :: "nat \<Rightarrow> (mmap_world, nat) plugin_info" where
  "demo_plugin r = \<lparr>pl_fn = (\<lambda>dev args i ret j w. case astore ret j (enc32 (word_of_nat r)) of
       Inl e \<Rightarrow> (Inl e, ret, w) | Inr ret' \<Rightarrow> (Inr (), ret', w)),
     pl_what = (\<lambda>_. []), pl_args_size = 0, pl_ret_size = 4\<rparr>"

lemma demo_rpc_at:
  assumes "length what \<le> 128"
  shows "rpc_at (demo_client ([0, 0, 0] @ enc16 0 @ what)) (install_all ps demo_server) 0 what"
  unfolding rpc_at_def
  using assms demo_client_bytes [of 3 "2 + length what" "[0, 0, 0] @ enc16 0 @ what" 0]
  by (intro exI [of _ 0]) (simp add: demo_server_def demo_client_at_def client_get_dev_def)

theorem rpc_by_name_and_by_id_witness:
  "let ps = [(''sum'', demo_plugin 1), (''sum'', demo_plugin 2)]; s = install_all ps demo_server;
       client1 = demo_client ([0, 0, 0] @ enc16 0 @ strncpy_bytes MAX_NAME_LEN ''sum'');
       client2 = demo_client ([0, 0, 0] @ enc16 0 @ enc32 0)
   in handle_msg mmap_ops client1 \<lparr>command = HWIO_CMD_REMOTE_CALL, body_len = 130\<rparr> s =
        call_plugin (demo_plugin 2) 0 133 client1 s \<and>
      handle_msg mmap_ops client2 \<lparr>command = HWIO_CMD_REMOTE_CALL_FAST, body_len = 6\<rparr> s =
        call_plugin (demo_plugin 1) 0 9 client2 s"
proof -
  have np: "no_plugins demo_server" and pos: "rx_pos demo_server = 3"
    by (simp_all add: no_plugins_def demo_server_def)
  show ?thesis
    using rpc_by_name_and_by_id [where ps = "[(''sum'', demo_plugin 1), (''sum'', demo_plugin 2)]" and n = "''sum''"
        and ops = mmap_ops and k = 0, OF demo_server_wf np _ _ _ _ demo_rpc_at _ demo_rpc_at]
    by (simp add: Let_def no_nul_def pos)
qed

end
