(* ===== verification/Hwio_Net.thy ===== *)
theory Hwio_Net
  imports Hwio_Wire
begin

text \<open>
  Sockets as the code sees them: for each file descriptor the answers the following calls of
  \<open>recv\<close> and \<open>send\<close> will get, and the bytes handed to the kernel so far. A loop that retries on an
  answer takes the next one; when no answer is left the call never returns, which is the value
  \<open>None\<close>.
\<close>

section \<open>Answers of the operating system\<close>

datatype recv_event =
    Recv_data "byte list"   \<comment> \<open>that many bytes are there to be received\<close>
  | Recv_again              \<comment> \<open>\<open>EAGAIN\<close> or \<open>EWOULDBLOCK\<close>\<close>
  | Recv_intr               \<comment> \<open>\<open>EINTR\<close>\<close>
  | Recv_error              \<comment> \<open>any other error\<close>
  | Recv_eof                \<comment> \<open>the peer has closed the connection\<close>

datatype send_event =
    Send_some nat           \<comment> \<open>there is room for that many bytes\<close>
  | Send_again
  | Send_intr
  | Send_error

record sockets =
  rx_events :: "int \<Rightarrow> recv_event list"
  tx_events :: "int \<Rightarrow> send_event list"
  tx_data :: "int \<Rightarrow> byte list"
  closed_fds :: "int list"

datatype recv_result = Received "byte list" | Received_0 | Recv_failed

text \<open>
  One call of \<open>recv\<close> for at most \<open>n\<close> bytes: what it returns and the answers that remain. Data that
  does not fit stays there; with \<open>n = 0\<close> the call returns 0.
\<close>

fun recv1 :: "nat \<Rightarrow> recv_event \<Rightarrow> recv_event list \<Rightarrow> recv_result \<times> recv_event list" where
  "recv1 n (Recv_data bs) es =
     ((if take n bs = [] then Received_0 else Received (take n bs)),
      (if drop n bs = [] then es else Recv_data (drop n bs) # es))"
| "recv1 n Recv_eof es = (Received_0, Recv_eof # es)"
| "recv1 n _ es = (Recv_failed, es)"

section \<open>Loops of the server\<close>

text \<open>The loop of \<open>read_from_socket\<close>: \<open>EAGAIN\<close> and \<open>EINTR\<close> are retried at once.\<close>

fun recv_loop :: "nat \<Rightarrow> recv_event list \<Rightarrow> (recv_result \<times> recv_event list) option" where
  "recv_loop n [] = None"
| "recv_loop n (Recv_again # es) = recv_loop n es"
| "recv_loop n (Recv_intr # es) = recv_loop n es"
| "recv_loop n (e # es) = Some (recv1 n e es)"

text \<open>
  The loop that sends a response: whether all of it was sent, the bytes sent, and the answers that
  remain. Any error but a retry ends it.
\<close>

fun send_loop :: "send_event list \<Rightarrow> byte list \<Rightarrow> (bool \<times> byte list \<times> send_event list) option" where
  "send_loop es [] = Some (True, [], es)"
| "send_loop [] (b # bs) = None"
| "send_loop (Send_again # es) (b # bs) = send_loop es (b # bs)"
| "send_loop (Send_intr # es) (b # bs) = send_loop es (b # bs)"
| "send_loop (Send_error # es) (b # bs) = Some (False, [], es)"
| "send_loop (Send_some k # es) (b # bs) =
     (if length (b # bs) < k then Some (True, b # bs, Send_some (k - length (b # bs)) # es)
      else case send_loop es (drop k (b # bs)) of
        None \<Rightarrow> None
      | Some (ok, sent, es') \<Rightarrow> Some (ok, take k (b # bs) @ sent, es'))"

definition sock_send :: "int \<Rightarrow> byte list \<Rightarrow> sockets \<Rightarrow> (bool \<times> sockets) option" where
  "sock_send fd bs n =
     (case send_loop (tx_events n fd) bs of
        None \<Rightarrow> None
      | Some (ok, sent, es) \<Rightarrow>
          Some (ok, n\<lparr>tx_events := (tx_events n)(fd := es), tx_data := (tx_data n)(fd := tx_data n fd @ sent)\<rparr>))"

definition sock_close :: "int \<Rightarrow> sockets \<Rightarrow> sockets" where
  "sock_close fd n = n\<lparr>closed_fds := closed_fds n @ [fd]\<rparr>"

section \<open>What the loops deliver\<close>

lemma send_loop_prefix:
  "send_loop es bs = Some (ok, sent, es') \<Longrightarrow> \<exists>rest. bs = sent @ rest \<and> (ok \<longrightarrow> rest = [])"
proof (induction es bs arbitrary: sent es' rule: send_loop.induct)
  case (6 k es b bs)
  show ?case
  proof (cases "length (b # bs) < k")
    case False
    then obtain sent1 where r: "send_loop es (drop k (b # bs)) = Some (ok, sent1, es')" "sent = take k (b # bs) @ sent1"
      using "6.prems" by (auto split: option.splits)
    obtain rest where rest: "drop k (b # bs) = sent1 @ rest" "ok \<longrightarrow> rest = []"
      using "6.IH" [OF False r(1)] by blast
    then have "b # bs = sent @ rest" using r(2) by (metis append.assoc append_take_drop_id)
    with rest(2) show ?thesis by blast
  qed (use "6.prems" in auto)
qed auto

text \<open>How many bytes the answers accept before an error.\<close>

fun send_room :: "send_event list \<Rightarrow> nat" where
  "send_room [] = 0"
| "send_room (Send_some k # es) = k + send_room es"
| "send_room (Send_error # es) = 0"
| "send_room (Send_again # es) = send_room es"
| "send_room (Send_intr # es) = send_room es"

lemma send_loop_all:
  "length bs \<le> send_room es \<Longrightarrow>
   \<exists>es'. send_loop es bs = Some (True, bs, es') \<and> send_room es = length bs + send_room es'"
proof (induction es bs rule: send_loop.induct)
  case (6 k es b bs)
  show ?case
  proof (cases "length (b # bs) < k")
    case False
    then have "length (drop k (b # bs)) \<le> send_room es" using "6.prems" by simp
    then obtain es' where "send_loop es (drop k (b # bs)) = Some (True, drop k (b # bs), es')"
        "send_room es = length (drop k (b # bs)) + send_room es'"
      using "6.IH" [OF False] by blast
    moreover have "take k (b # bs) @ drop k (b # bs) = b # bs" by (rule append_take_drop_id)
    ultimately show ?thesis using False by auto
  qed simp
qed simp_all

lemma sock_send_all:
  assumes "length bs \<le> send_room (tx_events n fd)"
  shows "\<exists>es. sock_send fd bs n = Some (True,
      n\<lparr>tx_events := (tx_events n)(fd := es), tx_data := (tx_data n)(fd := tx_data n fd @ bs)\<rparr>) \<and>
    send_room (tx_events n fd) = length bs + send_room es"
  using send_loop_all [OF assms] by (auto simp: sock_send_def)

end
