(* ===== verification/Hwio_Remote_Utils.thy ===== *)
theory Hwio_Remote_Utils
  imports Hwio_CStd
begin

text \<open>
  Addresses of servers (\<open>src/src/hwio_remote_utils.h\<close>, \<open>src/src/hwio_remote_utils.cpp\<close>): splitting a
  string into host and port, resolving it, printing an address. \<open>getaddrinfo\<close> and \<open>inet_ntop\<close> are
  parameters.
\<close>

section \<open>Host and port\<close>

text \<open>
  The strings \<open>ip\<close> and \<open>port\<close> come in empty and are assigned at most once. In the first branch the
  iterator runs to the closing bracket; the host keeps the opening bracket and the port keeps its
  colon.
\<close>

definition split_ipv6 :: "string \<Rightarrow> string \<times> string" where
  "split_ipv6 addr =
     (let splitEnd = 1 + length (takeWhile (\<lambda>c. c \<noteq> CHR '']'') (drop 1 addr));
          ip = take splitEnd addr;
          splitEnd' = (if splitEnd \<noteq> length addr then splitEnd + 1 else splitEnd)
      in if splitEnd' \<noteq> length addr \<and> addr ! splitEnd' = CHR '':'' then (ip, drop splitEnd' addr) else (ip, []))"

text \<open>
  In the second branch \<open>splitPoint\<close> is the position after the last colon, or the begin of the string
  when there is none.
\<close>

definition split_ipv4 :: "string \<Rightarrow> string \<times> string" where
  "split_ipv4 addr =
     (let splitPoint = length addr - length (takeWhile (\<lambda>c. c \<noteq> CHR '':'') (rev addr))
      in if splitPoint = 0 then (addr, []) else (take (splitPoint - 1) addr, drop splitPoint addr))"

definition parse_ip_and_port :: "string \<Rightarrow> string \<times> string" where
  "parse_ip_and_port addr =
     (if addr \<noteq> [] \<and> hd addr = CHR ''['' then split_ipv6 addr else split_ipv4 addr)"

text \<open>\<open>getaddrinfo\<close> sees both as C strings; an error or a null result throws.\<close>

definition resolve :: "(string \<Rightarrow> string \<Rightarrow> int \<times> 'addr option) \<Rightarrow> string \<Rightarrow> 'addr res" where
  "resolve getaddrinfo host =
     (let (ip, port) = parse_ip_and_port host
      in case getaddrinfo (cstr ip) (cstr port) of
           (error, None) \<Rightarrow> Inl (Throw Runtime_error)
         | (error, Some r) \<Rightarrow> if error \<noteq> 0 then Inl (Throw Runtime_error) else Inr r)"

text \<open>Printing an IPv4 address; a null result of \<open>inet_ntop\<close> leaves the cleared buffer.\<close>

definition bswap16 :: "u16 \<Rightarrow> u16" where
  "bswap16 w = word_of_nat (unat w div 256 + 256 * (unat w mod 256))"

definition addrinfo_to_str :: "('ip \<Rightarrow> string option) \<Rightarrow> ('ip \<times> u16) option \<Rightarrow> string" where
  "addrinfo_to_str inet_ntop addr =
     (case addr of
        None \<Rightarrow> ''<NULL>''
      | Some (sin_addr, sin_port) \<Rightarrow>
          (case inet_ntop sin_addr of None \<Rightarrow> [] | Some s \<Rightarrow> s) @ '':'' @ show_nat (unat (bswap16 sin_port)))"

section \<open>What the split does\<close>

lemma split_ipv4_colon:
  "CHR '':'' \<notin> set port \<Longrightarrow> split_ipv4 (ip @ CHR '':'' # port) = (ip, port)"
  by (simp add: split_ipv4_def takeWhile_append Let_def)

lemma split_ipv4_plain: "CHR '':'' \<notin> set addr \<Longrightarrow> split_ipv4 addr = (addr, [])"
proof -
  assume "CHR '':'' \<notin> set addr"
  then have "takeWhile (\<lambda>c. c \<noteq> CHR '':'') (rev addr) = rev addr"
    by (auto simp: takeWhile_eq_all_conv)
  then have "length addr - length (takeWhile (\<lambda>c. c \<noteq> CHR '':'') (rev addr)) = 0"
    by (simp only: length_rev diff_self_eq_0)
  then show ?thesis by (simp only: split_ipv4_def Let_def) simp
qed

lemma split_ipv6_eq:
  assumes "CHR '']'' \<notin> set ip"
  shows "split_ipv6 (CHR ''['' # ip @ CHR '']'' # rest) =
    (CHR ''['' # ip, if rest \<noteq> [] \<and> hd rest = CHR '':'' then rest else [])"
proof -
  have "takeWhile (\<lambda>c. c \<noteq> CHR '']'') (ip @ CHR '']'' # rest) = ip"
    using assms by (simp add: takeWhile_append)
  then show ?thesis by (cases rest) (simp_all add: split_ipv6_def Let_def nth_append)
qed

text \<open>
  C37: an address \<open>host:port\<close> is split at its last colon, and one without a colon is all host; in an
  address \<open>[host]:port\<close> the host keeps the opening bracket and the port keeps the colon, so that
  \<open>getaddrinfo\<close> gets neither the address nor the port.
\<close>

theorem parse_ip_and_port_split:
  assumes "CHR '':'' \<notin> set port" "CHR '']'' \<notin> set ip6" "ip = [] \<or> hd ip \<noteq> CHR ''[''"
  shows "parse_ip_and_port (ip @ CHR '':'' # port) = (ip, port) \<and>
    (CHR '':'' \<notin> set ip \<longrightarrow> parse_ip_and_port ip = (ip, [])) \<and>
    parse_ip_and_port (CHR ''['' # ip6 @ CHR '']'' # CHR '':'' # port) = (CHR ''['' # ip6, CHR '':'' # port) \<and>
    resolve getaddrinfo (CHR ''['' # ip6 @ CHR '']'' # CHR '':'' # port) =
      (case getaddrinfo (CHR ''['' # cstr ip6) (CHR '':'' # cstr port) of
         (error, None) \<Rightarrow> Inl (Throw Runtime_error)
       | (error, Some r) \<Rightarrow> if error \<noteq> 0 then Inl (Throw Runtime_error) else Inr r)"
proof -
  have "parse_ip_and_port (ip @ CHR '':'' # port) = (ip, port)"
    using assms(1,3) split_ipv4_colon [of port ip] by (cases ip) (simp_all add: parse_ip_and_port_def)
  moreover have "parse_ip_and_port ip = (ip, [])" if "CHR '':'' \<notin> set ip"
    using assms(3) split_ipv4_plain [OF that] by (auto simp: parse_ip_and_port_def)
  moreover have six: "parse_ip_and_port (CHR ''['' # ip6 @ CHR '']'' # CHR '':'' # port) = (CHR ''['' # ip6, CHR '':'' # port)"
    using split_ipv6_eq [OF assms(2), of "CHR '':'' # port"] by (simp add: parse_ip_and_port_def)
  moreover have "cstr (c # s) = c # cstr s" if "c \<noteq> CHR 0x00" for c s
    using that by (simp add: cstr_def)
  ultimately show ?thesis by (simp add: resolve_def)
qed

theorem parse_ip_and_port_split_witness:
  "parse_ip_and_port ''127.0.0.1:8896'' = (''127.0.0.1'', ''8896'') \<and>
   parse_ip_and_port ''127.0.0.1'' = (''127.0.0.1'', []) \<and>
   parse_ip_and_port ''[fe80::1]:8896'' = (''[fe80::1'', '':8896'')"
  using parse_ip_and_port_split [of "''8896''" "''fe80::1''" "''127.0.0.1''" "\<lambda>_ _. (0, Some ())"] by simp

end
