(* ===== verification/Hwio_Client.thy ===== *)
theory Hwio_Client
  imports Hwio_Net Hwio_Remote_Utils
begin

text \<open>
  The client's side of a connection (\<open>src/src/bus/hwio_client_to_server_con.cpp\<close>) and the device
  that forwards its accesses to a server (\<open>src/src/device/hwio_device_remote.h\<close>, \<open>.cpp\<close>).
  \<open>busy\<close> stands for the compile-time option \<open>HWIO_BUSY_WAIT_IO_CLIENT\<close>. A function returns \<open>None\<close>
  when it waits for data that never comes.
\<close>

section \<open>The connection\<close>

definition ENAVAIL :: int where [simp]: "ENAVAIL = 119"
definition EBUSY :: int where [simp]: "EBUSY = 16"

record hwio_client_to_server_con =
  sockfd :: int
  orig_addr :: string
  con_rx :: carray
  con_tx :: carray
  con_socks :: sockets

text \<open>
  The constructor: the address is resolved, nothing is connected yet. \<open>c\<close> is the fresh object with
  its uninitialised buffers.
\<close>

definition hwio_client_to_server_con_ctor ::
  "(string \<Rightarrow> string \<Rightarrow> int \<times> 'addr option) \<Rightarrow> string \<Rightarrow> hwio_client_to_server_con \<Rightarrow> hwio_client_to_server_con res" where
  "hwio_client_to_server_con_ctor getaddrinfo host c =
     bind_res (resolve getaddrinfo host) (\<lambda>_. Inr (c\<lparr>sockfd := - 1, orig_addr := host\<rparr>))"

text \<open>
  The loop of \<open>rx_bytes\<close> for \<open>n\<close> more bytes: its outcome, the bytes stored, and the answers that
  remain. A closed connection makes \<open>recv\<close> return 0 again and again, so the loop never ends.
\<close>

fun rx_loop :: "bool \<Rightarrow> recv_event list \<Rightarrow> nat \<Rightarrow> (unit res \<times> byte list \<times> recv_event list) option" where
  "rx_loop busy es 0 = Some (Inr (), [], es)"
| "rx_loop busy [] (Suc n) = None"
| "rx_loop busy (Recv_eof # es) (Suc n) = None"
| "rx_loop busy (Recv_intr # es) (Suc n) = rx_loop busy es (Suc n)"
| "rx_loop busy (Recv_again # es) (Suc n) =
     (if busy then rx_loop busy es (Suc n) else Some (Inl (Throw Runtime_error), [], es))"
| "rx_loop busy (Recv_error # es) (Suc n) = Some (Inl (Throw Runtime_error), [], es)"
| "rx_loop busy (Recv_data bs # es) (Suc n) =
     (if Suc n < length bs then Some (Inr (), take (Suc n) bs, Recv_data (drop (Suc n) bs) # es)
      else case rx_loop busy es (Suc n - length bs) of
        None \<Rightarrow> None
      | Some (r, got, es') \<Rightarrow> Some (r, bs @ got, es'))"

definition rx_bytes ::
  "bool \<Rightarrow> nat \<Rightarrow> hwio_client_to_server_con \<Rightarrow> (unit res \<times> hwio_client_to_server_con) option" where
  "rx_bytes busy n c =
     (if BUFFER_SIZE < n then Some (Inl Assert_failed, c)
      else case rx_loop busy (rx_events (con_socks c) (sockfd c)) n of
        None \<Rightarrow> None
      | Some (r, bs, es) \<Rightarrow>
          (let c1 = c\<lparr>con_socks := (con_socks c)\<lparr>rx_events := (rx_events (con_socks c))(sockfd c := es)\<rparr>\<rparr>
           in case astore (con_rx c) 0 bs of
                Inl e \<Rightarrow> Some (Inl e, c1)
              | Inr a \<Rightarrow> Some (r, c1\<lparr>con_rx := a\<rparr>)))"

definition rx_pckt ::
  "bool \<Rightarrow> hwio_client_to_server_con \<Rightarrow> (Hwio_packet_header res \<times> hwio_client_to_server_con) option" where
  "rx_pckt busy c =
     (case rx_bytes busy sizeof_header c of
        None \<Rightarrow> None
      | Some (Inl e, c1) \<Rightarrow> Some (Inl e, c1)
      | Some (Inr _, c1) \<Rightarrow>
          (case aload (con_rx c1) 0 sizeof_header of
             Inl e \<Rightarrow> Some (Inl e, c1)
           | Inr hb \<Rightarrow>
               (let header = dec_header hb
                in if body_len header \<noteq> 0 then
                     (case rx_bytes busy (unat (body_len header)) c1 of
                        None \<Rightarrow> None
                      | Some (Inl e, c2) \<Rightarrow> Some (Inl e, c2)
                      | Some (Inr _, c2) \<Rightarrow> Some (Inr header, c2))
                   else Some (Inr header, c1))))"

text \<open>The loop of \<open>tx_pckt\<close>: its outcome, the bytes accepted, and the answers that remain.\<close>

fun tx_loop :: "bool \<Rightarrow> send_event list \<Rightarrow> byte list \<Rightarrow> (unit res \<times> byte list \<times> send_event list) option" where
  "tx_loop busy es [] = Some (Inr (), [], es)"
| "tx_loop busy [] (b # bs) = None"
| "tx_loop busy (Send_intr # es) (b # bs) = tx_loop busy es (b # bs)"
| "tx_loop busy (Send_again # es) (b # bs) =
     (if busy then tx_loop busy es (b # bs) else Some (Inl (Throw Error_rw), [], es))"
| "tx_loop busy (Send_error # es) (b # bs) = Some (Inl (Throw Error_rw), [], es)"
| "tx_loop busy (Send_some k # es) (b # bs) =
     (if length (b # bs) < k then Some (Inr (), b # bs, Send_some (k - length (b # bs)) # es)
      else case tx_loop busy es (drop k (b # bs)) of
        None \<Rightarrow> None
      | Some (r, sent, es') \<Rightarrow> Some (r, take k (b # bs) @ sent, es'))"

definition tx_pckt ::
  "bool \<Rightarrow> hwio_client_to_server_con \<Rightarrow> (unit res \<times> hwio_client_to_server_con) option" where
  "tx_pckt busy c =
     (case bind_res (aload (con_tx c) 0 sizeof_header) (\<lambda>hb.
             aload (con_tx c) 0 (unat (body_len (dec_header hb)) + sizeof_header)) of
        Inl e \<Rightarrow> Some (Inl e, c)
      | Inr bs \<Rightarrow>
          (case tx_loop busy (tx_events (con_socks c) (sockfd c)) bs of
             None \<Rightarrow> None
           | Some (r, sent, es) \<Rightarrow>
               Some (r, c\<lparr>con_socks := (con_socks c)\<lparr>
                 tx_events := (tx_events (con_socks c))(sockfd c := es),
                 tx_data := (tx_data (con_socks c))(sockfd c := tx_data (con_socks c) (sockfd c) @ sent)\<rparr>\<rparr>)))"

text \<open>Filling the transmit buffer from position \<open>p\<close>.\<close>

definition fill_tx :: "nat \<Rightarrow> byte list \<Rightarrow> hwio_client_to_server_con \<Rightarrow> hwio_client_to_server_con res" where
  "fill_tx p bs c = bind_res (astore (con_tx c) p bs) (\<lambda>a. Inr (c\<lparr>con_tx := a\<rparr>))"

definition ping :: "bool \<Rightarrow> hwio_client_to_server_con \<Rightarrow> (int res \<times> hwio_client_to_server_con) option" where
  "ping busy c =
     (let caught = (\<lambda>e c'. case e of
            Throw x \<Rightarrow> if is_runtime_error x then Some (Inr (- EBUSY), c') else Some (Inl e, c')
          | _ \<Rightarrow> Some (Inl e, c'))
      in case fill_tx 0 (enc_header \<lparr>command = HWIO_CMD_PING_REQUEST, body_len = 0\<rparr>) c of
           Inl e \<Rightarrow> Some (Inl e, c)
         | Inr c1 \<Rightarrow>
             (case tx_pckt busy c1 of
                None \<Rightarrow> None
              | Some (Inl e, c2) \<Rightarrow> caught e c2
              | Some (Inr _, c2) \<Rightarrow>
                  (case rx_pckt busy c2 of
                     None \<Rightarrow> None
                   | Some (Inl e, c3) \<Rightarrow> caught e c3
                   | Some (Inr resp, c3) \<Rightarrow>
                       if body_len resp \<noteq> 0 \<or> command resp \<noteq> HWIO_CMD_PING_REPLY
                       then Some (Inr (- ENAVAIL), c3) else Some (Inr 0, c3))))"

definition bye :: "bool \<Rightarrow> hwio_client_to_server_con \<Rightarrow> (unit res \<times> hwio_client_to_server_con) option" where
  "bye busy c =
     (case fill_tx 0 (enc_header \<lparr>command = HWIO_CMD_BYE, body_len = 0\<rparr>) c of
        Inl e \<Rightarrow> Some (Inl e, c)
      | Inr c1 \<Rightarrow> tx_pckt busy c1)"

text \<open>\<open>sock\<close> and \<open>ret\<close> are the answers of \<open>socket\<close> and \<open>connect\<close>.\<close>

definition connect_to_server ::
  "bool \<Rightarrow> int \<Rightarrow> int \<Rightarrow> hwio_client_to_server_con \<Rightarrow> (unit res \<times> hwio_client_to_server_con) option" where
  "connect_to_server busy sock ret c =
     (let c1 = c\<lparr>sockfd := sock\<rparr>
      in if sock < 0 then Some (Inl (Throw Runtime_error), c1)
         else if ret < 0 then Some (Inl (Throw Runtime_error), c1)
         else case ping busy c1 of
           None \<Rightarrow> None
         | Some (Inl e, c2) \<Rightarrow> Some (Inl e, c2)
         | Some (Inr r, c2) \<Rightarrow> if r < 0 then Some (Inl (Throw Runtime_error), c2) else Some (Inr (), c2))"

text \<open>An exception that leaves the destructor ends the program.\<close>

definition in_destructor :: "fault \<Rightarrow> fault" where
  "in_destructor e = (case e of Throw x \<Rightarrow> Terminated | _ \<Rightarrow> e)"

definition con_delete :: "bool \<Rightarrow> hwio_client_to_server_con \<Rightarrow> (unit res \<times> hwio_client_to_server_con) option" where
  "con_delete busy c =
     (if 0 \<le> sockfd c then
        (case bye busy c of
           None \<Rightarrow> None
         | Some (Inl e, c1) \<Rightarrow> Some (Inl (in_destructor e), c1)
         | Some (Inr _, c1) \<Rightarrow> Some (Inr (), c1\<lparr>con_socks := sock_close (sockfd c1) (con_socks c1)\<rparr>))
      else Some (Inr (), c))"

section \<open>The remote device\<close>

type_synonym 'a remote = "hwio_client_to_server_con \<Rightarrow> ('a res \<times> hwio_client_to_server_con) option"

text \<open>A wrong response throws; an error message is read as a C string for the text of the exception.\<close>

definition assert_response :: "Hwio_packet_header \<Rightarrow> byte \<Rightarrow> hwio_client_to_server_con \<Rightarrow> unit res" where
  "assert_response h expected c =
     (if command h \<noteq> expected then
        if command h = HWIO_CMD_MSG
        then bind_res (cstr_at (con_rx c) 4) (\<lambda>_. Inl (Throw Error_rw))
        else Inl (Throw Error_rw)
      else Inr ())"

text \<open>Send the frame in the transmit buffer and wait for the expected response.\<close>

definition request :: "bool \<Rightarrow> byte \<Rightarrow> unit remote" where
  "request busy expected c =
     (case tx_pckt busy c of
        None \<Rightarrow> None
      | Some (Inl e, c1) \<Rightarrow> Some (Inl e, c1)
      | Some (Inr _, c1) \<Rightarrow>
          (case rx_pckt busy c1 of
             None \<Rightarrow> None
           | Some (Inl e, c2) \<Rightarrow> Some (Inl e, c2)
           | Some (Inr h, c2) \<Rightarrow> Some (assert_response h expected c2, c2)))"

definition remote_read ::
  "bool \<Rightarrow> u16 \<Rightarrow> u32 \<Rightarrow> carray \<Rightarrow> nat \<Rightarrow> nat \<Rightarrow> hwio_client_to_server_con \<Rightarrow>
   (unit res \<times> carray \<times> hwio_client_to_server_con) option" where
  "remote_read busy dev off dst i n c =
     (if 65535 < n then Some (Inl Assert_failed, dst, c)
      else case fill_tx 0 (enc_header \<lparr>command = HWIO_CMD_READ, body_len = 8\<rparr> @
                  enc_RdReq \<lparr>rd_devId = dev, rd_addr = off, rd_size = word_of_nat n\<rparr>) c of
        Inl e \<Rightarrow> Some (Inl e, dst, c)
      | Inr c1 \<Rightarrow>
          (case request busy HWIO_CMD_READ_RESP c1 of
             None \<Rightarrow> None
           | Some (Inl e, c2) \<Rightarrow> Some (Inl e, dst, c2)
           | Some (Inr _, c2) \<Rightarrow>
               (case bind_res (aload (con_rx c2) 0 n) (\<lambda>bs. astore dst i bs) of
                  Inl e \<Rightarrow> Some (Inl e, dst, c2)
                | Inr dst' \<Rightarrow> Some (Inr (), dst', c2))))"

text \<open>\<open>read8\<close>, \<open>read32\<close> and \<open>read64\<close>: a read of \<open>n\<close> bytes into a local variable.\<close>

definition remote_read_int :: "bool \<Rightarrow> u16 \<Rightarrow> u32 \<Rightarrow> nat \<Rightarrow> 'a::len word remote" where
  "remote_read_int busy dev off n c =
     (case remote_read busy dev off \<lparr>acap = n, aget = (\<lambda>_. 0)\<rparr> 0 n c of
        None \<Rightarrow> None
      | Some (Inl e, dst, c') \<Rightarrow> Some (Inl e, c')
      | Some (Inr _, dst, c') \<Rightarrow> Some (Inr (word_of_nat (le_dec (abytes dst 0 n))), c'))"

definition remote_read8 :: "bool \<Rightarrow> u16 \<Rightarrow> u32 \<Rightarrow> byte remote" where
  "remote_read8 busy dev off = remote_read_int busy dev off 1"

definition remote_read32 :: "bool \<Rightarrow> u16 \<Rightarrow> u32 \<Rightarrow> u32 remote" where
  "remote_read32 busy dev off = remote_read_int busy dev off 4"

definition remote_read64 :: "bool \<Rightarrow> u16 \<Rightarrow> u32 \<Rightarrow> u64 remote" where
  "remote_read64 busy dev off = remote_read_int busy dev off 8"

text \<open>The length of the body is stored in 16 bits; nothing is received.\<close>

definition remote_write :: "bool \<Rightarrow> u16 \<Rightarrow> u32 \<Rightarrow> carray \<Rightarrow> nat \<Rightarrow> nat \<Rightarrow> unit remote" where
  "remote_write busy dev off data i n c =
     (if 65535 < n then Some (Inl Assert_failed, c)
      else case bind_res (fill_tx 0 (enc_header \<lparr>command = HWIO_CMD_WRITE, body_len = word_of_nat (8 + n)\<rparr> @
                    enc_RdReq \<lparr>rd_devId = dev, rd_addr = off, rd_size = word_of_nat n\<rparr>) c) (\<lambda>c1.
                bind_res (aload data i n) (\<lambda>bs. fill_tx 11 bs c1)) of
        Inl e \<Rightarrow> Some (Inl e, c)
      | Inr c2 \<Rightarrow> tx_pckt busy c2)"

definition remote_write_int :: "bool \<Rightarrow> u16 \<Rightarrow> u32 \<Rightarrow> nat \<Rightarrow> nat \<Rightarrow> unit remote" where
  "remote_write_int busy dev off n v =
     remote_write busy dev off \<lparr>acap = n, aget = (\<lambda>i. if i < n then le_enc n v ! i else 0)\<rparr> 0 n"

definition remote_write8 :: "bool \<Rightarrow> u16 \<Rightarrow> u32 \<Rightarrow> byte \<Rightarrow> unit remote" where
  "remote_write8 busy dev off v = remote_write_int busy dev off 1 (unat v)"

definition remote_write32 :: "bool \<Rightarrow> u16 \<Rightarrow> u32 \<Rightarrow> u32 \<Rightarrow> unit remote" where
  "remote_write32 busy dev off v = remote_write_int busy dev off 4 (unat v)"

definition remote_write64 :: "bool \<Rightarrow> u16 \<Rightarrow> u32 \<Rightarrow> u64 \<Rightarrow> unit remote" where
  "remote_write64 busy dev off v = remote_write_int busy dev off 8 (unat v)"

section \<open>Remote calls\<close>

text \<open>The fields are written in the order of the source; \<open>body_len\<close> comes last.\<close>

fun fill_all :: "(nat \<times> byte list) list \<Rightarrow> hwio_client_to_server_con \<Rightarrow> hwio_client_to_server_con res" where
  "fill_all [] c = Inr c"
| "fill_all ((p, bs) # fs) c = bind_res (fill_tx p bs c) (fill_all fs)"

definition named_call_frame :: "u16 \<Rightarrow> string \<Rightarrow> byte list \<Rightarrow> (nat \<times> byte list) list" where
  "named_call_frame dev fn_name args =
     [(0, [HWIO_CMD_REMOTE_CALL]), (sizeof_header + 2, strncpy_bytes MAX_NAME_LEN fn_name),
      (sizeof_header, enc16 dev), (sizeof_header + sizeof_RemoteCall, args),
      (1, enc16 (word_of_nat (sizeof_RemoteCall - 1 + length args)))]"

definition fast_call_frame :: "u16 \<Rightarrow> u32 \<Rightarrow> byte list \<Rightarrow> (nat \<times> byte list) list" where
  "fast_call_frame dev fn_id args =
     [(0, [HWIO_CMD_REMOTE_CALL_FAST]), (sizeof_header + 2, enc32 fn_id), (sizeof_header, enc16 dev),
      (sizeof_header + sizeof_RemoteCallFast, args), (1, enc16 (word_of_nat (sizeof_RemoteCallFast + length args)))]"

definition fn_id_frame :: "u16 \<Rightarrow> string \<Rightarrow> (nat \<times> byte list) list" where
  "fn_id_frame dev fn_name =
     [(0, [HWIO_CMD_GET_REMOTE_CALL_ID]), (sizeof_header + 2, strncpy_bytes MAX_NAME_LEN fn_name),
      (sizeof_header, enc16 dev), (1, enc16 (word_of_nat sizeof_RemoteCall))]"

text \<open>A call with a result of \<open>ret_size\<close> bytes, and one without.\<close>

definition call_ret :: "bool \<Rightarrow> (nat \<times> byte list) list \<Rightarrow> nat \<Rightarrow> byte list remote" where
  "call_ret busy frame ret_size c =
     (case fill_all frame c of
        Inl e \<Rightarrow> Some (Inl e, c)
      | Inr c1 \<Rightarrow>
          (case request busy HWIO_CMD_REMOTE_CALL_RET c1 of
             None \<Rightarrow> None
           | Some (Inl e, c2) \<Rightarrow> Some (Inl e, c2)
           | Some (Inr _, c2) \<Rightarrow> Some (aload (con_rx c2) 0 ret_size, c2)))"

definition call_void :: "bool \<Rightarrow> (nat \<times> byte list) list \<Rightarrow> unit remote" where
  "call_void busy frame c =
     (case fill_all frame c of
        Inl e \<Rightarrow> Some (Inl e, c)
      | Inr c1 \<Rightarrow> tx_pckt busy c1)"

definition remote_call :: "bool \<Rightarrow> u16 \<Rightarrow> string \<Rightarrow> byte list \<Rightarrow> nat \<Rightarrow> byte list remote" where
  "remote_call busy dev fn_name args ret_size = call_ret busy (named_call_frame dev fn_name args) ret_size"

definition remote_call_void :: "bool \<Rightarrow> u16 \<Rightarrow> string \<Rightarrow> byte list \<Rightarrow> unit remote" where
  "remote_call_void busy dev fn_name args = call_void busy (named_call_frame dev fn_name args)"

definition remote_call_fast :: "bool \<Rightarrow> u16 \<Rightarrow> u32 \<Rightarrow> byte list \<Rightarrow> nat \<Rightarrow> byte list remote" where
  "remote_call_fast busy dev fn_id args ret_size = call_ret busy (fast_call_frame dev fn_id args) ret_size"

definition remote_call_fast_void :: "bool \<Rightarrow> u16 \<Rightarrow> u32 \<Rightarrow> byte list \<Rightarrow> unit remote" where
  "remote_call_fast_void busy dev fn_id args = call_void busy (fast_call_frame dev fn_id args)"

text \<open>The answer to a request for a function id: the flag and the id.\<close>

definition ask_fn_id :: "bool \<Rightarrow> u16 \<Rightarrow> string \<Rightarrow> (bool \<times> u32) remote" where
  "ask_fn_id busy dev fn_name c =
     (case fill_all (fn_id_frame dev fn_name) c of
        Inl e \<Rightarrow> Some (Inl e, c)
      | Inr c1 \<Rightarrow>
          (case request busy HWIO_CMD_GET_REMOTE_CALL_ID_RESP c1 of
             None \<Rightarrow> None
           | Some (Inl e, c2) \<Rightarrow> Some (Inl e, c2)
           | Some (Inr _, c2) \<Rightarrow>
               Some (bind_res (aload (con_rx c2) 0 5) (\<lambda>bs. Inr (hd bs \<noteq> 0, dec32 (drop 1 bs))), c2)))"

text \<open>\<open>resp->found and (resp->fn_id >= 0)\<close> on an unsigned id.\<close>

definition is_rpc_available :: "bool \<Rightarrow> u16 \<Rightarrow> string \<Rightarrow> bool remote" where
  "is_rpc_available busy dev fn_name c =
     (case ask_fn_id busy dev fn_name c of
        None \<Rightarrow> None
      | Some (r, c') \<Rightarrow> Some (bind_res r (\<lambda>(found, fn_id). Inr (found \<and> 0 \<le> uint fn_id)), c'))"

definition get_rpc_fn_id :: "bool \<Rightarrow> u16 \<Rightarrow> string \<Rightarrow> int remote" where
  "get_rpc_fn_id busy dev fn_name c =
     (case ask_fn_id busy dev fn_name c of
        None \<Rightarrow> None
      | Some (r, c') \<Rightarrow> Some (bind_res r (\<lambda>(found, fn_id). Inr (sint fn_id)), c'))"

section \<open>The remote bus (\<open>src/src/bus/hwio_bus_remote.cpp\<close>)\<close>

record hwio_device_remote =
  rdev_id :: u16
  rdev_spec :: "hwio_comp_spec list"

definition hwio_device_remote_ctor :: "hwio_comp_spec list \<Rightarrow> u16 \<Rightarrow> hwio_device_remote" where
  [simp]: "hwio_device_remote_ctor specs i = \<lparr>rdev_id = i, rdev_spec = specs\<rparr>"

definition remote_get_spec :: "hwio_device_remote \<Rightarrow> hwio_comp_spec list" where
  "remote_get_spec d = rdev_spec d"

text \<open>\<open>attach\<close> does nothing: the server attaches its devices when it answers a query.\<close>

definition remote_attach :: "unit remote" where
  "remote_attach c = Some (Inr (), c)"

text \<open>A device object is named by its position in \<open>seen_devices\<close>.\<close>

record hwio_bus_remote =
  bus_server :: hwio_client_to_server_con
  seen_devices :: "hwio_device_remote list"

text \<open>\<open>to_str\<close>: the specifications go to the standard output, not into the result.\<close>

definition remote_to_str :: "string \<Rightarrow> hwio_device_remote \<Rightarrow> string" where
  "remote_to_str addr d =
     ''hwio_device_remote: (server:'' @ addr @ '', id:'' @ show_nat (unat (rdev_id d)) @ '')'' @ [CHR 0x0A] @
     ''    spec:'' @ [CHR 0x0A]"

fun query_fields :: "nat \<Rightarrow> hwio_comp_spec list \<Rightarrow> (nat \<times> byte list) list" where
  "query_fields p [] = []"
| "query_fields p (s # specs) = (p, enc_query_item s) # query_fields (p + sizeof_Dev_query_item) specs"

definition spec_list_to_query :: "hwio_comp_spec list \<Rightarrow> hwio_client_to_server_con \<Rightarrow> hwio_client_to_server_con res" where
  "spec_list_to_query specs =
     fill_all ((0, enc_header \<lparr>command = HWIO_CMD_QUERY, body_len = word_of_nat (sizeof_Dev_query_item * length specs)\<rparr>)
               # query_fields sizeof_header specs)"

fun find_seen :: "u16 \<Rightarrow> hwio_device_remote list \<Rightarrow> nat \<Rightarrow> nat option" where
  "find_seen i [] k = None"
| "find_seen i (d # ds) k = (if rdev_id d = i then Some k else find_seen i ds (k + 1))"

definition hwio_dev_from_id ::
  "hwio_comp_spec list \<Rightarrow> u16 \<Rightarrow> hwio_device_remote list \<Rightarrow> nat \<times> hwio_device_remote list" where
  "hwio_dev_from_id specs i seen =
     (case find_seen i seen 0 of
        Some k \<Rightarrow> (k, seen)
      | None \<Rightarrow> (length seen, seen @ [hwio_device_remote_ctor specs i]))"

text \<open>The loop over the ids of the response, from position \<open>k\<close>, \<open>n\<close> of them left.\<close>

fun ids_loop ::
  "hwio_comp_spec list \<Rightarrow> carray \<Rightarrow> nat \<Rightarrow> nat \<Rightarrow> hwio_device_remote list \<Rightarrow> nat list res \<times> hwio_device_remote list" where
  "ids_loop specs rx k 0 seen = (Inr [], seen)"
| "ids_loop specs rx k (Suc n) seen =
     (case aload rx (2 * k) 2 of
        Inl e \<Rightarrow> (Inl e, seen)
      | Inr bs \<Rightarrow>
          (case hwio_dev_from_id specs (dec16 bs) seen of
             (d, seen1) \<Rightarrow>
               (case ids_loop specs rx (k + 1) n seen1 of
                  (Inl e, seen2) \<Rightarrow> (Inl e, seen2)
                | (Inr ds, seen2) \<Rightarrow> (Inr (d # ds), seen2))))"

definition remote_find_devices ::
  "bool \<Rightarrow> hwio_comp_spec list \<Rightarrow> hwio_bus_remote \<Rightarrow> (nat list res \<times> hwio_bus_remote) option" where
  "remote_find_devices busy specs b =
     (case spec_list_to_query specs (bus_server b) of
        Inl e \<Rightarrow> Some (Inl e, b)
      | Inr c1 \<Rightarrow>
          (case tx_pckt busy c1 of
             None \<Rightarrow> None
           | Some (Inl e, c2) \<Rightarrow> Some (Inl e, b\<lparr>bus_server := c2\<rparr>)
           | Some (Inr _, c2) \<Rightarrow>
               (case rx_pckt busy c2 of
                  None \<Rightarrow> None
                | Some (Inl e, c3) \<Rightarrow> Some (Inl e, b\<lparr>bus_server := c3\<rparr>)
                | Some (Inr h, c3) \<Rightarrow>
                    if command h \<noteq> HWIO_CMD_QUERY_RESP then Some (Inl (Throw Runtime_error), b\<lparr>bus_server := c3\<rparr>)
                    else (case ids_loop specs (con_rx c3) 0 (unat (body_len h) div 2) (seen_devices b) of
                            (r, seen) \<Rightarrow> Some (r, b\<lparr>bus_server := c3, seen_devices := seen\<rparr>)))))"

text \<open>
  The constructor connects; when that throws, the connection is destroyed, which says goodbye on a
  socket that was opened. The destructor deletes the devices and then the connection.
\<close>

definition hwio_bus_remote_ctor ::
  "bool \<Rightarrow> int \<Rightarrow> int \<Rightarrow> hwio_client_to_server_con \<Rightarrow> (hwio_bus_remote res \<times> hwio_client_to_server_con) option" where
  "hwio_bus_remote_ctor busy sock ret c =
     (case connect_to_server busy sock ret c of
        None \<Rightarrow> None
      | Some (Inl (Throw x), c1) \<Rightarrow>
          (case con_delete busy c1 of
             None \<Rightarrow> None
           | Some (Inl e, c2) \<Rightarrow> Some (Inl e, c2)
           | Some (Inr _, c2) \<Rightarrow> Some (Inl (Throw x), c2))
      | Some (Inl e, c1) \<Rightarrow> Some (Inl e, c1)
      | Some (Inr _, c1) \<Rightarrow> Some (Inr \<lparr>bus_server = c1, seen_devices = []\<rparr>, c1))"

definition hwio_bus_remote_delete :: "bool \<Rightarrow> hwio_bus_remote \<Rightarrow> (unit res \<times> hwio_bus_remote) option" where
  "hwio_bus_remote_delete busy b =
     (case con_delete busy (bus_server b) of
        None \<Rightarrow> None
      | Some (r, c) \<Rightarrow> Some (r, b\<lparr>bus_server := c, seen_devices := []\<rparr>))"

end
