(* ===== verification/Hwio_Server_Loop.thy ===== *)
theory Hwio_Server_Loop
  imports Hwio_Server Hwio_Net
begin

unbundle bit_operations_syntax

text \<open>
  The connection side of the server (\<open>src/src/server/hwio_server.cpp\<close>): the table of clients, receiving
  into a client's buffer, cutting the buffer into messages, and one round of \<open>ppoll\<close>.

  \<open>ClientInfo\<close> objects live in a heap, because \<open>clients\<close>, \<open>fd_to_client\<close> and the local variables of
  the functions share them, and a function may use one after it was deleted. The vector of poll
  descriptors has a capacity, because the loop over it adds to it. A function returns \<open>None\<close> when a
  retry loop in it never ends.
\<close>

section \<open>State\<close>

definition POLLIN :: u16 where [simp]: "POLLIN = 1"
definition POLLERR :: u16 where [simp]: "POLLERR = 8"
definition POLLHUP :: u16 where [simp]: "POLLHUP = 16"
definition POLLNVAL :: u16 where [simp]: "POLLNVAL = 32"

record pollfd =
  pfd_fd :: int
  pfd_revents :: u16

text \<open>\<open>fresh_mem\<close> is what a newly allocated receive buffer holds, \<open>vec_grow\<close> the growth of a full vector.\<close>

record ('w, 'd) Server =
  core :: "('w, 'd) HwioServer"
  master_socket :: int
  poll_fds :: "pollfd list"
  poll_cap :: nat
  removed_poll_fds :: "int list"
  fd_to_client :: "(int \<times> nat) list"
  clients :: "nat option list"
  client_heap :: "nat \<Rightarrow> 'd ClientInfo option"
  heap_next :: nat
  fresh_mem :: "nat \<Rightarrow> nat \<Rightarrow> byte"
  vec_grow :: "nat \<Rightarrow> nat"
  socks :: sockets

abbreviation put_client :: "nat \<Rightarrow> 'd ClientInfo \<Rightarrow> ('w, 'd) Server \<Rightarrow> ('w, 'd) Server" where
  "put_client a c s \<equiv> s\<lparr>client_heap := (client_heap s)(a \<mapsto> c)\<rparr>"

section \<open>The table of clients\<close>

fun first_empty_slot :: "nat option list \<Rightarrow> nat \<Rightarrow> nat" where
  "first_empty_slot [] i = i"
| "first_empty_slot (c # cs) i = (if c = None then i else first_empty_slot cs (i + 1))"

definition ClientInfo_ctor :: "nat \<Rightarrow> int \<Rightarrow> (nat \<Rightarrow> byte) \<Rightarrow> 'd ClientInfo" where
  "ClientInfo_ctor i socket junk =
     \<lparr>ci_id = i, ci_fd = socket,
      ci_rx = \<lparr>rx_array = \<lparr>acap = RX_BUFFER_SIZE, aget = junk\<rparr>, curr_ptr = 0, curr_len = 0\<rparr>,
      ci_devices = []\<rparr>"

text \<open>\<open>poll_fds.push_back\<close>: a full vector moves to a larger block.\<close>

definition push_poll_fd :: "pollfd \<Rightarrow> ('w, 'd) Server \<Rightarrow> ('w, 'd) Server" where
  "push_poll_fd p s =
     s\<lparr>poll_fds := poll_fds s @ [p],
       poll_cap := (if length (poll_fds s) < poll_cap s then poll_cap s else vec_grow s (poll_cap s))\<rparr>"

definition add_new_client :: "int \<Rightarrow> ('w, 'd) Server \<Rightarrow> nat res \<times> ('w, 'd) Server" where
  "add_new_client socket s =
     (let i = first_empty_slot (clients s) 0;
          a = heap_next s;
          s1 = s\<lparr>client_heap := (client_heap s)(a \<mapsto> ClientInfo_ctor i socket (fresh_mem s a)),
                 heap_next := a + 1,
                 clients := (if i < length (clients s) then (clients s)[i := Some a] else clients s @ [Some a])\<rparr>
      in if map_of (fd_to_client s1) socket \<noteq> None then (Inl Assert_failed, s1)
         else (Inr a, push_poll_fd \<lparr>pfd_fd = socket, pfd_revents = 0\<rparr>
                        (s1\<lparr>fd_to_client := AList.update socket a (fd_to_client s1)\<rparr>)))"

text \<open>\<open>delete client\<close>: the destructor closes the descriptor.\<close>

definition delete_client :: "nat \<Rightarrow> 'd ClientInfo \<Rightarrow> ('w, 'd) Server \<Rightarrow> ('w, 'd) Server" where
  "delete_client a c s =
     s\<lparr>client_heap := (client_heap s)(a := None),
       socks := (if 0 \<le> ci_fd c then sock_close (ci_fd c) (socks s) else socks s)\<rparr>"

definition remove_client :: "int \<Rightarrow> ('w, 'd) Server \<Rightarrow> unit res \<times> ('w, 'd) Server" where
  "remove_client socket s =
     (case map_of (fd_to_client s) socket of
        None \<Rightarrow> (Inr (), s)
      | Some a \<Rightarrow>
          (case client_heap s a of
             None \<Rightarrow> (Inl (Undefined Use_after_free), s)
           | Some c \<Rightarrow>
               if ci_fd c \<noteq> socket then (Inl Assert_failed, s)
               else if length (clients s) \<le> ci_id c then (Inl (Undefined Out_of_bounds), s)
               else (Inr (), delete_client a c
                       (s\<lparr>clients := (clients s)[ci_id c := None],
                          fd_to_client := AList.delete socket (fd_to_client s)\<rparr>))))"

fun count_clients :: "nat option list \<Rightarrow> nat" where
  "count_clients [] = 0"
| "count_clients (c # cs) = (if c \<noteq> None then 1 else 0) + count_clients cs"

definition get_client_cnt :: "('w, 'd) Server \<Rightarrow> nat res" where
  "get_client_cnt s =
     (let i = count_clients (clients s)
      in if i = length (fd_to_client s) then Inr i else Inl Assert_failed)"

section \<open>Receiving\<close>

text \<open>
  Unprocessed bytes are first moved to the start of the buffer with \<open>memcpy\<close>, whose regions must not
  overlap; then one \<open>recv\<close> appends to them.
\<close>

definition compact_rx :: "RxBuffer \<Rightarrow> RxBuffer res" where
  "compact_rx rx =
     (if 0 < curr_len rx \<and> curr_ptr rx \<noteq> 0 then
        if curr_ptr rx < curr_len rx then Inl (Undefined Overlapping_memcpy)
        else bind_res (aload (rx_array rx) (curr_ptr rx) (curr_len rx)) (\<lambda>bs.
             bind_res (astore (rx_array rx) 0 bs) (\<lambda>a. Inr (rx\<lparr>rx_array := a, curr_ptr := 0\<rparr>)))
      else Inr (rx\<lparr>curr_ptr := 0\<rparr>))"

definition read_from_socket :: "nat \<Rightarrow> ('w, 'd) Server \<Rightarrow> (bool res \<times> ('w, 'd) Server) option" where
  "read_from_socket a s =
     (case client_heap s a of
        None \<Rightarrow> Some (Inl (Undefined Use_after_free), s)
      | Some c \<Rightarrow>
          (case compact_rx (ci_rx c) of
             Inl e \<Rightarrow> Some (Inl e, s)
           | Inr rx \<Rightarrow>
               (case recv_loop (RX_BUFFER_SIZE - curr_len rx) (rx_events (socks s) (ci_fd c)) of
                  None \<Rightarrow> None
                | Some (r, es) \<Rightarrow>
                    (let s1 = s\<lparr>socks := (socks s)\<lparr>rx_events := (rx_events (socks s))(ci_fd c := es)\<rparr>\<rparr>
                     in case r of
                          Received bs \<Rightarrow>
                            (case astore (rx_array rx) (curr_len rx) bs of
                               Inl e \<Rightarrow> Some (Inl e, s1)
                             | Inr arr \<Rightarrow>
                                 Some (Inr True, put_client a
                                   (c\<lparr>ci_rx := rx\<lparr>rx_array := arr, curr_len := curr_len rx + length bs\<rparr>\<rparr>) s1))
                        | _ \<Rightarrow> Some (Inr False, put_client a (c\<lparr>ci_rx := rx\<rparr>) s1)))))"

section \<open>Messages\<close>

text \<open>Sending the response of a handler: a failure turns it into a disconnect.\<close>

definition send_response :: "int \<Rightarrow> PProcRes \<Rightarrow> ('w, 'd) Server \<Rightarrow> (PProcRes res \<times> ('w, 'd) Server) option" where
  "send_response fd r s =
     (case aload (tx_buffer (core s)) 0 (tx_size r) of
        Inl e \<Rightarrow> Some (Inl e, s)
      | Inr bs \<Rightarrow>
          (case sock_send fd bs (socks s) of
             None \<Rightarrow> None
           | Some (ok, n) \<Rightarrow>
               Some (Inr (if ok then r else \<lparr>disconnect = True, tx_size = 0\<rparr>), s\<lparr>socks := n\<rparr>)))"

text \<open>The end of a message whose handler asked to drop the client: \<open>client->fd\<close> is read twice.\<close>

definition drop_client :: "nat \<Rightarrow> ('w, 'd) Server \<Rightarrow> unit res \<times> ('w, 'd) Server" where
  "drop_client a s =
     (case client_heap s a of
        None \<Rightarrow> (Inl (Undefined Use_after_free), s)
      | Some c \<Rightarrow>
          (case remove_client (ci_fd c) s of
             (Inl e, s') \<Rightarrow> (Inl e, s')
           | (Inr _, s') \<Rightarrow>
               (case client_heap s' a of
                  None \<Rightarrow> (Inl (Undefined Use_after_free), s')
                | Some c' \<Rightarrow> (Inr (), s'\<lparr>removed_poll_fds := removed_poll_fds s' @ [ci_fd c']\<rparr>))))"

text \<open>No handler moves the client's position in its buffer or changes its descriptor.\<close>

definition rx_kept :: "'d ClientInfo \<Rightarrow> 'd ClientInfo \<Rightarrow> bool" where
  "rx_kept c c' \<longleftrightarrow> curr_ptr (ci_rx c') = curr_ptr (ci_rx c) \<and> curr_len (ci_rx c') = curr_len (ci_rx c) \<and>
     acap (rx_mem c') = acap (rx_mem c) \<and> ci_fd c' = ci_fd c \<and> ci_id c' = ci_id c"

lemma rx_kept_refl [simp]: "rx_kept c c" "rx_kept c (c\<lparr>ci_devices := ds\<rparr>)"
  by (simp_all add: rx_kept_def)

lemma send_err_client [simp]: "fst (snd (send_err ec msg c s)) = c"
  by (simp add: send_err_def split: sum.split)

lemma call_plugin_client [simp]: "fst (snd (call_plugin p dev k c s)) = c"
  by (auto simp: call_plugin_def Let_def split: sum.split prod.split fault.split)

lemma handle_rw_client [simp]:
  "fst (snd (handle_read ops c h s)) = c" "fst (snd (handle_write ops c h s)) = c"
  by (auto simp: handle_read_def handle_write_def Let_def split: sum.split prod.split fault.split option.split)

lemma handle_rpc_client [simp]:
  "fst (snd (handle_remote_call c h s)) = c" "fst (snd (handle_fast_remote_call c h s)) = c"
  "fst (snd (handle_get_rpc_fn_id c h s)) = c" "fst (snd (handle_ping c h s)) = c"
  by (auto simp: handle_remote_call_def handle_fast_remote_call_def handle_get_rpc_fn_id_def handle_ping_def Let_def
      split: sum.split option.split)

lemma handle_query_kept: "rx_kept c (fst (snd (handle_query ops c h s)))"
  by (auto simp: handle_query_def device_lookup_resp_def Let_def split: sum.split prod.split)

lemma handle_client_msg_kept: "rx_kept c (fst (snd (handle_client_msg c h s)))"
  by (auto simp: handle_client_msg_def rx_kept_def astore_acap split: sum.split)

lemma handle_msg_kept: "rx_kept c (fst (snd (handle_msg ops c h s)))"
  by (simp add: handle_msg_def Let_def handle_query_kept handle_client_msg_kept)

text \<open>The messages at the front of a client's buffer, as long as they are complete.\<close>

definition advance_rx :: "nat \<Rightarrow> 'd ClientInfo \<Rightarrow> 'd ClientInfo" where
  "advance_rx n c =
     c\<lparr>ci_rx := (ci_rx c)\<lparr>curr_ptr := curr_ptr (ci_rx c) + n, curr_len := curr_len (ci_rx c) - n\<rparr>\<rparr>"

lemma send_response_heap:
  "send_response fd r s = Some (q, s') \<Longrightarrow> client_heap s' = client_heap s"
  by (auto simp: send_response_def split: sum.splits option.splits)

function parse_msgs :: "('w, 'd) dev_ops \<Rightarrow> nat \<Rightarrow> ('w, 'd) Server \<Rightarrow> (unit res \<times> ('w, 'd) Server) option" where
  "parse_msgs ops a s =
     (case client_heap s a of
        None \<Rightarrow> Some (Inl (Undefined Use_after_free), s)
      | Some c \<Rightarrow>
          if curr_len (ci_rx c) < sizeof_header then Some (Inr (), s)
          else case aload (rx_mem c) (curr_ptr (ci_rx c)) sizeof_header of
            Inl e \<Rightarrow> Some (Inl e, s)
          | Inr hb \<Rightarrow>
              (let header = dec_header hb;
                   msg_len = sizeof_header + unat (body_len header)
               in if curr_len (ci_rx c) < msg_len then Some (Inr (), s)
                  else case handle_msg ops c header ((core s)\<lparr>rx_pos := curr_ptr (ci_rx c) + sizeof_header\<rparr>) of
                    (Inl e, c', k) \<Rightarrow> Some (Inl e, put_client a c' (s\<lparr>core := k\<rparr>))
                  | (Inr r, c', k) \<Rightarrow>
                      (case send_response (ci_fd c') r (put_client a c' (s\<lparr>core := k\<rparr>)) of
                         None \<Rightarrow> None
                       | Some (Inl e, s2) \<Rightarrow> Some (Inl e, s2)
                       | Some (Inr r', s2) \<Rightarrow>
                           (let s3 = put_client a (advance_rx msg_len c') s2
                            in if \<not> disconnect r' then parse_msgs ops a s3
                               else Some (drop_client a s3)))))"
  by pat_completeness auto
termination
proof (relation "measure (\<lambda>(ops, a, s). case client_heap s a of None \<Rightarrow> 0 | Some c \<Rightarrow> curr_len (ci_rx c))", goal_cases)
  case (2 ops a s c hb header msg_len x1 x2 r c' k q q1 s2 r' s3)
  then have "handle_msg ops c header ((core s)\<lparr>rx_pos := curr_ptr (ci_rx c) + sizeof_header\<rparr>) = (Inr r, c', k)"
    by simp
  then have "rx_kept c c'"
    using handle_msg_kept [of c ops header "(core s)\<lparr>rx_pos := curr_ptr (ci_rx c) + sizeof_header\<rparr>"] by simp
  with 2 show ?case by (auto simp: advance_rx_def rx_kept_def)
qed simp

declare parse_msgs.simps [simp del]

text \<open>The client of a descriptor, added when the descriptor is not known.\<close>

definition client_of_fd :: "int \<Rightarrow> ('w, 'd) Server \<Rightarrow> nat res \<times> ('w, 'd) Server" where
  "client_of_fd sd s =
     (case map_of (fd_to_client s) sd of None \<Rightarrow> add_new_client sd s | Some a \<Rightarrow> (Inr a, s))"

definition handle_multiple_client_requests ::
  "('w, 'd) dev_ops \<Rightarrow> int \<Rightarrow> ('w, 'd) Server \<Rightarrow> (unit res \<times> ('w, 'd) Server) option" where
  "handle_multiple_client_requests ops sd s =
     (case client_of_fd sd s of
        (Inl e, s1) \<Rightarrow> Some (Inl e, s1)
      | (Inr a, s1) \<Rightarrow>
          (case client_heap s1 a of
             None \<Rightarrow> Some (Inl (Undefined Use_after_free), s1)
           | Some c \<Rightarrow>
               if ci_fd c \<noteq> sd then Some (Inl Assert_failed, s1)
               else case read_from_socket a s1 of
                 None \<Rightarrow> None
               | Some (Inl e, s2) \<Rightarrow> Some (Inl e, s2)
               | Some (Inr True, s2) \<Rightarrow> parse_msgs ops a s2
               | Some (Inr False, s2) \<Rightarrow>
                   (case remove_client sd s2 of
                      (Inl e, s3) \<Rightarrow> Some (Inl e, s3)
                    | (Inr _, s3) \<Rightarrow> Some (Inr (), s3\<lparr>removed_poll_fds := removed_poll_fds s3 @ [sd]\<rparr>))))"

section \<open>One round of \<open>ppoll\<close>\<close>

text \<open>The answer of \<open>ppoll\<close>; a ready answer fills the \<open>revents\<close> of every entry.\<close>

datatype poll_answer = Poll_timeout | Poll_intr | Poll_error | Poll_ready "u16 list"

definition poll_failed :: "u16 \<Rightarrow> bool" where
  "poll_failed e \<longleftrightarrow> (e AND POLLERR) OR (e AND POLLHUP) OR (e AND POLLNVAL) \<noteq> 0"

text \<open>One entry of the loop; \<open>acc\<close> is the answer of \<open>accept\<close>.\<close>

definition poll_entry ::
  "('w, 'd) dev_ops \<Rightarrow> int \<Rightarrow> pollfd \<Rightarrow> ('w, 'd) Server \<Rightarrow> (unit res \<times> ('w, 'd) Server) option" where
  "poll_entry ops acc p s =
     (if pfd_fd p < 0 \<or> pfd_revents p = 0 then Some (Inr (), s)
      else if poll_failed (pfd_revents p) then
        if pfd_fd p = master_socket s then Some (Inl (Throw Runtime_error), s)
        else (case remove_client (pfd_fd p) s of
                (Inl e, s') \<Rightarrow> Some (Inl e, s')
              | (Inr _, s') \<Rightarrow> Some (Inr (), s'\<lparr>removed_poll_fds := removed_poll_fds s' @ [pfd_fd p]\<rparr>))
      else if pfd_fd p = master_socket s then
        if acc < 0 then Some (Inl (Throw Runtime_error), s)
        else (case add_new_client acc s of
                (Inl e, s') \<Rightarrow> Some (Inl e, s')
              | (Inr _, s') \<Rightarrow> Some (Inr (), s'))
      else handle_multiple_client_requests ops (pfd_fd p) s)"

text \<open>
  The range-for: its bounds are those of the vector at the start. When the body made the vector
  move to a larger block, the next entry is read from the old one.
\<close>

fun poll_loop ::
  "('w, 'd) dev_ops \<Rightarrow> int \<Rightarrow> nat \<Rightarrow> pollfd list \<Rightarrow> ('w, 'd) Server \<Rightarrow> (unit res \<times> ('w, 'd) Server) option" where
  "poll_loop ops acc cap [] s = Some (Inr (), s)"
| "poll_loop ops acc cap (p # ps) s =
     (if poll_cap s \<noteq> cap then Some (Inl (Undefined Use_after_free), s)
      else case poll_entry ops acc p s of
        None \<Rightarrow> None
      | Some (Inl e, s') \<Rightarrow> Some (Inl e, s')
      | Some (Inr _, s') \<Rightarrow> poll_loop ops acc cap ps s')"

text \<open>The capacity of a vector after \<open>n\<close> calls of \<open>push_back\<close>.\<close>

primrec vec_cap :: "(nat \<Rightarrow> nat) \<Rightarrow> nat \<Rightarrow> nat" where
  "vec_cap grow 0 = 0"
| "vec_cap grow (Suc n) = (let c = vec_cap grow n in if n < c then c else grow c)"

definition clean_poll_fds :: "('w, 'd) Server \<Rightarrow> ('w, 'd) Server" where
  "clean_poll_fds s =
     (if removed_poll_fds s \<noteq> []
      then (let new_poll_fds = filter (\<lambda>p. pfd_fd p \<notin> set (removed_poll_fds s)) (poll_fds s)
            in s\<lparr>poll_fds := new_poll_fds, poll_cap := vec_cap (vec_grow s) (length new_poll_fds),
                 removed_poll_fds := []\<rparr>)
      else s)"

definition pool_client_msgs ::
  "('w, 'd) dev_ops \<Rightarrow> poll_answer \<Rightarrow> int \<Rightarrow> ('w, 'd) Server \<Rightarrow> (unit res \<times> ('w, 'd) Server) option" where
  "pool_client_msgs ops ans acc s =
     (case ans of
        Poll_timeout \<Rightarrow> Some (Inr (), s)
      | Poll_intr \<Rightarrow> Some (Inr (), s)
      | Poll_error \<Rightarrow> Some (Inl (Throw Runtime_error), s)
      | Poll_ready revs \<Rightarrow>
          (let s1 = s\<lparr>poll_fds := map2 (\<lambda>p e. p\<lparr>pfd_revents := e\<rparr>) (poll_fds s) revs\<rparr>
           in case poll_loop ops acc (poll_cap s1) (poll_fds s1) s1 of
                None \<Rightarrow> None
              | Some (Inl e, s2) \<Rightarrow> Some (Inl e, s2)
              | Some (Inr _, s2) \<Rightarrow> Some (Inr (), clean_poll_fds s2)))"

section \<open>Start and end of the server\<close>

text \<open>The constructor, for given buses; \<open>tx\<close> and \<open>mem\<close> are what fresh memory holds.\<close>

definition HwioServer_ctor ::
  "('w, 'd) bus list \<Rightarrow> 'w \<Rightarrow> (nat \<Rightarrow> byte) \<Rightarrow> nat \<Rightarrow> (nat \<Rightarrow> nat \<Rightarrow> byte) \<Rightarrow> (nat \<Rightarrow> nat) \<Rightarrow> sockets \<Rightarrow> ('w, 'd) Server" where
  "HwioServer_ctor bs w tx pos mem grow n =
     \<lparr>core = \<lparr>tx_buffer = \<lparr>acap = BUFFER_SIZE, aget = tx\<rparr>, rx_pos = pos, buses = bs, plugins = [],
              plugins_fast = [], plugins_fast_names = [], world = w\<rparr>,
      master_socket = - 1, poll_fds = [], poll_cap = 0, removed_poll_fds = [], fd_to_client = [], clients = [],
      client_heap = (\<lambda>_. None), heap_next = 0, fresh_mem = mem, vec_grow = grow, socks = n\<rparr>"

text \<open>The results of \<open>socket\<close>, the two \<open>setsockopt\<close>, \<open>bind\<close> and \<open>listen\<close>.\<close>

record listen_answers =
  la_socket :: int
  la_reuseaddr :: int
  la_keepalive :: int
  la_bind :: int
  la_listen :: int

definition prepare_server_socket ::
  "listen_answers \<Rightarrow> u16 \<Rightarrow> ('w, 'd) Server \<Rightarrow> unit res \<times> ('w, 'd) Server" where
  "prepare_server_socket la junk s =
     (let s1 = s\<lparr>master_socket := la_socket la\<rparr>
      in if la_socket la = 0 then (Inl (Throw Runtime_error), s1)
         else if la_reuseaddr la < 0 then (Inl (Throw Runtime_error), s1)
         else if la_keepalive la < 0 then (Inl (Throw Runtime_error), s1)
         else if la_bind la < 0 then (Inl (Throw Runtime_error), s1)
         else if la_listen la < 0 then (Inl (Throw Runtime_error), s1)
         else (Inr (), push_poll_fd \<lparr>pfd_fd = master_socket s1, pfd_revents = junk\<rparr> s1))"

text \<open>The destructor deletes every client and closes the listening socket.\<close>

fun delete_clients :: "nat option list \<Rightarrow> ('w, 'd) Server \<Rightarrow> unit res \<times> ('w, 'd) Server" where
  "delete_clients [] s = (Inr (), s)"
| "delete_clients (None # cs) s = delete_clients cs s"
| "delete_clients (Some a # cs) s =
     (case client_heap s a of
        None \<Rightarrow> (Inl (Undefined Use_after_free), s)
      | Some c \<Rightarrow> delete_clients cs (delete_client a c s))"

definition HwioServer_delete :: "('w, 'd) Server \<Rightarrow> unit res \<times> ('w, 'd) Server" where
  "HwioServer_delete s =
     (case delete_clients (clients s) s of
        (Inl e, s') \<Rightarrow> (Inl e, s')
      | (Inr _, s') \<Rightarrow>
          (Inr (), if 0 \<le> master_socket s' then s'\<lparr>socks := sock_close (master_socket s') (socks s')\<rparr> else s'))"

section \<open>Runs\<close>

text \<open>A plugin function stores into the arrays it is given; it cannot resize them.\<close>

definition plugin_sized :: "('w, 'd) plugin_info \<Rightarrow> bool" where
  "plugin_sized p \<longleftrightarrow> (\<forall>d rx i tx j w. acap (fst (snd (pl_fn p d rx i tx j w))) = acap tx)"

text \<open>
  The states of a server that was started and then called in a loop: \<open>accept\<close> returns a descriptor
  that is not in use, a ready answer of \<open>ppoll\<close> has one \<open>revents\<close> for every entry, and plugin
  functions are installed between the rounds.
\<close>

inductive server_run :: "('w, 'd) dev_ops \<Rightarrow> ('w, 'd) Server \<Rightarrow> bool" for ops where
  start: "prepare_server_socket la junk (HwioServer_ctor bs w tx pos mem grow n) = (Inr (), s) \<Longrightarrow> server_run ops s"
| install: "server_run ops s \<Longrightarrow> plugin_sized p \<Longrightarrow> server_run ops (s\<lparr>core := install_plugin_fn fn_name p (core s)\<rparr>)"
| round: "server_run ops s \<Longrightarrow> acc \<notin> insert (master_socket s) (set (map fst (fd_to_client s))) \<Longrightarrow>
    (case ans of Poll_ready revs \<Rightarrow> length revs = length (poll_fds s) | _ \<Rightarrow> True) \<Longrightarrow>
    pool_client_msgs ops ans acc s = Some (Inr (), s') \<Longrightarrow> server_run ops s'"

end
