(* ===== verification/Hwio_Clients_Laws.thy ===== *)
theory Hwio_Clients_Laws
  imports Hwio_Server_Loop Hwio_Server_Laws
begin

text \<open>
  The tables of the server: \<open>clients\<close>, \<open>fd_to_client\<close>, the poll descriptors and the heap of
  \<open>ClientInfo\<close> objects describe the same set of connections, and every round of \<open>ppoll\<close> that ends
  normally keeps them so.
\<close>

section \<open>The invariant\<close>

text \<open>
  Each descriptor of \<open>fd_to_client\<close> has a live object that knows its descriptor and its slot in
  \<open>clients\<close>, each used slot is such an object, every object is in a slot, so none is leaked, and addresses not
  yet handed out are not in use.
\<close>

definition client_at :: "('w, 'd) Server \<Rightarrow> int \<Rightarrow> nat \<Rightarrow> bool" where
  "client_at s fd a \<longleftrightarrow>
     (\<exists>c. client_heap s a = Some c \<and> ci_fd c = fd \<and> ci_id c < length (clients s) \<and> clients s ! ci_id c = Some a)"

definition clients_wf :: "('w, 'd) Server \<Rightarrow> bool" where
  "clients_wf s \<longleftrightarrow>
     distinct (map fst (fd_to_client s)) \<and>
     (\<forall>fd a. map_of (fd_to_client s) fd = Some a \<longrightarrow> client_at s fd a) \<and>
     (\<forall>i a. i < length (clients s) \<longrightarrow> clients s ! i = Some a \<longrightarrow>
        (\<exists>c. client_heap s a = Some c \<and> ci_id c = i \<and> map_of (fd_to_client s) (ci_fd c) = Some a)) \<and>
     (\<forall>a. client_heap s a \<noteq> None \<longrightarrow> a < heap_next s \<and> Some a \<in> set (clients s))"

text \<open>Of the objects only the descriptor and the slot matter.\<close>

definition client_keys :: "('w, 'd) Server \<Rightarrow> nat \<Rightarrow> (int \<times> nat) option" where
  "client_keys s a = map_option (\<lambda>c. (ci_fd c, ci_id c)) (client_heap s a)"

lemma client_keys_Some:
  "client_keys s a = Some (fd, i) \<longleftrightarrow> (\<exists>c. client_heap s a = Some c \<and> ci_fd c = fd \<and> ci_id c = i)"
  by (auto simp: client_keys_def)

lemma clients_wf_keys:
  "clients_wf s \<longleftrightarrow>
     distinct (map fst (fd_to_client s)) \<and>
     (\<forall>fd a. map_of (fd_to_client s) fd = Some a \<longrightarrow>
        (\<exists>i. client_keys s a = Some (fd, i) \<and> i < length (clients s) \<and> clients s ! i = Some a)) \<and>
     (\<forall>i a. i < length (clients s) \<longrightarrow> clients s ! i = Some a \<longrightarrow>
        (\<exists>fd. client_keys s a = Some (fd, i) \<and> map_of (fd_to_client s) fd = Some a)) \<and>
     (\<forall>a. client_keys s a \<noteq> None \<longrightarrow> a < heap_next s \<and> Some a \<in> set (clients s))"
  unfolding clients_wf_def client_at_def client_keys_Some
  by (intro arg_cong2 [where f = conj] refl iff_allI arg_cong2 [where f = implies]) (auto simp: client_keys_def)

lemma clients_wf_cong:
  assumes "clients_wf s" "fd_to_client s' = fd_to_client s" "clients s' = clients s" "heap_next s' = heap_next s"
    and "client_keys s' = client_keys s"
  shows "clients_wf s'"
  using assms(1) unfolding clients_wf_keys assms(2-5) .

text \<open>The same as three maps that agree: from objects to keys, from descriptors and from slots to objects.\<close>

definition tables_wf :: "(nat \<rightharpoonup> int \<times> nat) \<Rightarrow> (int \<rightharpoonup> nat) \<Rightarrow> (nat \<rightharpoonup> nat) \<Rightarrow> bool" where
  "tables_wf keys fds slots \<longleftrightarrow>
     (\<forall>a fd i. keys a = Some (fd, i) \<longrightarrow> fds fd = Some a \<and> slots i = Some a) \<and>
     (\<forall>fd a. fds fd = Some a \<longrightarrow> (\<exists>i. keys a = Some (fd, i))) \<and>
     (\<forall>i a. slots i = Some a \<longrightarrow> (\<exists>fd. keys a = Some (fd, i)))"

lemma tables_wfD:
  assumes "tables_wf keys fds slots"
  shows "keys a = Some (fd, i) \<Longrightarrow> fds fd = Some a" "keys a = Some (fd, i) \<Longrightarrow> slots i = Some a"
    "fds fd = Some a \<Longrightarrow> \<exists>i. keys a = Some (fd, i)" "slots i = Some a \<Longrightarrow> \<exists>fd. keys a = Some (fd, i)"
  using assms unfolding tables_wf_def by blast+

lemma tables_wf_add:
  assumes "tables_wf keys fds slots" "keys a = None" "fds fd = None" "slots i = None"
  shows "tables_wf (keys(a \<mapsto> (fd, i))) (fds(fd \<mapsto> a)) (slots(i \<mapsto> a))"
  unfolding tables_wf_def
  using assms(2-4) tables_wfD [OF assms(1)] by (auto split: if_splits) (metis option.distinct(1))+

lemma tables_wf_remove:
  assumes "tables_wf keys fds slots" "keys a = Some (fd, i)"
  shows "tables_wf (keys(a := None)) (fds(fd := None)) (slots(i := None))"
proof -
  have "fds fd = Some a" "slots i = Some a" using tables_wfD [OF assms(1)] assms(2) by blast+
  then show ?thesis
    unfolding tables_wf_def using assms(2) tables_wfD [OF assms(1)] by (auto split: if_splits) (metis prod.inject option.inject)+
qed

definition slot_of :: "nat option list \<Rightarrow> nat \<rightharpoonup> nat" where
  "slot_of cs i = (if i < length cs then cs ! i else None)"

lemma slot_of_simps [simp]:
  "i < length cs \<Longrightarrow> slot_of (cs[i := x]) = (slot_of cs)(i := x)" "slot_of (cs @ [x]) = (slot_of cs)(length cs := x)"
  by (auto simp: slot_of_def fun_eq_iff nth_append)

lemma clients_wf_tables:
  "clients_wf s \<longleftrightarrow> distinct (map fst (fd_to_client s)) \<and>
     tables_wf (client_keys s) (map_of (fd_to_client s)) (slot_of (clients s)) \<and> (\<forall>a \<in> dom (client_keys s). a < heap_next s)"
proof -
  let ?K = "client_keys s" and ?M = "map_of (fd_to_client s)" and ?S = "slot_of (clients s)"
  have slot: "i < length (clients s) \<and> clients s ! i = Some a \<longleftrightarrow> ?S i = Some a" for i a by (simp add: slot_of_def)
  have used: "Some a \<in> set (clients s) \<longleftrightarrow> (\<exists>i. ?S i = Some a)" for a unfolding slot [symmetric] by (simp add: in_set_conv_nth)
  have eq: "(\<forall>fd a. ?M fd = Some a \<longrightarrow> (\<exists>i. ?K a = Some (fd, i) \<and> ?S i = Some a)) \<and>
      (\<forall>i a. ?S i = Some a \<longrightarrow> (\<exists>fd. ?K a = Some (fd, i) \<and> ?M fd = Some a)) \<and>
      (\<forall>a. ?K a \<noteq> None \<longrightarrow> a < heap_next s \<and> (\<exists>i. ?S i = Some a)) \<longleftrightarrow>
    tables_wf ?K ?M ?S \<and> (\<forall>a \<in> dom ?K. a < heap_next s)" (is "?L \<longleftrightarrow> ?R")
  proof
    assume L: ?L
    have "?M fd = Some a \<and> ?S i = Some a" if k: "?K a = Some (fd, i)" for a fd i
    proof -
      obtain j where "?S j = Some a" using L k by blast
      then obtain fd' where "?K a = Some (fd', j)" "?M fd' = Some a" "?S j = Some a" using L by blast
      then show ?thesis using k by simp
    qed
    then show ?R using L unfolding tables_wf_def by blast
  next
    assume R: ?R
    then have wf: "tables_wf ?K ?M ?S" by blast
    have "a < heap_next s \<and> (\<exists>i. ?S i = Some a)" if "?K a \<noteq> None" for a
    proof -
      obtain fd i where "?K a = Some (fd, i)" using \<open>?K a \<noteq> None\<close> by auto
      then show ?thesis using R tables_wfD(2) [OF wf] by blast
    qed
    then show ?L using tables_wfD [OF wf] by (intro conjI allI impI; meson)
  qed
  have imp: "(i < length (clients s) \<longrightarrow> clients s ! i = Some a \<longrightarrow> P) \<longleftrightarrow> (?S i = Some a \<longrightarrow> P)" for i a P
    unfolding slot [symmetric] by blast
  show ?thesis unfolding clients_wf_keys imp slot used by (rule arg_cong [where f = "(\<and>) _"]) (rule eq)
qed

section \<open>Adding and removing a client\<close>

lemma first_empty_slot_eq: "first_empty_slot cs i = i + length (takeWhile (\<lambda>c. c \<noteq> None) cs)"
  by (induction cs arbitrary: i) auto

lemma first_empty_slot_bound: "first_empty_slot cs 0 \<le> length cs"
  by (simp add: first_empty_slot_eq length_takeWhile_le)

lemma first_empty_slot_free: "first_empty_slot cs 0 < length cs \<Longrightarrow> cs ! first_empty_slot cs 0 = None"
  using nth_length_takeWhile [of "\<lambda>c. c \<noteq> None" cs] by (simp add: first_empty_slot_eq)

text \<open>What the tables hold after a client was added for a new descriptor.\<close>

lemma add_new_client_ok:
  assumes "map_of (fd_to_client s) fd = None"
  obtains i s' where "add_new_client fd s = (Inr (heap_next s), s')"
    "client_heap s' = (client_heap s)(heap_next s \<mapsto> ClientInfo_ctor i fd (fresh_mem s (heap_next s)))"
    "heap_next s' = heap_next s + 1" "fd_to_client s' = AList.update fd (heap_next s) (fd_to_client s)"
    "i < length (clients s) \<and> clients s ! i = None \<and> clients s' = (clients s)[i := Some (heap_next s)] \<or>
     i = length (clients s) \<and> clients s' = clients s @ [Some (heap_next s)]"
    "poll_fds s' = poll_fds s @ [\<lparr>pfd_fd = fd, pfd_revents = 0\<rparr>]" "removed_poll_fds s' = removed_poll_fds s"
    "master_socket s' = master_socket s"
proof (rule that [of "snd (add_new_client fd s)" "first_empty_slot (clients s) 0"])
  let ?i = "first_empty_slot (clients s) 0"
  show "?i < length (clients s) \<and> clients s ! ?i = None \<and>
      clients (snd (add_new_client fd s)) = (clients s)[?i := Some (heap_next s)] \<or>
    ?i = length (clients s) \<and> clients (snd (add_new_client fd s)) = clients s @ [Some (heap_next s)]"
    using assms first_empty_slot_bound [of "clients s"] first_empty_slot_free [of "clients s"]
    by (auto simp: add_new_client_def push_poll_fd_def Let_def)
qed (simp_all add: add_new_client_def push_poll_fd_def Let_def assms)

lemma clients_wfD:
  assumes "clients_wf s"
  shows "distinct (map fst (fd_to_client s))"
    and "map_of (fd_to_client s) fd = Some a \<Longrightarrow> client_at s fd a"
    and "i < length (clients s) \<Longrightarrow> clients s ! i = Some a \<Longrightarrow>
      \<exists>c. client_heap s a = Some c \<and> ci_id c = i \<and> map_of (fd_to_client s) (ci_fd c) = Some a"
    and "client_heap s a = Some c \<Longrightarrow> a < heap_next s"
    and "client_heap s a = Some c \<Longrightarrow> Some a \<in> set (clients s)"
  using assms by (auto simp: clients_wf_def)

lemma client_atE:
  assumes "client_at s fd a"
  obtains c where "client_heap s a = Some c" "ci_fd c = fd" "ci_id c < length (clients s)" "clients s ! ci_id c = Some a"
  using assms by (auto simp: client_at_def)

lemma add_new_client_wf:
  assumes "clients_wf s" "map_of (fd_to_client s) fd = None" "add_new_client fd s = (r, s')"
  shows "clients_wf s'"
proof -
  obtain i where s': "client_heap s' = (client_heap s)(heap_next s \<mapsto> ClientInfo_ctor i fd (fresh_mem s (heap_next s)))"
    "heap_next s' = heap_next s + 1" "fd_to_client s' = AList.update fd (heap_next s) (fd_to_client s)"
    and i: "i < length (clients s) \<and> clients s ! i = None \<and> clients s' = (clients s)[i := Some (heap_next s)] \<or>
      i = length (clients s) \<and> clients s' = clients s @ [Some (heap_next s)]"
    using add_new_client_ok [OF assms(2)] assms(3) by (metis snd_conv)
  have wf: "distinct (map fst (fd_to_client s))"
      "tables_wf (client_keys s) (map_of (fd_to_client s)) (slot_of (clients s))" "dom (client_keys s) \<subseteq> {..<heap_next s}"
    using assms(1) by (auto simp: clients_wf_tables)
  have keys: "client_keys s' = (client_keys s)(heap_next s \<mapsto> (fd, i))"
    by (simp add: client_keys_def s'(1) fun_eq_iff ClientInfo_ctor_def)
  have slots: "slot_of (clients s') = (slot_of (clients s))(i \<mapsto> heap_next s)" "slot_of (clients s) i = None"
    using i by (auto simp: slot_of_def)
  have fresh: "client_keys s (heap_next s) = None" using wf(3) by auto
  show ?thesis
    using wf(1,3) tables_wf_add [OF wf(2) fresh assms(2) slots(2)]
    by (auto simp: clients_wf_tables keys slots(1) s'(2,3) update_conv' distinct_update intro: less_SucI)
qed

text \<open>Removing the client of a known descriptor.\<close>

lemma remove_client_ok:
  assumes "clients_wf s" "map_of (fd_to_client s) fd = Some a"
  obtains c where "client_heap s a = Some c" "ci_fd c = fd" "remove_client fd s = (Inr (), delete_client a c
      (s\<lparr>clients := (clients s)[ci_id c := None], fd_to_client := AList.delete fd (fd_to_client s)\<rparr>))"
  using clients_wfD(2) [OF assms] assms(2) that by (auto simp: remove_client_def elim!: client_atE)

lemma remove_client_wf:
  assumes "clients_wf s" "remove_client fd s = (Inr (), s')"
  shows "clients_wf s'"
proof (cases "map_of (fd_to_client s) fd")
  case None
  then show ?thesis using assms by (simp add: remove_client_def)
next
  case (Some a)
  obtain c where c: "client_heap s a = Some c" "ci_fd c = fd" "s' = delete_client a c
      (s\<lparr>clients := (clients s)[ci_id c := None], fd_to_client := AList.delete fd (fd_to_client s)\<rparr>)"
    using remove_client_ok [OF assms(1) Some] assms(2) by (metis Pair_inject)
  have key: "client_keys s a = Some (fd, ci_id c)" using c(1,2) by (simp add: client_keys_def)
  have id: "ci_id c < length (clients s)"
    using clients_wfD(2) [OF assms(1) Some] c(1) by (auto elim: client_atE)
  have keys: "client_keys s' = (client_keys s)(a := None)"
    by (simp add: client_keys_def c(3) delete_client_def fun_eq_iff)
  have wf: "distinct (map fst (fd_to_client s))"
      "tables_wf (client_keys s) (map_of (fd_to_client s)) (slot_of (clients s))" "\<forall>a \<in> dom (client_keys s). a < heap_next s"
    using assms(1) by (simp_all add: clients_wf_tables)
  show ?thesis
    using wf(1,3) tables_wf_remove [OF wf(2) key] id
    by (simp add: clients_wf_tables keys) (simp add: c(3) delete_client_def delete_conv' distinct_delete)
qed

section \<open>The number of clients\<close>

lemma count_clients_filter: "count_clients cs = length (filter (\<lambda>c. c \<noteq> None) cs)"
  by (induction cs) auto

lemma distinct_filter_nth:
  assumes "\<And>i j. i < length xs \<Longrightarrow> j < length xs \<Longrightarrow> xs ! i = xs ! j \<Longrightarrow> P (xs ! i) \<Longrightarrow> i = j"
  shows "distinct (filter P xs)"
  using assms
proof (induction xs)
  case (Cons x xs)
  have "distinct (filter P xs)"
    by (rule Cons.IH) (use Cons.prems [of "Suc _" "Suc _"] in auto)
  moreover have "x \<notin> set xs" if "P x"
    using that Cons.prems [of 0 "Suc _"] by (fastforce simp: in_set_conv_nth)
  ultimately show ?case by simp
qed simp

lemma client_count:
  assumes "clients_wf s"
  shows "count_clients (clients s) = length (fd_to_client s)"
proof -
  let ?used = "filter (\<lambda>c. c \<noteq> None) (clients s)" and ?addrs = "map (\<lambda>(fd, a). Some a) (fd_to_client s)"
  have "distinct ?used"
  proof (rule distinct_filter_nth)
    fix i j assume ij: "i < length (clients s)" "j < length (clients s)" "clients s ! i = clients s ! j" "clients s ! i \<noteq> None"
    then obtain a where a: "clients s ! i = Some a" "clients s ! j = Some a" by auto
    show "i = j" using clients_wfD(3) [OF assms ij(1) a(1)] clients_wfD(3) [OF assms ij(2) a(2)] by auto
  qed
  moreover have "inj_on (\<lambda>(fd, a). Some a) (set (fd_to_client s))"
  proof (rule inj_onI)
    fix x y assume xy: "x \<in> set (fd_to_client s)" "y \<in> set (fd_to_client s)"
      "(case x of (fd, a) \<Rightarrow> Some a) = (case y of (fd, a) \<Rightarrow> Some a)"
    obtain fd a fd' a' where "x = (fd, a)" "y = (fd', a')" by fastforce
    with xy(3) have eq: "x = (fd, a)" "y = (fd', a)" by simp_all
    have "client_at s fd a" "client_at s fd' a"
      using clients_wfD(1,2) [OF assms] xy(1,2) by (simp_all add: eq map_of_is_SomeI)
    then show "x = y" by (auto simp: eq elim!: client_atE)
  qed
  then have "distinct ?addrs"
    using clients_wfD(1) [OF assms] by (simp add: distinct_map)
  moreover have "set ?used = set ?addrs"
  proof (intro equalityI subsetI)
    fix x assume "x \<in> set ?used"
    then obtain i a where "i < length (clients s)" "clients s ! i = Some a" "x = Some a"
      by (auto simp: in_set_conv_nth)
    then show "x \<in> set ?addrs" using clients_wfD(3) [OF assms] by (fastforce dest: map_of_SomeD)
  next
    fix x assume "x \<in> set ?addrs"
    then obtain fd a where "map_of (fd_to_client s) fd = Some a" "x = Some a"
      using clients_wfD(1) [OF assms] by (auto simp: map_of_is_SomeI)
    then show "x \<in> set ?used"
      using clients_wfD(2) [OF assms] by (auto elim!: client_atE simp: in_set_conv_nth)
  qed
  ultimately have "length ?used = length ?addrs" by (metis distinct_card)
  then show ?thesis by (simp add: count_clients_filter)
qed

section \<open>Serving a client keeps the tables\<close>

definition same_tables :: "('w, 'd) Server \<Rightarrow> ('w, 'd) Server \<Rightarrow> bool" where
  "same_tables s s' \<longleftrightarrow>
     fd_to_client s' = fd_to_client s \<and> clients s' = clients s \<and> heap_next s' = heap_next s \<and>
     poll_fds s' = poll_fds s \<and> removed_poll_fds s' = removed_poll_fds s \<and> master_socket s' = master_socket s \<and>
     client_keys s' = client_keys s"

lemma same_tables_refl [simp]: "same_tables s s"
  by (simp add: same_tables_def)

lemma same_tables_trans: "same_tables s t \<Longrightarrow> same_tables t u \<Longrightarrow> same_tables s u"
  by (simp add: same_tables_def)

lemma same_tables_wf: "same_tables s s' \<Longrightarrow> clients_wf s \<Longrightarrow> clients_wf s'"
  by (rule clients_wf_cong) (auto simp: same_tables_def)

lemma same_tables_put:
  "client_heap s a = Some c \<Longrightarrow> ci_fd c' = ci_fd c \<Longrightarrow> ci_id c' = ci_id c \<Longrightarrow>
   same_tables s (put_client a c' s)"
  by (auto simp: same_tables_def client_keys_def fun_eq_iff)

lemma same_tables_inner: "same_tables s (s\<lparr>socks := n\<rparr>)" "same_tables s (s\<lparr>core := k\<rparr>)"
  by (simp_all add: same_tables_def client_keys_def fun_eq_iff)

lemma same_tables_client:
  assumes "same_tables s s'" "client_heap s a = Some c"
  obtains c' where "client_heap s' a = Some c'" "ci_fd c' = ci_fd c" "ci_id c' = ci_id c"
proof -
  have "client_keys s' a = Some (ci_fd c, ci_id c)"
    using assms by (simp add: same_tables_def client_keys_def)
  then show thesis using that by (auto simp: client_keys_Some)
qed

lemma read_from_socket_tables:
  assumes "read_from_socket a s = Some (r, s')"
  shows "same_tables s s'"
proof -
  have put: "same_tables s (s\<lparr>socks := n, client_heap := (client_heap s)(a \<mapsto> c\<lparr>ci_rx := rx\<rparr>)\<rparr>)"
    if "client_heap s a = Some c" for c rx n
    using that by (auto simp: same_tables_def client_keys_def fun_eq_iff)
  show ?thesis
    using assms
    by (auto simp: read_from_socket_def Let_def same_tables_inner put
        split: option.splits sum.splits prod.splits recv_result.splits)
qed

lemma send_response_tables: "send_response fd r s = Some (q, s') \<Longrightarrow> same_tables s s'"
  by (auto simp: send_response_def same_tables_inner split: option.splits sum.splits)

text \<open>Dropping a client in \<open>parse_msgs\<close> always uses the object after it was deleted.\<close>

lemma drop_client_use_after_free:
  assumes "clients_wf s" "client_heap s a = Some c" "map_of (fd_to_client s) (ci_fd c) = Some a"
  shows "\<exists>s'. drop_client a s = (Inl (Undefined Use_after_free), s') \<and> remove_client (ci_fd c) s = (Inr (), s') \<and>
    clients_wf s' \<and> map_of (fd_to_client s') (ci_fd c) = None"
proof -
  let ?s = "\<lambda>d. delete_client a d (s\<lparr>clients := (clients s)[ci_id d := None],
      fd_to_client := AList.delete (ci_fd c) (fd_to_client s)\<rparr>)"
  obtain d where d: "remove_client (ci_fd c) s = (Inr (), ?s d)"
    by (rule remove_client_ok [OF assms(1,3)])
  have "client_heap (?s d) a = None" "fd_to_client (?s d) = AList.delete (ci_fd c) (fd_to_client s)"
    by (simp_all add: delete_client_def)
  then show ?thesis
    using assms(2) d remove_client_wf [OF assms(1) d]
    by (intro exI [of _ "?s d"]) (simp add: drop_client_def delete_conv)
qed

lemma same_tables_msg:
  assumes "client_heap s a = Some c" "handle_msg ops c h k = (r, c', k')"
  shows "same_tables s (put_client a c' (s\<lparr>core := k'\<rparr>))" "rx_kept c c'"
proof -
  show kept: "rx_kept c c'" using handle_msg_kept [of c ops h k] assms(2) by simp
  show "same_tables s (put_client a c' (s\<lparr>core := k'\<rparr>))"
    by (rule same_tables_trans [OF same_tables_inner(2) same_tables_put]) (use assms(1) kept in \<open>auto simp: rx_kept_def\<close>)
qed

text \<open>One message, when \<open>parse_msgs\<close> goes on after it.\<close>

lemma parse_msgs_cases:
  assumes "parse_msgs ops a s = Some (Inr (), s')" "clients_wf s"
    and "client_heap s a = Some c" "map_of (fd_to_client s) (ci_fd c) = Some a"
  obtains (stop) "s' = s"
  | (go) c1 s1 where "same_tables s s1" "client_heap s1 a = Some c1" "ci_fd c1 = ci_fd c"
      "curr_len (ci_rx c1) < curr_len (ci_rx c)" "parse_msgs ops a s1 = Some (Inr (), s')"
proof -
  consider "s' = s" | hb r c1 k s2 r' where
      "3 + unat (body_len (dec_header hb)) \<le> curr_len (ci_rx c)"
      "handle_msg ops c (dec_header hb) ((core s)\<lparr>rx_pos := curr_ptr (ci_rx c) + 3\<rparr>) = (Inr r, c1, k)"
      "send_response (ci_fd c1) r (put_client a c1 (s\<lparr>core := k\<rparr>)) = Some (Inr r', s2)"
      "(if \<not> disconnect r'
        then parse_msgs ops a (put_client a (advance_rx (3 + unat (body_len (dec_header hb))) c1) s2)
        else Some (drop_client a (put_client a (advance_rx (3 + unat (body_len (dec_header hb))) c1) s2))) = Some (Inr (), s')"
    using assms(1) unfolding parse_msgs.simps [of ops a s] assms(3)
    by (auto simp: Let_def not_less split: if_splits sum.splits prod.splits option.splits)
  then show thesis
  proof cases
    case 1
    then show thesis by (rule stop)
  next
    case (2 hb r c1 k s2 r')
    let ?n = "3 + unat (body_len (dec_header hb))"
    let ?s = "put_client a (advance_rx ?n c1) s2"
    have kept: "rx_kept c c1" using same_tables_msg(2) [OF assms(3) 2(2)] .
    have s2: "same_tables s s2"
      using same_tables_trans [OF same_tables_msg(1) [OF assms(3) 2(2)] send_response_tables [OF 2(3)]] .
    have s2c: "client_heap s2 a = Some c1" using send_response_heap [OF 2(3)] by simp
    have tabs: "same_tables s ?s"
      by (rule same_tables_trans [OF s2 same_tables_put [OF s2c]]) (simp_all add: advance_rx_def)
    have fd: "ci_fd (advance_rx ?n c1) = ci_fd c" using kept by (simp add: rx_kept_def advance_rx_def)
    have "\<not> disconnect r'"
    proof
      assume "disconnect r'"
      moreover have "\<exists>q. drop_client a ?s = (Inl (Undefined Use_after_free), q)"
        using drop_client_use_after_free [OF same_tables_wf [OF tabs assms(2)], of a "advance_rx ?n c1"] fd assms(4) tabs
        by (auto simp: same_tables_def)
      ultimately show False using 2(4) by auto
    qed
    moreover have "curr_len (ci_rx (advance_rx ?n c1)) < curr_len (ci_rx c)"
      using kept 2(1) by (simp add: rx_kept_def advance_rx_def)
    ultimately show thesis
      using 2(4) tabs fd by (intro go [of ?s "advance_rx ?n c1"]) simp_all
  qed
qed

lemma parse_msgs_tables:
  assumes "parse_msgs ops a s = Some (Inr (), s')" "clients_wf s"
    and "client_heap s a = Some c" "map_of (fd_to_client s) (ci_fd c) = Some a"
  shows "same_tables s s'"
  using assms
proof (induction "curr_len (ci_rx c)" arbitrary: s c rule: less_induct)
  case less
  from less.prems show ?case
  proof (cases rule: parse_msgs_cases)
    case (go c1 s1)
    have "map_of (fd_to_client s1) (ci_fd c1) = Some a"
      using go(1,3) less.prems(4) by (simp add: same_tables_def)
    then have "same_tables s1 s'"
      using less.hyps [OF go(4,5) same_tables_wf [OF go(1) less.prems(2)] go(2)] by simp
    with go(1) show ?thesis by (rule same_tables_trans)
  qed simp
qed

section \<open>One round of \<open>ppoll\<close>\<close>

text \<open>
  The poll descriptors are the listening socket, the known clients, and the ones removed since the
  vector was last cleaned; no descriptor is there twice.
\<close>

abbreviation client_fds :: "('w, 'd) Server \<Rightarrow> int set" where
  "client_fds s \<equiv> fst ` set (fd_to_client s)"

definition poll_wf :: "('w, 'd) Server \<Rightarrow> bool" where
  "poll_wf s \<longleftrightarrow>
     distinct (map pfd_fd (poll_fds s)) \<and>
     set (map pfd_fd (poll_fds s)) = insert (master_socket s) (client_fds s \<union> set (removed_poll_fds s)) \<and>
     master_socket s \<notin> client_fds s \<union> set (removed_poll_fds s) \<and> client_fds s \<inter> set (removed_poll_fds s) = {}"

definition server_inv :: "('w, 'd) Server \<Rightarrow> bool" where
  "server_inv s \<longleftrightarrow> clients_wf s \<and> poll_wf s"

lemma poll_wf_cong:
  "poll_wf s \<Longrightarrow> map pfd_fd (poll_fds s') = map pfd_fd (poll_fds s) \<Longrightarrow> fd_to_client s' = fd_to_client s \<Longrightarrow>
   removed_poll_fds s' = removed_poll_fds s \<Longrightarrow> master_socket s' = master_socket s \<Longrightarrow> poll_wf s'"
  by (simp only: poll_wf_def simp_thms)

lemma same_tables_inv: "same_tables s s' \<Longrightarrow> server_inv s \<Longrightarrow> server_inv s' \<and> client_fds s' = client_fds s"
  using same_tables_wf [of s s'] by (simp add: server_inv_def poll_wf_def same_tables_def)

text \<open>An entry of the loop: its descriptor stays, or is removed, or is the listening socket.\<close>

definition entry_kept :: "int \<Rightarrow> ('w, 'd) Server \<Rightarrow> ('w, 'd) Server \<Rightarrow> bool" where
  "entry_kept fd s s' \<longleftrightarrow>
     server_inv s' \<and> master_socket s' = master_socket s \<and> client_fds s - {fd} \<subseteq> client_fds s' \<and>
     (fd \<noteq> master_socket s \<longrightarrow>
        client_fds s' \<union> set (removed_poll_fds s') \<subseteq> client_fds s \<union> set (removed_poll_fds s))"

lemma same_tables_entry: "same_tables s s' \<Longrightarrow> server_inv s \<Longrightarrow> entry_kept fd s s'"
  using same_tables_inv [of s s'] by (auto simp: entry_kept_def same_tables_def)

lemma remove_client_inv:
  assumes "server_inv s" "fd \<in> client_fds s" "remove_client fd s = (Inr (), s')"
  shows "entry_kept fd s (s'\<lparr>removed_poll_fds := removed_poll_fds s' @ [fd]\<rparr>)"
proof -
  obtain a where a: "map_of (fd_to_client s) fd = Some a"
    using assms(2) by (metis list.set_map map_of_eq_None_iff not_None_eq)
  have wf: "clients_wf s" "poll_wf s" using assms(1) by (simp_all add: server_inv_def)
  obtain c where s': "s' = delete_client a c
      (s\<lparr>clients := (clients s)[ci_id c := None], fd_to_client := AList.delete fd (fd_to_client s)\<rparr>)"
    using remove_client_ok [OF wf(1) a] assms(3) by (metis Pair_inject)
  then have fields: "fd_to_client s' = AList.delete fd (fd_to_client s)" "poll_fds s' = poll_fds s"
      "removed_poll_fds s' = removed_poll_fds s" "master_socket s' = master_socket s"
    by (simp_all add: delete_client_def)
  have fds: "client_fds s' = client_fds s - {fd}"
    using arg_cong [OF AList.delete_keys [of fd "fd_to_client s"], of set] by (simp add: fields)
  have "clients_wf (s'\<lparr>removed_poll_fds := removed_poll_fds s' @ [fd]\<rparr>)"
    by (rule clients_wf_cong [OF remove_client_wf [OF wf(1) assms(3)]]) (simp_all add: client_keys_def fun_eq_iff)
  moreover have "poll_wf (s'\<lparr>removed_poll_fds := removed_poll_fds s' @ [fd]\<rparr>)"
    using wf(2) assms(2) fds by (auto simp: poll_wf_def fields)
  ultimately show ?thesis using fds assms(2) by (auto simp: entry_kept_def server_inv_def fields)
qed

lemma add_new_client_inv:
  assumes "server_inv s" "fd \<notin> insert (master_socket s) (client_fds s \<union> set (removed_poll_fds s))"
    and "add_new_client fd s = (r, s')"
  shows "entry_kept (master_socket s) s s'"
proof -
  have wf: "clients_wf s" "poll_wf s" using assms(1) by (simp_all add: server_inv_def)
  have new: "map_of (fd_to_client s) fd = None" using assms(2) by (simp add: map_of_eq_None_iff)
  have fields: "fd_to_client s' = AList.update fd (heap_next s) (fd_to_client s)"
      "poll_fds s' = poll_fds s @ [\<lparr>pfd_fd = fd, pfd_revents = 0\<rparr>]" "removed_poll_fds s' = removed_poll_fds s"
      "master_socket s' = master_socket s"
    using add_new_client_ok [OF new] assms(3) by (metis snd_conv)+
  have fds: "client_fds s' = insert fd (client_fds s)"
    by (simp add: fields dom_update)
  have "poll_wf s'"
    using wf(2) assms(2) fds by (auto simp: poll_wf_def fields)
  then show ?thesis
    using add_new_client_wf [OF wf(1) new assms(3)] fds by (auto simp: entry_kept_def server_inv_def fields)
qed

lemma serve_client_inv:
  assumes "server_inv s" "fd \<in> client_fds s" "handle_multiple_client_requests ops fd s = Some (Inr (), s')"
  shows "entry_kept fd s s'"
proof -
  obtain a where a: "map_of (fd_to_client s) fd = Some a"
    using assms(2) by (metis map_of_eq_None_iff not_None_eq)
  have wf: "clients_wf s" using assms(1) by (simp add: server_inv_def)
  obtain c where c: "client_heap s a = Some c" "ci_fd c = fd"
    using clients_wfD(2) [OF wf a] by (rule client_atE)
  obtain ok s1 where s1: "read_from_socket a s = Some (Inr ok, s1)"
    and rest: "if ok then parse_msgs ops a s1 = Some (Inr (), s')
      else \<exists>s2. remove_client fd s1 = (Inr (), s2) \<and> s' = s2\<lparr>removed_poll_fds := removed_poll_fds s2 @ [fd]\<rparr>"
    using assms(3) a c
    by (auto simp: handle_multiple_client_requests_def client_of_fd_def
        split: option.splits sum.splits prod.splits bool.splits if_splits)
  have tabs: "same_tables s s1" by (rule read_from_socket_tables [OF s1])
  note inv1 = same_tables_inv [OF tabs assms(1)]
  obtain c1 where c1: "client_heap s1 a = Some c1" "ci_fd c1 = fd"
    using same_tables_client [OF tabs c(1)] c(2) by metis
  show ?thesis
  proof (cases ok)
    case True
    have "same_tables s1 s'"
      using rest True c1 a inv1 tabs by (intro parse_msgs_tables [of ops a s1 s' c1]) (simp_all add: server_inv_def same_tables_def)
    with tabs have "same_tables s s'" by (rule same_tables_trans)
    then show ?thesis using assms(1) by (rule same_tables_entry)
  next
    case False
    then have "entry_kept fd s1 s'" using rest inv1 assms(2) by (auto intro!: remove_client_inv)
    then show ?thesis using inv1 tabs by (auto simp: entry_kept_def same_tables_def)
  qed
qed

abbreviation fresh_fd :: "int \<Rightarrow> ('w, 'd) Server \<Rightarrow> bool" where
  "fresh_fd fd s \<equiv> fd \<notin> insert (master_socket s) (client_fds s \<union> set (removed_poll_fds s))"

lemma poll_entry_inv:
  assumes "server_inv s" "pfd_fd p \<in> insert (master_socket s) (client_fds s)"
    and "pfd_fd p = master_socket s \<Longrightarrow> fresh_fd acc s" "poll_entry ops acc p s = Some (Inr (), s')"
  shows "entry_kept (pfd_fd p) s s'"
proof (cases "pfd_fd p = master_socket s")
  case True
  with assms(4) consider "s' = s" | r where "add_new_client acc s = (r, s')"
    by (auto simp: poll_entry_def split: if_splits prod.splits sum.splits)
  then show ?thesis
  proof cases
    case 1
    then show ?thesis using same_tables_entry [OF same_tables_refl assms(1)] by simp
  next
    case 2
    then show ?thesis using add_new_client_inv [OF assms(1) assms(3) [OF True]] True by simp
  qed
next
  case False
  then have fd: "pfd_fd p \<in> client_fds s" using assms(2) by simp
  note entry = assms(4) [unfolded poll_entry_def]
  show ?thesis
  proof (cases "pfd_fd p < 0 \<or> pfd_revents p = 0")
    case True
    then show ?thesis using entry same_tables_entry [OF same_tables_refl assms(1)] by simp
  next
    case live: False
    show ?thesis
    proof (cases "poll_failed (pfd_revents p)")
      case True
      obtain q s1 where q: "remove_client (pfd_fd p) s = (q, s1)" by fastforce
      with entry live True False have "q = Inr ()" "s' = s1\<lparr>removed_poll_fds := removed_poll_fds s1 @ [pfd_fd p]\<rparr>"
        by (cases q; simp)+
      then show ?thesis using remove_client_inv [OF assms(1) fd] q by simp
    next
      case failed: False
      then have "handle_multiple_client_requests ops (pfd_fd p) s = Some (Inr (), s')"
        using entry live False by simp
      then show ?thesis by (rule serve_client_inv [OF assms(1) fd])
    qed
  qed
qed

lemma poll_loop_inv:
  assumes "server_inv s" "distinct (map pfd_fd ps)" "set (map pfd_fd ps) \<subseteq> insert (master_socket s) (client_fds s)"
    and "master_socket s \<in> set (map pfd_fd ps) \<Longrightarrow> fresh_fd acc s" "poll_loop ops acc cap ps s = Some (Inr (), s')"
  shows "server_inv s'"
  using assms
proof (induction ps arbitrary: s)
  case (Cons p ps)
  obtain s1 where s1: "poll_entry ops acc p s = Some (Inr (), s1)" "poll_loop ops acc cap ps s1 = Some (Inr (), s')"
    using Cons.prems(5) by (auto split: if_splits option.splits prod.splits sum.splits)
  have kept: "entry_kept (pfd_fd p) s s1"
    using Cons.prems by (intro poll_entry_inv [OF _ _ _ s1(1)]) simp_all
  then have fds: "master_socket s1 = master_socket s" "client_fds s - {pfd_fd p} \<subseteq> client_fds s1" "server_inv s1"
    by (simp_all add: entry_kept_def)
  show ?case
  proof (rule Cons.IH [OF fds(3) _ _ _ s1(2)])
    show "distinct (map pfd_fd ps)" using Cons.prems(2) by simp
    show "set (map pfd_fd ps) \<subseteq> insert (master_socket s1) (client_fds s1)"
    proof
      fix x assume x: "x \<in> set (map pfd_fd ps)"
      then have "x \<in> insert (master_socket s) (client_fds s)" using Cons.prems(3) by auto
      moreover have "x \<noteq> pfd_fd p" using Cons.prems(2) x by (metis distinct.simps(2) list.simps(9))
      ultimately show "x \<in> insert (master_socket s1) (client_fds s1)" using fds by auto
    qed
    show "fresh_fd acc s1" if "master_socket s1 \<in> set (map pfd_fd ps)"
    proof -
      have "pfd_fd p \<noteq> master_socket s" "fresh_fd acc s" using that Cons.prems(2,4) fds(1) by auto
      then show ?thesis using kept by (auto simp: entry_kept_def)
    qed
  qed
qed simp

lemma clean_poll_fds_inv:
  assumes "server_inv s"
  shows "server_inv (clean_poll_fds s) \<and> removed_poll_fds (clean_poll_fds s) = []"
proof (cases "removed_poll_fds s = []")
  case False
  let ?s = "clean_poll_fds s"
  have fields: "fd_to_client ?s = fd_to_client s" "clients ?s = clients s" "heap_next ?s = heap_next s"
      "client_keys ?s = client_keys s" "master_socket ?s = master_socket s" "removed_poll_fds ?s = []"
      "poll_fds ?s = filter (\<lambda>p. pfd_fd p \<notin> set (removed_poll_fds s)) (poll_fds s)"
    using False by (simp_all add: clean_poll_fds_def Let_def client_keys_def fun_eq_iff)
  have "clients_wf ?s"
    using assms clients_wf_cong [of s ?s] fields by (simp add: server_inv_def)
  moreover have "poll_wf ?s"
  proof -
    have wf: "distinct (map pfd_fd (poll_fds s))"
        "pfd_fd ` set (poll_fds s) = insert (master_socket s) (client_fds s \<union> set (removed_poll_fds s))"
        "master_socket s \<notin> client_fds s \<union> set (removed_poll_fds s)" "client_fds s \<inter> set (removed_poll_fds s) = {}"
      using assms by (simp_all add: server_inv_def poll_wf_def)
    have "pfd_fd ` {p \<in> set (poll_fds s). pfd_fd p \<notin> set (removed_poll_fds s)} =
        pfd_fd ` set (poll_fds s) - set (removed_poll_fds s)"
      by auto
    then have "set (map pfd_fd (poll_fds ?s)) = insert (master_socket s) (client_fds s)"
      using wf(2-4) by (auto simp: fields)
    then show ?thesis using wf by (simp add: poll_wf_def fields distinct_map_filter)
  qed
  ultimately show ?thesis by (simp add: server_inv_def fields)
qed (use assms in \<open>simp add: clean_poll_fds_def\<close>)

lemma poll_round_inv:
  assumes "server_inv s" "removed_poll_fds s = []" "acc \<notin> insert (master_socket s) (set (map fst (fd_to_client s)))"
    and "case ans of Poll_ready revs \<Rightarrow> length revs = length (poll_fds s) | _ \<Rightarrow> True"
    and "pool_client_msgs ops ans acc s = Some (Inr (), s')"
  shows "server_inv s' \<and> removed_poll_fds s' = []"
proof -
  show ?thesis
  proof (cases ans)
    case (Poll_ready revs)
    let ?ps = "map2 (\<lambda>p e. p\<lparr>pfd_revents := e\<rparr>) (poll_fds s) revs"
    let ?s = "s\<lparr>poll_fds := ?ps\<rparr>"
    have fds: "map pfd_fd ?ps = map pfd_fd (poll_fds s)"
      using assms(4) Poll_ready by (auto simp: list_eq_iff_nth_eq)
    have "clients_wf ?s"
      using assms(1) clients_wf_cong [of s ?s] by (simp add: server_inv_def client_keys_def fun_eq_iff)
    moreover have "poll_wf ?s"
      using assms(1) poll_wf_cong [of s ?s] fds by (simp add: server_inv_def)
    ultimately have inv: "server_inv ?s" by (simp add: server_inv_def)
    obtain s2 where s2: "poll_loop ops acc (poll_cap s) ?ps ?s = Some (Inr (), s2)" "s' = clean_poll_fds s2"
      using assms(5) Poll_ready by (auto simp: pool_client_msgs_def Let_def split: option.splits prod.splits sum.splits)
    have "server_inv s2"
    proof (rule poll_loop_inv [OF inv _ _ _ s2(1)])
      show "distinct (map pfd_fd ?ps)" "set (map pfd_fd ?ps) \<subseteq> insert (master_socket ?s) (client_fds ?s)"
        using assms(1,2) unfolding fds by (simp_all add: server_inv_def poll_wf_def)
      show "fresh_fd acc ?s" using assms(2,3) by simp
    qed
    then show ?thesis using clean_poll_fds_inv s2(2) by blast
  qed (use assms(1,2,5) in \<open>simp_all add: pool_client_msgs_def\<close>)
qed

lemma server_run_inv:
  assumes "server_run ops s"
  shows "server_inv s \<and> removed_poll_fds s = []"
  using assms
proof induction
  case (start la junk bs w tx pos mem grow n s)
  then show ?case
    by (auto simp: prepare_server_socket_def HwioServer_ctor_def push_poll_fd_def Let_def server_inv_def
        clients_wf_def poll_wf_def split: if_splits)
next
  case (install s p fn_name)
  then show ?case by (simp add: same_tables_inv [OF same_tables_inner(2)])
next
  case (round s acc ans s')
  then show ?case using poll_round_inv by blast
qed

text \<open>
  C6: in every state of a running server, whatever clients connected, sent and dropped and whatever
  the system calls answered, the table of descriptors, the slots and the client objects describe
  the same connections and no object is leaked, the poll descriptors are the listening socket and these connections without
  repetition, and the assertion in \<open>get_client_cnt\<close> holds.
\<close>

theorem running_server_consistent:
  assumes "server_run ops s"
  shows "clients_wf s \<and> distinct (map pfd_fd (poll_fds s)) \<and>
    set (map pfd_fd (poll_fds s)) = insert (master_socket s) (set (map fst (fd_to_client s))) \<and>
    get_client_cnt s = Inr (length (fd_to_client s))"
proof -
  have "clients_wf s" "poll_wf s" "removed_poll_fds s = []"
    using server_run_inv [OF assms] by (simp_all add: server_inv_def)
  then show ?thesis using client_count [of s] by (simp add: get_client_cnt_def poll_wf_def)
qed

text \<open>A server with one connected client, for the witnesses.\<close>

definition demo_conn :: "nat ClientInfo \<Rightarrow> recv_event list \<Rightarrow> (mmap_world, nat) Server" where
  "demo_conn c evs =
     \<lparr>core = demo_server, master_socket = 3,
      poll_fds = [\<lparr>pfd_fd = 3, pfd_revents = 0\<rparr>, \<lparr>pfd_fd = 5, pfd_revents = 0\<rparr>], poll_cap = 2,
      removed_poll_fds = [], fd_to_client = [(5, 0)], clients = [Some 0], client_heap = [0 \<mapsto> c], heap_next = 1,
      fresh_mem = (\<lambda>_ _. 0), vec_grow = (\<lambda>n. 2 * n + 1),
      socks = \<lparr>rx_events = (\<lambda>_. evs), tx_events = (\<lambda>_. [Send_some 100000]), tx_data = (\<lambda>_. []), closed_fds = []\<rparr>\<rparr>"

lemma demo_conn_inv:
  assumes "ci_fd c = 5" "ci_id c = 0"
  shows "server_inv (demo_conn c evs)"
  using assms by (auto simp: server_inv_def clients_wf_def poll_wf_def client_at_def demo_conn_def split: if_splits)

text \<open>A run: the server starts, and accepts a connection.\<close>

definition demo_start :: "(mmap_world, nat) Server" where
  "demo_start = snd (prepare_server_socket \<lparr>la_socket = 3, la_reuseaddr = 0, la_keepalive = 0, la_bind = 0, la_listen = 0\<rparr> 0
     (HwioServer_ctor [] demo_attached (\<lambda>_. 0) 0 (\<lambda>_ _. 0) (\<lambda>n. 2 * n + 1)
       \<lparr>rx_events = (\<lambda>_. []), tx_events = (\<lambda>_. []), tx_data = (\<lambda>_. []), closed_fds = []\<rparr>))"

definition demo_accepted :: "(mmap_world, nat) Server" where
  "demo_accepted = snd (the (pool_client_msgs mmap_ops (Poll_ready [POLLIN]) 5 demo_start))"

lemma demo_run: "server_run mmap_ops demo_accepted"
proof (rule server_run.round [where s = demo_start and acc = 5 and ans = "Poll_ready [POLLIN]"])
  show "server_run mmap_ops demo_start"
    by (rule server_run.start [where la = "\<lparr>la_socket = 3, la_reuseaddr = 0, la_keepalive = 0, la_bind = 0, la_listen = 0\<rparr>"
          and junk = 0]) (simp add: demo_start_def prepare_server_socket_def)
  show "pool_client_msgs mmap_ops (Poll_ready [POLLIN]) 5 demo_start = Some (Inr (), demo_accepted)"
    by (simp add: demo_accepted_def demo_start_def prepare_server_socket_def HwioServer_ctor_def push_poll_fd_def
        pool_client_msgs_def poll_entry_def poll_failed_def add_new_client_def Let_def)
qed (simp_all add: demo_start_def prepare_server_socket_def HwioServer_ctor_def push_poll_fd_def)

theorem running_server_consistent_witness:
  "clients_wf demo_accepted \<and> distinct (map pfd_fd (poll_fds demo_accepted)) \<and>
   set (map pfd_fd (poll_fds demo_accepted)) = insert (master_socket demo_accepted) (set (map fst (fd_to_client demo_accepted))) \<and>
   get_client_cnt demo_accepted = Inr (length (fd_to_client demo_accepted))"
  by (rule running_server_consistent [OF demo_run])

section \<open>Accepting a connection moves the vector that is being traversed\<close>

text \<open>
  C34: \<open>add_new_client\<close> appends to \<open>poll_fds\<close> inside the range-for over it: when the vector is full
  and has another entry, accepting a connection makes the loop read the next entry from freed
  memory.
\<close>

theorem accept_invalidates_poll_loop:
  assumes "poll_fds s = p # q # ps" "pfd_fd p = master_socket s" "0 \<le> master_socket s"
    and "length (poll_fds s) = poll_cap s" "poll_cap s < vec_grow s (poll_cap s)" "length es = length ps"
    and "0 \<le> acc" "map_of (fd_to_client s) acc = None"
  shows "\<exists>s'. pool_client_msgs ops (Poll_ready (POLLIN # e # es)) acc s = Some (Inl (Undefined Use_after_free), s')"
proof -
  let ?p = "p\<lparr>pfd_revents := POLLIN\<rparr>" and ?rest = "map2 (\<lambda>p e. p\<lparr>pfd_revents := e\<rparr>) (q # ps) (e # es)"
  let ?s = "s\<lparr>poll_fds := ?p # ?rest\<rparr>"
  obtain s1 where s1: "add_new_client acc ?s = (Inr (heap_next s), s1)"
    using assms(8) by (simp add: add_new_client_def Let_def)
  have "length (?p # ?rest) = poll_cap s" using assms(1,4,6) by simp
  then have "poll_cap s1 \<noteq> poll_cap s"
    using s1 assms(5,8) by (auto simp: add_new_client_def push_poll_fd_def Let_def)
  moreover have "poll_entry ops acc ?p ?s = Some (Inr (), s1)"
    using assms(2,3,7) s1 by (simp add: poll_entry_def poll_failed_def)
  ultimately show ?thesis
    using assms(1) by (simp add: pool_client_msgs_def Let_def)
qed

theorem accept_invalidates_poll_loop_witness:
  "\<exists>s'. pool_client_msgs mmap_ops (Poll_ready (POLLIN # 0 # [])) 6 (demo_conn (demo_client []) []) =
     Some (Inl (Undefined Use_after_free), s')"
  by (rule accept_invalidates_poll_loop [where q = "\<lparr>pfd_fd = 5, pfd_revents = 0\<rparr>" and ps = "[]"
      and p = "\<lparr>pfd_fd = 3, pfd_revents = 0\<rparr>"]) (simp_all add: demo_conn_def)

end
