(* ===== verification/Hwio_Framing.thy ===== *)
theory Hwio_Framing
  imports Hwio_Clients_Laws
begin

text \<open>
  From bytes on a connection to accesses of devices. Requests on memory-like devices are an
  abstract datatype with an encoding and a meaning; \<open>parse_msgs\<close> and
  \<open>handle_multiple_client_requests\<close> are shown to carry out exactly the requests whose encoding
  arrives, in order, however the byte stream was cut into pieces. The proofs are in the locale
  \<open>memory_device\<close>; the properties are its instances for mapped devices.
\<close>

section \<open>Requests and their meaning\<close>

datatype mem_req = Read_req u16 u32 u16 | Write_req u16 u32 "byte list" | Ping_req

fun req_header :: "mem_req \<Rightarrow> Hwio_packet_header" where
  "req_header (Read_req i a n) = \<lparr>command = HWIO_CMD_READ, body_len = 8\<rparr>"
| "req_header (Write_req i a bs) = \<lparr>command = HWIO_CMD_WRITE, body_len = word_of_nat (8 + length bs)\<rparr>"
| "req_header Ping_req = \<lparr>command = HWIO_CMD_PING_REQUEST, body_len = 0\<rparr>"

fun req_body :: "mem_req \<Rightarrow> byte list" where
  "req_body (Read_req i a n) = enc_RdReq \<lparr>rd_devId = i, rd_addr = a, rd_size = n\<rparr>"
| "req_body (Write_req i a bs) = enc_RdReq \<lparr>rd_devId = i, rd_addr = a, rd_size = word_of_nat (length bs)\<rparr> @ bs"
| "req_body Ping_req = []"

definition enc_req :: "mem_req \<Rightarrow> byte list" where
  "enc_req r = enc_header (req_header r) @ req_body r"

text \<open>The bodies whose length the header can carry.\<close>

fun req_fits :: "mem_req \<Rightarrow> bool" where
  "req_fits (Write_req i a bs) = (length bs \<le> 65527)"
| "req_fits _ = True"

lemma unat_8_plus: "n \<le> 65527 \<Longrightarrow> unat (8 + word_of_nat n :: u16) = 8 + n"
  using unat_of_nat [of "8 + n", where 'a = 16] by simp

lemma req_body_len: "req_fits r \<Longrightarrow> unat (body_len (req_header r)) = length (req_body r)"
  by (cases r) (simp_all add: unat_8_plus)

lemma length_enc_req: "length (enc_req r) = 3 + length (req_body r)"
  by (simp add: enc_req_def)

text \<open>A tail of the stream that is not a whole message yet.\<close>

definition incomplete :: "byte list \<Rightarrow> bool" where
  "incomplete bs \<longleftrightarrow> length bs < 3 \<or> length bs < 3 + unat (body_len (dec_header bs))"

text \<open>
  The meaning of a request in a world, for the devices \<open>tab\<close> the client owns: the bytes it is
  answered with, and the world afterwards. Devices are given by their contents and the effect of a
  store.
\<close>

type_synonym ('w, 'd) mem_sem = "('d \<Rightarrow> 'w \<Rightarrow> nat \<Rightarrow> byte) \<times> ('d \<Rightarrow> nat \<Rightarrow> byte list \<Rightarrow> 'w \<Rightarrow> 'w)"

fun exec_req :: "('w, 'd) mem_sem \<Rightarrow> (u16 \<Rightarrow> 'd option) \<Rightarrow> mem_req \<Rightarrow> 'w \<Rightarrow> byte list \<times> 'w" where
  "exec_req (contents, poke) tab (Read_req i a n) w =
     (enc_header \<lparr>command = HWIO_CMD_READ_RESP, body_len = n\<rparr> @
      mem_range (contents (the (tab i)) w) (unat a) (unat n), w)"
| "exec_req (contents, poke) tab (Write_req i a bs) w = ([], poke (the (tab i)) (unat a) bs w)"
| "exec_req (contents, poke) tab Ping_req w = (enc_header \<lparr>command = HWIO_CMD_PING_REPLY, body_len = 0\<rparr>, w)"

fun exec_reqs :: "('w, 'd) mem_sem \<Rightarrow> (u16 \<Rightarrow> 'd option) \<Rightarrow> mem_req list \<Rightarrow> 'w \<Rightarrow> byte list \<times> 'w" where
  "exec_reqs m tab [] w = ([], w)"
| "exec_reqs m tab (r # rs) w =
     (case exec_req m tab r w of (out, w') \<Rightarrow>
        case exec_reqs m tab rs w' of (outs, w'') \<Rightarrow> (out @ outs, w''))"

text \<open>How many bytes a request is answered with.\<close>

fun answer_len :: "mem_req \<Rightarrow> nat" where
  "answer_len (Read_req i a n) = 3 + unat n"
| "answer_len (Write_req i a bs) = 0"
| "answer_len Ping_req = 3"

lemma length_exec_reqs: "length (fst (exec_reqs (con, pk) tab rs w)) = sum_list (map answer_len rs)"
proof (induction rs arbitrary: w)
  case (Cons r rs)
  have "length (fst (exec_req (con, pk) tab r w)) = answer_len r" by (cases r) simp_all
  with Cons show ?case by (simp add: case_prod_unfold)
qed simp

text \<open>Requests inside the window of an owned device, and inside the buffers.\<close>

fun req_ok :: "('d \<Rightarrow> 'w \<Rightarrow> nat) \<Rightarrow> (u16 \<Rightarrow> 'd option) \<Rightarrow> 'w \<Rightarrow> mem_req \<Rightarrow> bool" where
  "req_ok limit tab w (Read_req i a n) =
     (case tab i of None \<Rightarrow> False | Some d \<Rightarrow> unat a + unat n \<le> limit d w \<and> unat n \<le> 2045)"
| "req_ok limit tab w (Write_req i a bs) =
     (case tab i of None \<Rightarrow> False
      | Some d \<Rightarrow> unat a + length bs \<le> limit d w \<and> unat i < MAX_DEVICES \<and> length bs \<le> 65527)"
| "req_ok limit tab w Ping_req = True"

text \<open>The unprocessed bytes of a client, and a buffer they are inside of.\<close>

definition pending :: "'d ClientInfo \<Rightarrow> byte list" where
  "pending c = abytes (rx_mem c) (curr_ptr (ci_rx c)) (curr_len (ci_rx c))"

definition rx_wf :: "'d ClientInfo \<Rightarrow> bool" where
  "rx_wf c \<longleftrightarrow> acap (rx_mem c) = RX_BUFFER_SIZE \<and> curr_ptr (ci_rx c) + curr_len (ci_rx c) \<le> RX_BUFFER_SIZE"

text \<open>
  What serving requests of the client at \<open>a\<close> leaves behind: their effect on the world, their answers
  on the connection, and nothing else but buffers.
\<close>

definition served ::
  "('w, 'd) mem_sem \<Rightarrow> nat \<Rightarrow> mem_req list \<Rightarrow> 'd ClientInfo \<Rightarrow> ('w, 'd) Server \<Rightarrow> 'd ClientInfo \<Rightarrow> ('w, 'd) Server \<Rightarrow> bool" where
  "served m a rs c s c' s' \<longleftrightarrow>
     (let fd = ci_fd c; (out, w) = exec_reqs m (client_get_dev c) rs (world (core s))
      in client_heap s' = (client_heap s)(a \<mapsto> c') \<and> rx_wf c' \<and> ci_devices c' = ci_devices c \<and> ci_fd c' = fd \<and>
         server_wf (core s') \<and> world (core s') = w \<and>
         tx_data (socks s') = (tx_data (socks s))(fd := tx_data (socks s) fd @ out) \<and>
         send_room (tx_events (socks s) fd) = length out + send_room (tx_events (socks s') fd) \<and>
         fd_to_client s' = fd_to_client s \<and> clients s' = clients s \<and> poll_fds s' = poll_fds s \<and>
         poll_cap s' = poll_cap s \<and> removed_poll_fds s' = removed_poll_fds s \<and> master_socket s' = master_socket s \<and>
         (\<forall>fd'. fd' \<noteq> fd \<longrightarrow> rx_events (socks s') fd' = rx_events (socks s) fd' \<and>
           tx_events (socks s') fd' = tx_events (socks s) fd'))"

lemma exec_reqs_append:
  "exec_reqs m tab (rs @ qs) w =
     (fst (exec_reqs m tab rs w) @ fst (exec_reqs m tab qs (snd (exec_reqs m tab rs w))),
      snd (exec_reqs m tab qs (snd (exec_reqs m tab rs w))))"
  by (induction rs arbitrary: w) (simp_all add: case_prod_unfold)

lemma served_trans:
  assumes "served m a rs c s c1 s1" "served m a qs c1 s1 c2 s2"
  shows "served m a (rs @ qs) c s c2 s2"
proof -
  have "client_get_dev c1 = client_get_dev c"
    using assms(1) by (auto simp: served_def Let_def client_get_dev_def fun_eq_iff)
  with assms show ?thesis
    by (auto simp: served_def Let_def exec_reqs_append case_prod_unfold)
qed

lemma served_Nil: "rx_wf c \<Longrightarrow> server_wf (core s) \<Longrightarrow> client_heap s a = Some c \<Longrightarrow> served m a [] c s c s"
  by (auto simp: served_def)

text \<open>When the move of unprocessed bytes to the start of the buffer is a well-defined \<open>memcpy\<close>.\<close>

definition no_overlap :: "'d ClientInfo \<Rightarrow> bool" where
  "no_overlap c \<longleftrightarrow> curr_len (ci_rx c) = 0 \<or> curr_ptr (ci_rx c) = 0 \<or> curr_len (ci_rx c) \<le> curr_ptr (ci_rx c)"

definition is_retry :: "recv_event \<Rightarrow> bool" where
  "is_retry e \<longleftrightarrow> e = Recv_again \<or> e = Recv_intr"

lemma length_pending: "length (pending c) = curr_len (ci_rx c)"
  by (simp add: pending_def)

lemma recv_loop_data:
  "list_all is_retry pre \<Longrightarrow> bs \<noteq> [] \<Longrightarrow> length bs \<le> n \<Longrightarrow>
   recv_loop n (pre @ Recv_data bs # es) = Some (Received bs, es)"
  by (induction pre) (auto simp: is_retry_def)

lemma compact_rx_ok:
  assumes "rx_wf c" "no_overlap c"
  obtains rx where "compact_rx (ci_rx c) = Inr rx" "curr_ptr rx = 0" "curr_len rx = curr_len (ci_rx c)"
    "acap (rx_array rx) = RX_BUFFER_SIZE" "abytes (rx_array rx) 0 (curr_len rx) = pending c"
proof (cases "0 < curr_len (ci_rx c) \<and> curr_ptr (ci_rx c) \<noteq> 0")
  case True
  have load: "aload (rx_mem c) (curr_ptr (ci_rx c)) (curr_len (ci_rx c)) = Inr (pending c)"
    using assms(1) by (simp add: aload_ok rx_wf_def pending_def)
  have len: "length (pending c) = curr_len (ci_rx c)" by (simp add: pending_def)
  obtain arr where arr: "astore (rx_mem c) 0 (pending c) = Inr arr" "acap arr = RX_BUFFER_SIZE"
    using assms(1) len by (simp add: astore_def rx_wf_def)
  have "compact_rx (ci_rx c) = Inr ((ci_rx c)\<lparr>rx_array := arr, curr_ptr := 0\<rparr>)"
    using True assms(2) load arr by (auto simp: compact_rx_def no_overlap_def)
  then show thesis
    using arr abytes_astore_same [OF arr(1)] len by (intro that [of "(ci_rx c)\<lparr>rx_array := arr, curr_ptr := 0\<rparr>"]) simp_all
next
  case False
  then have "compact_rx (ci_rx c) = Inr ((ci_rx c)\<lparr>curr_ptr := 0\<rparr>)"
    by (auto simp: compact_rx_def)
  with False assms(1) show thesis
    by (intro that [of "(ci_rx c)\<lparr>curr_ptr := 0\<rparr>"]) (auto simp: rx_wf_def pending_def abytes_def)
qed

lemma read_from_socket_data:
  assumes "client_heap s a = Some c" "rx_wf c" "no_overlap c"
    and "rx_events (socks s) (ci_fd c) = pre @ Recv_data bs # es" "list_all is_retry pre" "bs \<noteq> []"
    and "length (pending c) + length bs \<le> RX_BUFFER_SIZE"
  shows "\<exists>c'. read_from_socket a s = Some (Inr True, put_client a c'
      (s\<lparr>socks := (socks s)\<lparr>rx_events := (rx_events (socks s))(ci_fd c := es)\<rparr>\<rparr>)) \<and>
    pending c' = pending c @ bs \<and> curr_ptr (ci_rx c') = 0 \<and> rx_wf c' \<and> ci_fd c' = ci_fd c \<and> ci_devices c' = ci_devices c"
proof -
  obtain rx where rx: "compact_rx (ci_rx c) = Inr rx" "curr_ptr rx = 0" "curr_len rx = curr_len (ci_rx c)"
      "acap (rx_array rx) = RX_BUFFER_SIZE" "abytes (rx_array rx) 0 (curr_len rx) = pending c"
    using compact_rx_ok [OF assms(2,3)] .
  have room: "curr_len rx + length bs \<le> RX_BUFFER_SIZE"
    using assms(7) rx(3) by (simp add: pending_def)
  obtain arr where arr: "astore (rx_array rx) (curr_len rx) bs = Inr arr" "acap arr = RX_BUFFER_SIZE"
    using room rx(4) by (simp add: astore_def)
  let ?c = "c\<lparr>ci_rx := rx\<lparr>rx_array := arr, curr_len := curr_len rx + length bs\<rparr>\<rparr>"
  have "recv_loop (RX_BUFFER_SIZE - curr_len rx) (rx_events (socks s) (ci_fd c)) = Some (Received bs, es)"
    using room assms(4-6) by (simp add: recv_loop_data)
  then have "read_from_socket a s = Some (Inr True, put_client a ?c
      (s\<lparr>socks := (socks s)\<lparr>rx_events := (rx_events (socks s))(ci_fd c := es)\<rparr>\<rparr>))"
    using assms(1) rx(1) arr(1) by (simp add: read_from_socket_def Let_def)
  moreover have "pending ?c = pending c @ bs"
    using rx(2,5) abytes_astore_same [OF arr(1)] abytes_astore_other [OF arr(1), of 0 "curr_len rx"]
    by (simp add: pending_def abytes_split)
  ultimately show ?thesis
    using rx(2) arr(2) room by (intro exI [of _ ?c]) (simp add: rx_wf_def)
qed

text \<open>
  A byte stream cut into pieces, each with the retried answers before it, the requests it completes
  and the tail it leaves. The conditions say that the tails are incomplete, that everything fits
  the buffer, and that a tail is not longer than the messages before it in the buffer.
\<close>

type_synonym piece = "recv_event list \<times> byte list \<times> mem_req list \<times> byte list"

definition piece_events :: "piece \<Rightarrow> recv_event list" where
  "piece_events = (\<lambda>(pre, bs, rs, rest). pre @ [Recv_data bs])"

definition piece_reqs :: "piece \<Rightarrow> mem_req list" where
  "piece_reqs = (\<lambda>(pre, bs, rs, rest). rs)"

fun segmented :: "byte list \<Rightarrow> piece list \<Rightarrow> bool" where
  "segmented tail [] = True"
| "segmented tail ((pre, bs, rs, rest) # ps) =
     (tail @ bs = concat (map enc_req rs) @ rest \<and> bs \<noteq> [] \<and> incomplete rest \<and> list_all is_retry pre \<and>
      length tail + length bs \<le> RX_BUFFER_SIZE \<and>
      (rest = [] \<or> rs = [] \<or> length rest \<le> length (concat (map enc_req rs))) \<and> segmented rest ps)"

text \<open>As many rounds for one connection as there are pieces.\<close>

fun serve_rounds ::
  "('w, 'd) dev_ops \<Rightarrow> int \<Rightarrow> nat \<Rightarrow> ('w, 'd) Server \<Rightarrow> (unit res \<times> ('w, 'd) Server) option" where
  "serve_rounds ops fd 0 s = Some (Inr (), s)"
| "serve_rounds ops fd (Suc n) s =
     (case handle_multiple_client_requests ops fd s of
        None \<Rightarrow> None
      | Some (Inl e, s') \<Rightarrow> Some (Inl e, s')
      | Some (Inr _, s') \<Rightarrow> serve_rounds ops fd n s')"

text \<open>Processed bytes, and the end of the processing of a buffer.\<close>

lemma pending_advance:
  assumes "rx_wf c" "n \<le> curr_len (ci_rx c)"
  shows "pending (advance_rx n c) = drop n (pending c)" "rx_wf (advance_rx n c)"
  using assms by (auto simp: pending_def advance_rx_def rx_wf_def drop_abytes)

lemma parse_msgs_incomplete:
  assumes "client_heap s a = Some c" "rx_wf c" "incomplete (pending c)"
  shows "parse_msgs ops a s = Some (Inr (), s)"
proof (cases "curr_len (ci_rx c) < 3")
  case False
  have "aload (rx_mem c) (curr_ptr (ci_rx c)) 3 = Inr (abytes (rx_mem c) (curr_ptr (ci_rx c)) 3)"
    using assms(2) False by (simp add: aload_ok rx_wf_def)
  moreover have "abytes (rx_mem c) (curr_ptr (ci_rx c)) 3 = take 3 (pending c)"
    using False by (simp add: pending_def take_abytes)
  moreover have "dec_header (take 3 (pending c)) = dec_header (pending c)"
    using False by (cases "pending c") (auto simp: dec_header_def dec16_def pending_def)
  ultimately show ?thesis
    using assms(1,3) False by (simp add: parse_msgs.simps [of ops a s] incomplete_def pending_def)
qed (simp add: parse_msgs.simps [of ops a s] assms(1))

context memory_device
begin

abbreviation sem :: "('w, 'd) mem_sem" where
  "sem \<equiv> (contents, poke)"

lemma req_ok_fits: "req_ok limit tab w r \<Longrightarrow> req_fits r"
  by (cases r) (simp_all split: option.splits)

lemma req_ok_exec: "req_ok limit tab w r' \<Longrightarrow> req_ok limit tab (snd (exec_req sem tab r w)) r'"
  by (cases r; cases r') (simp_all add: limit_poke split: option.splits)

lemma exec_req_length: "req_ok limit tab w r \<Longrightarrow> length (fst (exec_req sem tab r w)) \<le> 2048"
  by (cases r) (simp_all add: mem_range_def split: option.splits)

lemma reqs_ok_exec: "list_all (req_ok limit tab w) qs \<Longrightarrow> list_all (req_ok limit tab (snd (exec_reqs sem tab rs w))) qs"
  by (induction rs arbitrary: w) (auto simp: case_prod_unfold list_all_iff req_ok_exec)

section \<open>A handler carries out a request\<close>

lemma handle_msg_req:
  assumes "server_wf k" "req_ok limit (client_get_dev c) (world k) r"
    and "abytes (rx_mem c) (rx_pos k) (length (req_body r)) = req_body r"
    and "rx_pos k + length (req_body r) \<le> acap (rx_mem c)"
  shows "\<exists>t. handle_msg ops c (req_header r) k =
      (Inr \<lparr>disconnect = False, tx_size = length (fst (exec_req sem (client_get_dev c) r (world k)))\<rparr>, c,
       k\<lparr>tx_buffer := t, world := snd (exec_req sem (client_get_dev c) r (world k))\<rparr>) \<and> acap t = 2048 \<and>
    abytes t 0 (length (fst (exec_req sem (client_get_dev c) r (world k)))) = fst (exec_req sem (client_get_dev c) r (world k))"
proof (cases r)
  case (Read_req i a n)
  let ?q = "\<lparr>rd_devId = i, rd_addr = a, rd_size = n\<rparr>"
  obtain d where d: "client_get_dev c i = Some d" "unat a + unat n \<le> limit d (world k)"
    using assms(2) Read_req by (auto split: option.splits)
  have "request_at c k ?q d"
    using assms(3,4) d(1) by (simp add: request_at_def Read_req)
  then show ?thesis
    using handle_read_ok [OF assms(1), of "req_header r" c ?q d] assms(2) d Read_req
    by (auto simp: handle_msg_def mem_range_def)
next
  case (Write_req i a bs)
  let ?q = "\<lparr>rd_devId = i, rd_addr = a, rd_size = word_of_nat (length bs)\<rparr>"
  have n: "unat (word_of_nat (length bs) :: u16) = length bs" "unat (word_of_nat (8 + length bs) :: u16) = 8 + length bs"
    using assms(2) Write_req by (simp_all add: unat_of_nat unat_8_plus split: option.splits)
  obtain d where d: "client_get_dev c i = Some d" "unat a + length bs \<le> limit d (world k)"
    using assms(2) Write_req by (auto split: option.splits)
  have body: "abytes (rx_mem c) (rx_pos k) 8 = enc_RdReq ?q" "abytes (rx_mem c) (rx_pos k + 8) (length bs) = bs"
    using assms(3) abytes_split [of "rx_mem c" "rx_pos k" 8 "length bs"] by (simp_all add: Write_req)
  have "request_at c k ?q d"
    using assms(4) d(1) body(1) by (simp add: request_at_def Write_req)
  then have "handle_msg ops c (req_header r) k =
      (Inr \<lparr>disconnect = False, tx_size = 0\<rparr>, c, k\<lparr>world := poke d (unat a) bs (world k)\<rparr>)"
    using handle_write_ok [of "req_header r" c k ?q d] assms(2,4) d n body(2) Write_req
    by (simp add: handle_msg_def)
  then show ?thesis
    using assms(1) d(1) Write_req by (auto simp: server_wf_def abytes_def intro!: exI [of _ "tx_buffer k"])
next
  case Ping_req
  obtain t where t: "astore (tx_buffer k) 0 (enc_header \<lparr>command = HWIO_CMD_PING_REPLY, body_len = 0\<rparr>) = Inr t"
      "acap t = 2048"
    using assms(1) by (simp add: astore_def server_wf_def)
  then show ?thesis
    using Ping_req abytes_astore_same [OF t(1)]
    by (auto simp: handle_msg_def handle_ping_def intro!: exI [of _ t])
qed

section \<open>Cutting the buffer into messages\<close>

text \<open>One request at the front of the buffer, with room for its answer on the connection.\<close>

lemma parse_msgs_req:
  assumes "client_heap s a = Some c" "rx_wf c" "pending c = enc_req r @ rest"
    and "server_wf (core s)" "req_ok limit (client_get_dev c) (world (core s)) r"
    and "exec_req sem (client_get_dev c) r (world (core s)) = (out, w)"
    and "length out \<le> send_room (tx_events (socks s) (ci_fd c))"
  shows "\<exists>t p es. parse_msgs ops a s = parse_msgs ops a (s\<lparr>
      core := (core s)\<lparr>rx_pos := p, tx_buffer := t, world := w\<rparr>,
      socks := (socks s)\<lparr>tx_events := (tx_events (socks s))(ci_fd c := es),
                        tx_data := (tx_data (socks s))(ci_fd c := tx_data (socks s) (ci_fd c) @ out)\<rparr>,
      client_heap := (client_heap s)(a \<mapsto> advance_rx (length (enc_req r)) c)\<rparr>) \<and>
    acap t = 2048 \<and> send_room (tx_events (socks s) (ci_fd c)) = length out + send_room es"
proof -
  let ?p = "curr_ptr (ci_rx c)" and ?n = "length (req_body r)"
  have len: "curr_len (ci_rx c) = 3 + ?n + length rest"
    using arg_cong [OF assms(3), of length] by (simp add: pending_def length_enc_req)
  have split: "abytes (rx_mem c) ?p (curr_len (ci_rx c)) = enc_header (req_header r) @ req_body r @ rest"
    using assms(3) by (simp add: pending_def enc_req_def)
  have bytes: "abytes (rx_mem c) ?p 3 = enc_header (req_header r)" "abytes (rx_mem c) (?p + 3) ?n = req_body r"
    using abytes_appendD [OF split] abytes_appendD(1) [OF abytes_appendD(2) [OF split]] by simp_all
  have load: "aload (rx_mem c) ?p 3 = Inr (enc_header (req_header r))"
    using assms(2) len bytes(1) by (simp add: aload_ok rx_wf_def)
  have body: "unat (body_len (req_header r)) = ?n"
    using req_body_len [OF req_ok_fits [OF assms(5)]] .
  let ?k = "(core s)\<lparr>rx_pos := ?p + 3\<rparr>"
  obtain t where t: "handle_msg ops c (req_header r) ?k =
      (Inr \<lparr>disconnect = False, tx_size = length out\<rparr>, c, ?k\<lparr>tx_buffer := t, world := w\<rparr>)" "acap t = 2048"
      "abytes t 0 (length out) = out"
    using handle_msg_req [of ?k c r] assms(2,4-6) bytes(2) len by (auto simp: server_wf_def rx_wf_def)
  let ?s = "put_client a c (s\<lparr>core := ?k\<lparr>tx_buffer := t, world := w\<rparr>\<rparr>)"
  obtain es where es: "sock_send (ci_fd c) out (socks s) = Some (True,
        (socks s)\<lparr>tx_events := (tx_events (socks s))(ci_fd c := es),
                  tx_data := (tx_data (socks s))(ci_fd c := tx_data (socks s) (ci_fd c) @ out)\<rparr>)"
      "send_room (tx_events (socks s) (ci_fd c)) = length out + send_room es"
    using sock_send_all [OF assms(7)] by blast
  have "length out \<le> 2048" using exec_req_length [OF assms(5)] assms(6) by simp
  then have "aload t 0 (length out) = Inr out" using t by (simp add: aload_ok)
  then have "send_response (ci_fd c) \<lparr>disconnect = False, tx_size = length out\<rparr> ?s =
      Some (Inr \<lparr>disconnect = False, tx_size = length out\<rparr>, ?s\<lparr>socks :=
        (socks s)\<lparr>tx_events := (tx_events (socks s))(ci_fd c := es),
                  tx_data := (tx_data (socks s))(ci_fd c := tx_data (socks s) (ci_fd c) @ out)\<rparr>\<rparr>)"
    using es(1) by (simp add: send_response_def)
  then show ?thesis
    using assms(1) len load body t es(2)
    by (intro exI [of _ t] exI [of _ "?p + 3"] exI [of _ es])
      (subst parse_msgs.simps [of ops a s], simp add: length_enc_req)
qed

lemma parse_msgs_reqs:
  assumes "client_heap s a = Some c" "rx_wf c" "pending c = concat (map enc_req rs) @ rest" "incomplete rest"
    and "server_wf (core s)" "list_all (req_ok limit (client_get_dev c) (world (core s))) rs"
    and "length (fst (exec_reqs sem (client_get_dev c) rs (world (core s)))) \<le> send_room (tx_events (socks s) (ci_fd c))"
  shows "\<exists>s'. parse_msgs ops a s = Some (Inr (), s') \<and>
    served sem a rs c s (advance_rx (length (concat (map enc_req rs))) c) s' \<and>
    rx_events (socks s') = rx_events (socks s)"
  using assms
proof (induction rs arbitrary: c s)
  case Nil
  then have "parse_msgs ops a s = Some (Inr (), s)"
    using parse_msgs_incomplete [OF Nil.prems(1,2)] by simp
  moreover have "advance_rx 0 c = c" by (simp add: advance_rx_def)
  ultimately show ?case using Nil by (simp add: served_Nil)
next
  case (Cons r rs)
  let ?tab = "client_get_dev c" and ?fd = "ci_fd c" and ?w = "world (core s)"
  obtain out w where ex: "exec_req sem ?tab r ?w = (out, w)" by fastforce
  obtain outs w2 where exs: "exec_reqs sem ?tab rs w = (outs, w2)" by fastforce
  let ?c = "advance_rx (length (enc_req r)) c"
  have le: "length (enc_req r) \<le> curr_len (ci_rx c)"
    using arg_cong [OF Cons.prems(3), of length] by (simp add: pending_def)
  obtain t p es where step: "parse_msgs ops a s = parse_msgs ops a (s\<lparr>
        core := (core s)\<lparr>rx_pos := p, tx_buffer := t, world := w\<rparr>,
        socks := (socks s)\<lparr>tx_events := (tx_events (socks s))(?fd := es),
                          tx_data := (tx_data (socks s))(?fd := tx_data (socks s) ?fd @ out)\<rparr>,
        client_heap := (client_heap s)(a \<mapsto> ?c)\<rparr>)"
    (is "_ = parse_msgs ops a ?s") and t: "acap t = 2048" "send_room (tx_events (socks s) ?fd) = length out + send_room es"
    using parse_msgs_req [OF Cons.prems(1,2), of r "concat (map enc_req rs) @ rest" out w] Cons.prems(3,5-7) ex exs
    by auto
  have tab: "client_get_dev ?c = ?tab" by (simp add: fun_eq_iff client_get_dev_def advance_rx_def)
  have ok: "list_all (req_ok limit ?tab w) rs"
    using Cons.prems(6) req_ok_exec [of ?tab ?w _ r] ex by (auto simp: list_all_iff)
  have "\<exists>s'. parse_msgs ops a ?s = Some (Inr (), s') \<and>
      served sem a rs ?c ?s (advance_rx (length (concat (map enc_req rs))) ?c) s' \<and>
      rx_events (socks s') = rx_events (socks ?s)"
  proof (rule Cons.IH)
    show "rx_wf ?c" using pending_advance(2) [OF Cons.prems(2) le] .
    show "pending ?c = concat (map enc_req rs) @ rest"
      using pending_advance(1) [OF Cons.prems(2) le] Cons.prems(3) by simp
    show "length (fst (exec_reqs sem (client_get_dev ?c) rs (world (core ?s)))) \<le> send_room (tx_events (socks ?s) (ci_fd ?c))"
      using Cons.prems(7) ex exs t(2) by (simp add: tab) (simp add: advance_rx_def)
  qed (use Cons.prems(4) t(1) ok in \<open>simp_all add: server_wf_def tab\<close>)
  moreover have "advance_rx (length (concat (map enc_req rs))) ?c = advance_rx (length (concat (map enc_req (r # rs)))) c"
    by (simp add: advance_rx_def)
  ultimately show ?case
    using step ex exs t(2) by (auto simp: served_def tab Let_def) (simp_all add: advance_rx_def)
qed

section \<open>Receiving a piece of the stream\<close>

lemma serve_piece:
  assumes "map_of (fd_to_client s) (ci_fd c) = Some a" "client_heap s a = Some c" "rx_wf c" "no_overlap c"
    and "rx_events (socks s) (ci_fd c) = pre @ Recv_data bs # es" "list_all is_retry pre" "bs \<noteq> []"
    and "length (pending c) + length bs \<le> RX_BUFFER_SIZE"
    and "pending c @ bs = concat (map enc_req rs) @ rest" "incomplete rest"
    and "server_wf (core s)" "list_all (req_ok limit (client_get_dev c) (world (core s))) rs"
    and "length (fst (exec_reqs sem (client_get_dev c) rs (world (core s)))) \<le> send_room (tx_events (socks s) (ci_fd c))"
  shows "\<exists>c' s'. handle_multiple_client_requests ops (ci_fd c) s = Some (Inr (), s') \<and> served sem a rs c s c' s' \<and>
    pending c' = rest \<and> curr_ptr (ci_rx c') = length (concat (map enc_req rs)) \<and>
    rx_events (socks s') (ci_fd c) = es"
proof -
  obtain c1 where c1: "read_from_socket a s = Some (Inr True, put_client a c1
        (s\<lparr>socks := (socks s)\<lparr>rx_events := (rx_events (socks s))(ci_fd c := es)\<rparr>\<rparr>))"
      "pending c1 = pending c @ bs" "curr_ptr (ci_rx c1) = 0" "rx_wf c1"
      "ci_fd c1 = ci_fd c" "ci_devices c1 = ci_devices c"
    using read_from_socket_data [OF assms(2-8)] by blast
  let ?s = "put_client a c1 (s\<lparr>socks := (socks s)\<lparr>rx_events := (rx_events (socks s))(ci_fd c := es)\<rparr>\<rparr>)"
  let ?n = "length (concat (map enc_req rs))"
  have tab: "client_get_dev c1 = client_get_dev c"
    using c1(6) by (simp add: client_get_dev_def fun_eq_iff)
  have "\<exists>s'. parse_msgs ops a ?s = Some (Inr (), s') \<and> served sem a rs c1 ?s (advance_rx ?n c1) s' \<and>
      rx_events (socks s') = rx_events (socks ?s)"
    using assms(9-13) c1 tab by (intro parse_msgs_reqs) simp_all
  then obtain s' where s': "parse_msgs ops a ?s = Some (Inr (), s')" "served sem a rs c1 ?s (advance_rx ?n c1) s'"
      "rx_events (socks s') = rx_events (socks ?s)"
    by blast
  have "handle_multiple_client_requests ops (ci_fd c) s = Some (Inr (), s')"
    using assms(1,2) c1(1) s'(1) by (simp add: handle_multiple_client_requests_def client_of_fd_def)
  moreover have "served sem a rs c s (advance_rx ?n c1) s'"
    using s'(2) tab c1(5,6) by (auto simp: served_def Let_def advance_rx_def case_prod_unfold)
  moreover have "?n \<le> curr_len (ci_rx c1)"
    using arg_cong [OF assms(9), of length] arg_cong [OF c1(2), of length] by (simp add: length_pending)
  then have "pending (advance_rx ?n c1) = rest"
    using pending_advance(1) [OF c1(4)] c1(2) assms(9) by simp
  moreover have "curr_ptr (ci_rx (advance_rx ?n c1)) = ?n"
    using c1(3) by (simp add: advance_rx_def)
  ultimately show ?thesis using s'(3) by auto
qed

lemma serve_pieces:
  assumes "map_of (fd_to_client s) (ci_fd c) = Some a" "client_heap s a = Some c" "rx_wf c" "no_overlap c"
    and "segmented (pending c) ps" "rx_events (socks s) (ci_fd c) = concat (map piece_events ps) @ es"
    and "server_wf (core s)" "list_all (req_ok limit (client_get_dev c) (world (core s))) (concat (map piece_reqs ps))"
    and "length (fst (exec_reqs sem (client_get_dev c) (concat (map piece_reqs ps)) (world (core s))))
      \<le> send_room (tx_events (socks s) (ci_fd c))"
  shows "\<exists>c' s'. serve_rounds ops (ci_fd c) (length ps) s = Some (Inr (), s') \<and>
    served sem a (concat (map piece_reqs ps)) c s c' s' \<and> rx_events (socks s') (ci_fd c) = es"
  using assms
proof (induction ps arbitrary: s c)
  case Nil
  then show ?case by (auto intro!: exI [of _ c] served_Nil)
next
  case (Cons p ps)
  obtain pre bs rs rest where p: "p = (pre, bs, rs, rest)" by (cases p) auto
  let ?tab = "client_get_dev c" and ?w = "world (core s)"
  obtain out1 w1 where ex1: "exec_reqs sem ?tab rs ?w = (out1, w1)" by fastforce
  obtain out2 w2 where ex2: "exec_reqs sem ?tab (concat (map piece_reqs ps)) w1 = (out2, w2)" by fastforce
  have seg: "pending c @ bs = concat (map enc_req rs) @ rest" "bs \<noteq> []" "incomplete rest" "list_all is_retry pre"
      "length (pending c) + length bs \<le> RX_BUFFER_SIZE" "segmented rest ps"
      "rest = [] \<or> rs = [] \<or> length rest \<le> length (concat (map enc_req rs))"
    using Cons.prems(5) by (simp_all add: p)
  have ok: "list_all (req_ok limit ?tab ?w) rs" "list_all (req_ok limit ?tab ?w) (concat (map piece_reqs ps))"
    using Cons.prems(8) by (simp_all add: p piece_reqs_def)
  have room: "length out1 + length out2 \<le> send_room (tx_events (socks s) (ci_fd c))"
    using Cons.prems(9) ex1 ex2 by (simp add: p piece_reqs_def exec_reqs_append)
  have ev: "rx_events (socks s) (ci_fd c) = pre @ Recv_data bs # concat (map piece_events ps) @ es"
    using Cons.prems(6) by (simp add: p piece_events_def)
  obtain c1 s1 where s1: "handle_multiple_client_requests ops (ci_fd c) s = Some (Inr (), s1)" "served sem a rs c s c1 s1"
      "pending c1 = rest" "curr_ptr (ci_rx c1) = length (concat (map enc_req rs))"
      "rx_events (socks s1) (ci_fd c) = concat (map piece_events ps) @ es"
    using serve_piece [OF Cons.prems(1-4) ev seg(4,2,5,1,3) Cons.prems(7) ok(1)] room ex1 by auto
  have kept: "fd_to_client s1 = fd_to_client s" "client_heap s1 a = Some c1" "ci_fd c1 = ci_fd c" "rx_wf c1"
      "server_wf (core s1)" "world (core s1) = w1" "client_get_dev c1 = ?tab"
      "send_room (tx_events (socks s) (ci_fd c)) = length out1 + send_room (tx_events (socks s1) (ci_fd c))"
    using s1(2) ex1 by (auto simp: served_def Let_def client_get_dev_def fun_eq_iff)
  have "no_overlap c1"
    using seg(7) s1(3,4) length_pending [of c1] by (auto simp: no_overlap_def)
  then have "\<exists>c' s'. serve_rounds ops (ci_fd c1) (length ps) s1 = Some (Inr (), s') \<and>
      served sem a (concat (map piece_reqs ps)) c1 s1 c' s' \<and> rx_events (socks s') (ci_fd c1) = es"
    using Cons.prems(1) s1(3,5) kept seg(6) reqs_ok_exec [OF ok(2), of rs] ex1 ex2 room
    by (intro Cons.IH) simp_all
  then obtain c' s' where "serve_rounds ops (ci_fd c) (length ps) s1 = Some (Inr (), s')"
      "served sem a (concat (map piece_reqs ps)) c1 s1 c' s'" "rx_events (socks s') (ci_fd c) = es"
    using kept(3) by auto
  then show ?case
    using s1(1) served_trans [OF s1(2)] by (auto simp: p piece_reqs_def)
qed

end

section \<open>The stream of a connection to mapped devices\<close>

abbreviation mmap_sem :: "(mmap_world, nat) mem_sem" where
  "mmap_sem \<equiv> (mmap_contents, mmap_poke)"

text \<open>
  C2: the requests whose encodings arrive on a connection are carried out in order on the mapped
  devices, and their answers are sent in order, wherever the byte stream was cut and however often
  \<open>recv\<close> and \<open>send\<close> had to be retried. The pieces must fit the buffer, and a tail left in the buffer
  must not be longer than the messages in front of it.
\<close>

theorem server_stream_correct:
  assumes "map_of (fd_to_client s) (ci_fd c) = Some a" "client_heap s a = Some c" "rx_wf c" "no_overlap c"
    and "segmented (pending c) ps" "rx_events (socks s) (ci_fd c) = concat (map piece_events ps) @ es"
    and "server_wf (core s)" "reqs = concat (map piece_reqs ps)"
    and "list_all (req_ok mmap_limit (client_get_dev c) (world (core s))) reqs"
    and "exec_reqs mmap_sem (client_get_dev c) reqs (world (core s)) = (out, w)"
    and "length out \<le> send_room (tx_events (socks s) (ci_fd c))"
  shows "\<exists>s'. serve_rounds mmap_ops (ci_fd c) (length ps) s = Some (Inr (), s') \<and> world (core s') = w \<and>
    tx_data (socks s') = (tx_data (socks s))(ci_fd c := tx_data (socks s) (ci_fd c) @ out) \<and>
    clients s' = clients s \<and> fd_to_client s' = fd_to_client s"
proof -
  have ex: "exec_reqs mmap_sem (client_get_dev c) (concat (map piece_reqs ps)) (world (core s)) = (out, w)"
    using assms(8,10) by simp
  obtain c' s' where s': "serve_rounds mmap_ops (ci_fd c) (length ps) s = Some (Inr (), s')"
      "served mmap_sem a (concat (map piece_reqs ps)) c s c' s'"
    using mmap_dev.serve_pieces [OF assms(1-7) assms(9) [unfolded assms(8)]] assms(11) by (auto simp: ex)
  from s'(2) have "world (core s') = w"
      "tx_data (socks s') = (tx_data (socks s))(ci_fd c := tx_data (socks s) (ci_fd c) @ out)"
      "clients s' = clients s" "fd_to_client s' = fd_to_client s"
    by (auto simp: served_def Let_def ex)
  with s'(1) show ?thesis by blast
qed

text \<open>A write and a read of the bytes it wrote, cut in the middle of the write.\<close>

definition demo_reqs :: "mem_req list" where
  "demo_reqs = [Write_req 0 16 [0xAA, 0xBB], Read_req 0 16 2]"

definition demo_stream :: "byte list" where
  "demo_stream = concat (map enc_req demo_reqs)"

definition demo_pieces :: "piece list" where
  "demo_pieces = [([Recv_again], take 5 demo_stream, [], take 5 demo_stream), ([], drop 5 demo_stream, demo_reqs, [])]"

lemma demo_stream_bytes:
  "demo_stream = [3, 10, 0, 0, 0, 16, 0, 0, 0, 2, 0, 0xAA, 0xBB] @ [1, 8, 0, 0, 0, 16, 0, 0, 0, 2, 0]"
  by (simp add: demo_stream_def demo_reqs_def enc_req_def enc_header_def enc_RdReq_def enc16_def enc32_def le_enc_2_4)

lemma demo_segmented: "segmented [] demo_pieces"
proof -
  have "incomplete (take 5 demo_stream)" "demo_stream \<noteq> []" "length demo_stream = 24"
    by (simp_all add: demo_stream_bytes incomplete_def dec_header_def dec16_def)
  then show ?thesis
    by (simp add: demo_pieces_def is_retry_def incomplete_def flip: demo_stream_def)
qed

theorem server_stream_correct_witness:
  "\<exists>s'. serve_rounds mmap_ops 5 2 (demo_conn (demo_client []) (concat (map piece_events demo_pieces))) = Some (Inr (), s') \<and>
    world (core s') = mmap_poke 0 16 [0xAA, 0xBB] demo_attached \<and>
    tx_data (socks s') 5 = enc_header \<lparr>command = HWIO_CMD_READ_RESP, body_len = 2\<rparr> @ [0xAA, 0xBB]"
proof -
  let ?c = "demo_client []" and ?s = "demo_conn (demo_client []) (concat (map piece_events demo_pieces))"
  let ?w = "mmap_poke 0 16 [0xAA, 0xBB] demo_attached"
  have c: "ci_fd ?c = 5" "rx_wf ?c" "no_overlap ?c" "pending ?c = []" "client_get_dev ?c 0 = Some 0"
    by (simp_all add: demo_client_at_def rx_wf_def no_overlap_def pending_def abytes_def client_get_dev_def)
  have s: "core ?s = demo_server" "world demo_server = demo_attached" "server_wf demo_server"
    by (simp_all add: demo_conn_def demo_server_def server_wf_def)
  have "mmap_contents 0 ?w = mem_store (mmap_contents 0 demo_attached) 16 [0xAA, 0xBB]"
    by (rule mmap_contents_poke) (simp add: demo_attached_limit)
  then have "mem_range (mmap_contents 0 ?w) 16 2 = [0xAA, 0xBB]"
    by (simp add: mem_range_def mem_store_def numeral_2_eq_2)
  then have ex: "exec_reqs mmap_sem (client_get_dev ?c) demo_reqs (world (core ?s)) =
      (enc_header \<lparr>command = HWIO_CMD_READ_RESP, body_len = 2\<rparr> @ [0xAA, 0xBB], ?w)"
    by (simp add: demo_reqs_def c s)
  have "\<exists>s'. serve_rounds mmap_ops (ci_fd ?c) (length demo_pieces) ?s = Some (Inr (), s') \<and> world (core s') = ?w \<and>
      tx_data (socks s') = (tx_data (socks ?s))(ci_fd ?c := tx_data (socks ?s) (ci_fd ?c) @
        (enc_header \<lparr>command = HWIO_CMD_READ_RESP, body_len = 2\<rparr> @ [0xAA, 0xBB])) \<and>
      clients s' = clients ?s \<and> fd_to_client s' = fd_to_client ?s"
  proof (rule server_stream_correct [OF _ _ c(2,3) _ _ _ _ _ ex, where es = "[]"])
    show "segmented (pending ?c) demo_pieces" using demo_segmented c(4) by simp
    show "demo_reqs = concat (map piece_reqs demo_pieces)" by (simp add: demo_pieces_def piece_reqs_def)
    show "list_all (req_ok mmap_limit (client_get_dev ?c) (world (core ?s))) demo_reqs"
      by (simp add: demo_reqs_def c s demo_attached_limit)
  qed (use c(1) s in \<open>simp_all add: demo_conn_def\<close>)
  then show ?thesis using c(1) by (auto simp: demo_pieces_def demo_conn_def numeral_2_eq_2)
qed

section \<open>Where the receive path is undefined\<close>

text \<open>
  C32: when a piece holds complete messages and behind them a longer beginning of another one, the
  next \<open>recv\<close> round moves that beginning to the start of the buffer with a \<open>memcpy\<close> whose regions
  overlap.
\<close>

theorem pipelined_tail_overlaps:
  assumes "map_of (fd_to_client s) (ci_fd c) = Some a" "client_heap s a = Some c" "rx_wf c" "no_overlap c"
    and "rx_events (socks s) (ci_fd c) = Recv_data bs # es" "bs \<noteq> []"
    and "length (pending c) + length bs \<le> RX_BUFFER_SIZE"
    and "pending c @ bs = concat (map enc_req rs) @ rest" "incomplete rest"
    and "rs \<noteq> []" "length (concat (map enc_req rs)) < length rest"
    and "server_wf (core s)" "list_all (req_ok mmap_limit (client_get_dev c) (world (core s))) rs"
    and "length (fst (exec_reqs mmap_sem (client_get_dev c) rs (world (core s)))) \<le> send_room (tx_events (socks s) (ci_fd c))"
  shows "\<exists>s'. handle_multiple_client_requests mmap_ops (ci_fd c) s = Some (Inr (), s') \<and>
    handle_multiple_client_requests mmap_ops (ci_fd c) s' = Some (Inl (Undefined Overlapping_memcpy), s')"
proof -
  obtain c' s' where s': "handle_multiple_client_requests mmap_ops (ci_fd c) s = Some (Inr (), s')"
      "served mmap_sem a rs c s c' s'" "pending c' = rest" "curr_ptr (ci_rx c') = length (concat (map enc_req rs))"
    using mmap_dev.serve_piece [OF assms(1-4) _ _ assms(6-9,12-14), of "[]"] assms(5) by auto
  have kept: "client_heap s' a = Some c'" "ci_fd c' = ci_fd c" "fd_to_client s' = fd_to_client s"
    using s'(2) by (auto simp: served_def Let_def)
  have "curr_ptr (ci_rx c') < curr_len (ci_rx c')"
    using assms(11) s'(3,4) length_pending [of c'] by simp
  moreover have "0 < curr_ptr (ci_rx c')"
    using assms(10) s'(4) by (cases rs) (simp_all add: length_enc_req)
  ultimately have "compact_rx (ci_rx c') = Inl (Undefined Overlapping_memcpy)"
    by (simp add: compact_rx_def)
  then have "handle_multiple_client_requests mmap_ops (ci_fd c) s' = Some (Inl (Undefined Overlapping_memcpy), s')"
    using assms(1) kept by (simp add: handle_multiple_client_requests_def client_of_fd_def read_from_socket_def)
  with s'(1) show ?thesis by blast
qed

theorem pipelined_tail_overlaps_witness:
  "\<exists>s'. handle_multiple_client_requests mmap_ops 5
      (demo_conn (demo_client []) [Recv_data (enc_req Ping_req @ take 5 demo_stream)]) = Some (Inr (), s') \<and>
    handle_multiple_client_requests mmap_ops 5 s' = Some (Inl (Undefined Overlapping_memcpy), s')"
proof -
  let ?c = "demo_client []" and ?s = "demo_conn (demo_client []) [Recv_data (enc_req Ping_req @ take 5 demo_stream)]"
  have c: "ci_fd ?c = 5" "rx_wf ?c" "no_overlap ?c" "pending ?c = []"
    by (simp_all add: demo_client_at_def rx_wf_def no_overlap_def pending_def abytes_def)
  have tail: "incomplete (take 5 demo_stream)" "length demo_stream = 24"
    by (simp_all add: demo_stream_bytes incomplete_def dec_header_def dec16_def)
  have "\<exists>s'. handle_multiple_client_requests mmap_ops (ci_fd ?c) ?s = Some (Inr (), s') \<and>
      handle_multiple_client_requests mmap_ops (ci_fd ?c) s' = Some (Inl (Undefined Overlapping_memcpy), s')"
    by (rule pipelined_tail_overlaps [OF _ _ c(2,3), where rs = "[Ping_req]" and rest = "take 5 demo_stream" and es = "[]"
          and bs = "enc_req Ping_req @ take 5 demo_stream"])
      (use tail in \<open>simp_all add: c(1,4) length_enc_req\<close>, simp_all add: demo_conn_def demo_server_def server_wf_def enc_req_def enc_header_def)
  then show ?thesis by (simp only: c(1))
qed

text \<open>
  C31: a client that says goodbye is removed from the tables of the server and deleted, and its
  deleted object is then read to note which poll descriptor to drop.
\<close>

theorem bye_use_after_free:
  assumes "clients_wf s" "client_heap s a = Some c" "map_of (fd_to_client s) (ci_fd c) = Some a" "rx_wf c"
    and "pending c = enc_header \<lparr>command = HWIO_CMD_BYE, body_len = 0\<rparr> @ rest"
  shows "\<exists>s'. parse_msgs ops a s = Some (Inl (Undefined Use_after_free), s') \<and>
    clients_wf s' \<and> map_of (fd_to_client s') (ci_fd c) = None"
proof -
  let ?h = "enc_header \<lparr>command = HWIO_CMD_BYE, body_len = 0\<rparr>"
  have len: "curr_len (ci_rx c) = 3 + length rest"
    using arg_cong [OF assms(5), of length] by (simp add: length_pending)
  have "aload (rx_mem c) (curr_ptr (ci_rx c)) 3 = Inr ?h"
    using assms(4) len abytes_appendD(1) [OF assms(5) [unfolded pending_def]] by (simp add: aload_ok rx_wf_def)
  let ?s = "put_client a (advance_rx 3 c) (s\<lparr>core := (core s)\<lparr>rx_pos := curr_ptr (ci_rx c) + 3\<rparr>,
      socks := (socks s)\<lparr>tx_data := (tx_data (socks s))(ci_fd c := tx_data (socks s) (ci_fd c) @ [])\<rparr>\<rparr>)"
  have tabs: "same_tables s ?s"
    using assms(2) by (auto simp: same_tables_def client_keys_def advance_rx_def fun_eq_iff)
  have "parse_msgs ops a s = Some (drop_client a ?s)"
    using assms(2) len \<open>aload (rx_mem c) (curr_ptr (ci_rx c)) 3 = Inr ?h\<close>
    by (subst parse_msgs.simps) (simp add: handle_msg_def send_response_def aload_ok sock_send_def abytes_def)
  moreover have "\<exists>s'. drop_client a ?s = (Inl (Undefined Use_after_free), s') \<and> clients_wf s' \<and>
      map_of (fd_to_client s') (ci_fd c) = None"
    using drop_client_use_after_free [OF same_tables_wf [OF tabs assms(1)], of a "advance_rx 3 c"] assms(3)
    by (auto simp: advance_rx_def)
  ultimately show ?thesis by auto
qed

theorem bye_use_after_free_witness:
  "\<exists>s'. parse_msgs mmap_ops 0 (demo_conn (demo_client (enc_header \<lparr>command = HWIO_CMD_BYE, body_len = 0\<rparr> @ [])) []) =
      Some (Inl (Undefined Use_after_free), s') \<and>
    clients_wf s' \<and> map_of (fd_to_client s') (ci_fd (demo_client (enc_header \<lparr>command = HWIO_CMD_BYE, body_len = 0\<rparr> @ []))) = None"
proof (rule bye_use_after_free [where rest = "[]"])
  let ?c = "demo_client (enc_header \<lparr>command = HWIO_CMD_BYE, body_len = 0\<rparr> @ [])"
  show "clients_wf (demo_conn ?c [])"
    using demo_conn_inv [of ?c "[]"] by (simp add: server_inv_def demo_client_at_def)
  show "pending ?c = enc_header \<lparr>command = HWIO_CMD_BYE, body_len = 0\<rparr> @ []"
    using demo_client_bytes [of 0 3 "enc_header \<lparr>command = HWIO_CMD_BYE, body_len = 0\<rparr>" 0]
    by (simp add: pending_def) (simp add: demo_client_at_def)
qed (simp_all add: demo_conn_def demo_client_at_def rx_wf_def)

end
