(* ===== verification/Hwio_Client_Laws.thy ===== *)
theory Hwio_Client_Laws
  imports Hwio_Client Hwio_Framing
begin

text \<open>
  What the client sends and how it reads its answers, for any cutting of the stream and any number
  of retries; where it waits for ever; and the argument byte a call by name loses.
\<close>

section \<open>Receiving and sending\<close>

text \<open>Answers of \<open>recv\<close> that only deliver data or are retried, and the data they deliver.\<close>

fun delivers :: "bool \<Rightarrow> recv_event list \<Rightarrow> bool" where
  "delivers busy [] = True"
| "delivers busy (Recv_data bs # es) = delivers busy es"
| "delivers busy (Recv_intr # es) = delivers busy es"
| "delivers busy (Recv_again # es) = (busy \<and> delivers busy es)"
| "delivers busy (_ # es) = False"

fun ev_bytes :: "recv_event list \<Rightarrow> byte list" where
  "ev_bytes [] = []"
| "ev_bytes (Recv_data bs # es) = bs @ ev_bytes es"
| "ev_bytes (_ # es) = ev_bytes es"

lemma rx_loop_delivers:
  "delivers busy es \<Longrightarrow> n \<le> length (ev_bytes es) \<Longrightarrow>
   \<exists>es'. rx_loop busy es n = Some (Inr (), take n (ev_bytes es), es') \<and>
     delivers busy es' \<and> ev_bytes es' = drop n (ev_bytes es)"
proof (induction busy es n rule: rx_loop.induct)
  case (7 busy bs es n)
  show ?case
  proof (cases "Suc n < length bs")
    case False
    then have "Suc n - length bs \<le> length (ev_bytes es)" using 7(3) by simp
    then obtain es' where "rx_loop busy es (Suc n - length bs) = Some (Inr (), take (Suc n - length bs) (ev_bytes es), es')"
        "delivers busy es'" "ev_bytes es' = drop (Suc n - length bs) (ev_bytes es)"
      using 7(1) [OF False] 7(2) by auto
    then show ?thesis using False by auto
  qed (use 7(2) in auto)
qed auto

text \<open>A closed connection: \<open>recv\<close> keeps returning 0.\<close>

lemma rx_loop_eof:
  "delivers busy es \<Longrightarrow> length (ev_bytes es) < n \<Longrightarrow> rx_loop busy (es @ Recv_eof # es') n = None"
proof (induction busy es n rule: rx_loop.induct)
  case (7 busy bs es n)
  show ?case
  proof (cases "Suc n < length bs")
    case False
    then show ?thesis using 7(1) [OF False] 7(2,3) by auto
  qed (use 7(3) in simp)
qed auto

fun accepts :: "bool \<Rightarrow> send_event list \<Rightarrow> bool" where
  "accepts busy [] = True"
| "accepts busy (Send_some k # es) = accepts busy es"
| "accepts busy (Send_intr # es) = accepts busy es"
| "accepts busy (Send_again # es) = (busy \<and> accepts busy es)"
| "accepts busy (Send_error # es) = False"

lemma tx_loop_accepts:
  "accepts busy es \<Longrightarrow> length bs \<le> send_room es \<Longrightarrow>
   \<exists>es'. tx_loop busy es bs = Some (Inr (), bs, es') \<and> accepts busy es' \<and> send_room es = length bs + send_room es'"
proof (induction busy es bs rule: tx_loop.induct)
  case (6 busy k es b bs)
  show ?case
  proof (cases "length (b # bs) < k")
    case False
    then have "length (drop k (b # bs)) \<le> send_room es" using 6(3) by simp
    then obtain es' where "tx_loop busy es (drop k (b # bs)) = Some (Inr (), drop k (b # bs), es')" "accepts busy es'"
        "send_room es = length (drop k (b # bs)) + send_room es'"
      using 6(1) [OF False] 6(2) by auto
    moreover have "take k (b # bs) @ drop k (b # bs) = b # bs" by (rule append_take_drop_id)
    ultimately show ?thesis using False by auto
  qed (use 6(2) in simp)
qed auto

section \<open>Packets\<close>

definition con_wf :: "hwio_client_to_server_con \<Rightarrow> bool" where
  "con_wf c \<longleftrightarrow> acap (con_rx c) = BUFFER_SIZE \<and> acap (con_tx c) = BUFFER_SIZE"

abbreviation con_rx_events :: "hwio_client_to_server_con \<Rightarrow> recv_event list" where
  "con_rx_events c \<equiv> rx_events (con_socks c) (sockfd c)"

abbreviation con_tx_events :: "hwio_client_to_server_con \<Rightarrow> send_event list" where
  "con_tx_events c \<equiv> tx_events (con_socks c) (sockfd c)"

abbreviation con_sent :: "hwio_client_to_server_con \<Rightarrow> byte list" where
  "con_sent c \<equiv> tx_data (con_socks c) (sockfd c)"

lemma rx_bytes_ok:
  assumes "con_wf c" "delivers busy (con_rx_events c)" "n \<le> length (ev_bytes (con_rx_events c))" "n \<le> 2048"
  shows "\<exists>c'. rx_bytes busy n c = Some (Inr (), c') \<and> con_wf c' \<and> sockfd c' = sockfd c \<and> con_tx c' = con_tx c \<and>
    abytes (con_rx c') 0 n = take n (ev_bytes (con_rx_events c)) \<and>
    delivers busy (con_rx_events c') \<and> ev_bytes (con_rx_events c') = drop n (ev_bytes (con_rx_events c)) \<and>
    con_sent c' = con_sent c \<and> con_tx_events c' = con_tx_events c"
proof -
  let ?bs = "take n (ev_bytes (con_rx_events c))"
  obtain es where es: "rx_loop busy (con_rx_events c) n = Some (Inr (), ?bs, es)" "delivers busy es"
      "ev_bytes es = drop n (ev_bytes (con_rx_events c))"
    using rx_loop_delivers [OF assms(2,3)] by blast
  obtain a where a: "astore (con_rx c) 0 ?bs = Inr a" "acap a = 2048"
    using assms(1,3,4) by (simp add: astore_def con_wf_def min_absorb2)
  show ?thesis
    using assms es a abytes_astore_same [OF a(1)]
    by (simp add: rx_bytes_def con_wf_def min_absorb2)
qed

lemma rx_pckt_ok:
  assumes "con_wf c" "delivers busy (con_rx_events c)"
    and "ev_bytes (con_rx_events c) = enc_header h @ body @ rest" "length body = unat (body_len h)" "length body \<le> 2048"
  shows "\<exists>c'. rx_pckt busy c = Some (Inr h, c') \<and> con_wf c' \<and> sockfd c' = sockfd c \<and>
    abytes (con_rx c') 0 (length body) = body \<and> delivers busy (con_rx_events c') \<and>
    ev_bytes (con_rx_events c') = rest \<and> con_sent c' = con_sent c \<and> con_tx_events c' = con_tx_events c"
proof -
  obtain c1 where c1: "rx_bytes busy 3 c = Some (Inr (), c1)" "con_wf c1" "sockfd c1 = sockfd c"
      "abytes (con_rx c1) 0 3 = enc_header h" "delivers busy (con_rx_events c1)"
      "ev_bytes (con_rx_events c1) = body @ rest" "con_sent c1 = con_sent c" "con_tx_events c1 = con_tx_events c"
    using rx_bytes_ok [OF assms(1,2), of 3] assms(3) by auto
  have load: "aload (con_rx c1) 0 3 = Inr (enc_header h)"
    using c1(2,4) by (simp add: aload_ok con_wf_def)
  show ?thesis
  proof (cases "body_len h = 0")
    case True
    then show ?thesis using c1 load assms(4) by (auto simp: rx_pckt_def abytes_def)
  next
    case False
    obtain c2 where "rx_bytes busy (length body) c1 = Some (Inr (), c2)" "con_wf c2" "sockfd c2 = sockfd c1"
        "abytes (con_rx c2) 0 (length body) = body" "delivers busy (con_rx_events c2)"
        "ev_bytes (con_rx_events c2) = rest" "con_sent c2 = con_sent c1" "con_tx_events c2 = con_tx_events c1"
      using rx_bytes_ok [OF c1(2,5), of "length body"] c1(6) assms(5) by auto
    then show ?thesis using c1 load assms(4) False by (auto simp: rx_pckt_def)
  qed
qed

lemma tx_pckt_ok:
  assumes "con_wf c" "accepts busy (con_tx_events c)" "abytes (con_tx c) 0 (3 + length body) = enc_header h @ body"
    and "length body = unat (body_len h)" "3 + length body \<le> 2048" "3 + length body \<le> send_room (con_tx_events c)"
  shows "\<exists>c'. tx_pckt busy c = Some (Inr (), c') \<and> con_wf c' \<and> sockfd c' = sockfd c \<and>
    con_sent c' = con_sent c @ enc_header h @ body \<and> con_rx_events c' = con_rx_events c \<and>
    accepts busy (con_tx_events c') \<and> send_room (con_tx_events c) = 3 + length body + send_room (con_tx_events c')"
proof -
  have "abytes (con_tx c) 0 3 = enc_header h"
    using abytes_appendD(1) [OF assms(3)] by simp
  then have "bind_res (aload (con_tx c) 0 3) (\<lambda>hb. aload (con_tx c) 0 (unat (body_len (dec_header hb)) + 3)) =
      Inr (enc_header h @ body)"
    using assms(1,3-5) by (simp add: aload_ok con_wf_def add.commute)
  moreover obtain es where "tx_loop busy (con_tx_events c) (enc_header h @ body) = Some (Inr (), enc_header h @ body, es)"
      "accepts busy es" "send_room (con_tx_events c) = 3 + length body + send_room es"
    using tx_loop_accepts [OF assms(2), of "enc_header h @ body"] assms(6) by auto
  ultimately show ?thesis
    using assms(1) by (simp add: tx_pckt_def con_wf_def)
qed

section \<open>Accesses of a remote device\<close>

lemma fill_tx_ok:
  assumes "con_wf c" "p + length bs \<le> 2048"
  shows "\<exists>c'. fill_tx p bs c = Inr c' \<and> con_wf c' \<and> sockfd c' = sockfd c \<and> con_socks c' = con_socks c \<and>
    con_rx c' = con_rx c \<and> abytes (con_tx c') p (length bs) = bs \<and>
    (\<forall>q n. q + n \<le> p \<or> p + length bs \<le> q \<longrightarrow> abytes (con_tx c') q n = abytes (con_tx c) q n)"
proof -
  obtain a where a: "astore (con_tx c) p bs = Inr a" "acap a = 2048"
    using assms by (simp add: astore_def con_wf_def)
  show ?thesis
    using assms(1) a abytes_astore_same [OF a(1)] abytes_astore_other [OF a(1)]
    by (intro exI [of _ "c\<lparr>con_tx := a\<rparr>"]) (simp add: fill_tx_def con_wf_def)
qed

text \<open>A connection on which a frame of \<open>n\<close> bytes can be sent.\<close>

definition can_send :: "bool \<Rightarrow> nat \<Rightarrow> hwio_client_to_server_con \<Rightarrow> bool" where
  "can_send busy n c \<longleftrightarrow> con_wf c \<and> accepts busy (con_tx_events c) \<and> n \<le> send_room (con_tx_events c) \<and> n \<le> BUFFER_SIZE"

lemma request_ok:
  assumes "can_send busy (3 + length body) c" "abytes (con_tx c) 0 (3 + length body) = enc_header h @ body"
    and "length body = unat (body_len h)" "delivers busy (con_rx_events c)"
    and "ev_bytes (con_rx_events c) = enc_header r @ answer @ rest" "length answer = unat (body_len r)" "length answer \<le> 2048"
  shows "\<exists>c'. request busy (command r) c = Some (Inr (), c') \<and> con_wf c' \<and>
    abytes (con_rx c') 0 (length answer) = answer \<and> con_sent c' = con_sent c @ enc_header h @ body \<and>
    ev_bytes (con_rx_events c') = rest \<and> delivers busy (con_rx_events c') \<and> accepts busy (con_tx_events c') \<and>
    send_room (con_tx_events c) = 3 + length body + send_room (con_tx_events c')"
proof -
  obtain c1 where c1: "tx_pckt busy c = Some (Inr (), c1)" "con_wf c1" "sockfd c1 = sockfd c"
      "con_sent c1 = con_sent c @ enc_header h @ body" "con_rx_events c1 = con_rx_events c"
      "accepts busy (con_tx_events c1)" "send_room (con_tx_events c) = 3 + length body + send_room (con_tx_events c1)"
    using tx_pckt_ok [of c busy body h] assms(1-3) by (auto simp: can_send_def)
  obtain c2 where "rx_pckt busy c1 = Some (Inr r, c2)" "con_wf c2" "abytes (con_rx c2) 0 (length answer) = answer"
      "ev_bytes (con_rx_events c2) = rest" "con_sent c2 = con_sent c1" "delivers busy (con_rx_events c2)"
      "con_tx_events c2 = con_tx_events c1"
    using rx_pckt_ok [of c1 busy r answer rest] c1 assms(4-7) by auto
  with c1 show ?thesis by (auto simp: request_def assert_response_def)
qed

text \<open>A connection whose answers are \<open>bs\<close> and on which \<open>n\<close> bytes can be sent.\<close>

definition client_ready :: "bool \<Rightarrow> nat \<Rightarrow> byte list \<Rightarrow> hwio_client_to_server_con \<Rightarrow> bool" where
  "client_ready busy n bs c \<longleftrightarrow> con_wf c \<and> accepts busy (con_tx_events c) \<and> n \<le> send_room (con_tx_events c) \<and>
     delivers busy (con_rx_events c) \<and> ev_bytes (con_rx_events c) = bs"

lemma request_ready:
  assumes "client_ready busy n (enc_header r @ answer @ rest) c" "abytes (con_tx c) 0 (3 + length body) = enc_header h @ body"
    and "length body = unat (body_len h)" "3 + length body \<le> n" "3 + length body \<le> 2048"
    and "length answer = unat (body_len r)" "length answer \<le> 2048"
  shows "\<exists>c'. request busy (command r) c = Some (Inr (), c') \<and> abytes (con_rx c') 0 (length answer) = answer \<and>
    con_sent c' = con_sent c @ enc_header h @ body \<and> client_ready busy (n - (3 + length body)) rest c'"
  using request_ok [of busy body c h r answer rest] assms by (fastforce simp: client_ready_def can_send_def)

lemma remote_read_ok:
  assumes "can_send busy 11 c" "delivers busy (con_rx_events c)" "n \<le> 2048" "i + n \<le> acap dst"
    and "ev_bytes (con_rx_events c) = enc_header \<lparr>command = HWIO_CMD_READ_RESP, body_len = word_of_nat n\<rparr> @ data @ rest"
    and "length data = n"
  shows "\<exists>dst' c'. remote_read busy dev off dst i n c = Some (Inr (), dst', c') \<and> con_wf c' \<and>
    abytes dst' i n = data \<and> con_sent c' = con_sent c @ enc_req (Read_req dev off (word_of_nat n)) \<and>
    ev_bytes (con_rx_events c') = rest \<and> delivers busy (con_rx_events c') \<and> accepts busy (con_tx_events c') \<and>
    send_room (con_tx_events c) = 11 + send_room (con_tx_events c')"
proof -
  let ?h = "\<lparr>command = HWIO_CMD_READ, body_len = 8\<rparr> :: Hwio_packet_header"
  let ?q = "enc_RdReq \<lparr>rd_devId = dev, rd_addr = off, rd_size = word_of_nat n\<rparr>"
  have n: "unat (word_of_nat n :: u16) = n" using assms(3) by (simp add: unat_of_nat)
  obtain c1 where c1: "fill_tx 0 (enc_header ?h @ ?q) c = Inr c1" "con_wf c1" "sockfd c1 = sockfd c" "con_socks c1 = con_socks c"
      "abytes (con_tx c1) 0 (length (enc_header ?h @ ?q)) = enc_header ?h @ ?q"
    using fill_tx_ok [of c 0 "enc_header ?h @ ?q"] assms(1) by (auto simp: can_send_def)
  obtain c2 where c2: "request busy HWIO_CMD_READ_RESP c1 = Some (Inr (), c2)" "con_wf c2" "abytes (con_rx c2) 0 n = data"
      "con_sent c2 = con_sent c1 @ enc_header ?h @ ?q" "ev_bytes (con_rx_events c2) = rest"
      "delivers busy (con_rx_events c2)" "accepts busy (con_tx_events c2)"
      "send_room (con_tx_events c1) = 11 + send_room (con_tx_events c2)"
    using request_ok [of busy ?q c1 ?h "\<lparr>command = HWIO_CMD_READ_RESP, body_len = word_of_nat n\<rparr>" data rest]
      assms c1(2-5) n by (auto simp: can_send_def)
  obtain dst' where d: "astore dst i data = Inr dst'" using assms(4,6) by (simp add: astore_def)
  have "aload (con_rx c2) 0 n = Inr data" using c2(2,3) assms(3) by (simp add: aload_ok con_wf_def)
  then show ?thesis
    using c1 c2 d abytes_astore_same [OF d] assms(3,6) by (simp add: remote_read_def enc_req_def)
qed

lemma remote_write_ok:
  assumes "can_send busy (11 + n) c" "i + n \<le> acap data"
  shows "\<exists>c'. remote_write busy dev off data i n c = Some (Inr (), c') \<and> con_wf c' \<and>
    con_sent c' = con_sent c @ enc_req (Write_req dev off (abytes data i n)) \<and> con_rx_events c' = con_rx_events c \<and>
    accepts busy (con_tx_events c') \<and> send_room (con_tx_events c) = 11 + n + send_room (con_tx_events c')"
proof -
  let ?h = "\<lparr>command = HWIO_CMD_WRITE, body_len = word_of_nat (8 + n)\<rparr> :: Hwio_packet_header"
  let ?q = "enc_RdReq \<lparr>rd_devId = dev, rd_addr = off, rd_size = word_of_nat n\<rparr>" and ?bs = "abytes data i n"
  have n: "n \<le> 2037" using assms(1) by (simp add: can_send_def)
  obtain c1 where c1: "fill_tx 0 (enc_header ?h @ ?q) c = Inr c1" "con_wf c1" "sockfd c1 = sockfd c" "con_socks c1 = con_socks c"
      "abytes (con_tx c1) 0 (length (enc_header ?h @ ?q)) = enc_header ?h @ ?q"
    using fill_tx_ok [of c 0 "enc_header ?h @ ?q"] assms(1) by (auto simp: can_send_def)
  obtain c2 where c2: "fill_tx 11 ?bs c1 = Inr c2" "con_wf c2" "sockfd c2 = sockfd c1" "con_socks c2 = con_socks c1"
      "abytes (con_tx c2) 11 (length ?bs) = ?bs" "abytes (con_tx c2) 0 11 = abytes (con_tx c1) 0 11"
    using fill_tx_ok [of c1 11 ?bs] c1(2) n by auto
  have "abytes (con_tx c2) 0 (11 + n) = enc_header ?h @ ?q @ ?bs"
    using c1(5) c2(5,6) by (simp add: abytes_split)
  then have frame: "abytes (con_tx c2) 0 (3 + length (?q @ ?bs)) = enc_header ?h @ ?q @ ?bs" by simp
  have "length (?q @ ?bs) = unat (body_len ?h)" using n unat_8_plus [of n] by simp
  then obtain c3 where "tx_pckt busy c2 = Some (Inr (), c3)" "con_wf c3" "sockfd c3 = sockfd c2"
      "con_sent c3 = con_sent c2 @ enc_header ?h @ ?q @ ?bs" "con_rx_events c3 = con_rx_events c2"
      "accepts busy (con_tx_events c3)" "send_room (con_tx_events c) = 11 + n + send_room (con_tx_events c3)"
    using tx_pckt_ok [OF c2(2) _ frame, of busy] c1(3,4) c2(3,4) assms(1) n by (auto simp: can_send_def)
  then show ?thesis
    using c1 c2 assms(2) n by (simp add: remote_write_def enc_req_def aload_ok)
qed

lemma remote_read_ready:
  assumes "client_ready busy m (enc_header \<lparr>command = HWIO_CMD_READ_RESP, body_len = word_of_nat n\<rparr> @ data @ rest) c"
    and "11 \<le> m" "n \<le> 2045" "i + n \<le> acap dst" "length data = n"
  shows "\<exists>dst' c'. remote_read busy dev off dst i n c = Some (Inr (), dst', c') \<and> abytes dst' i n = data \<and>
    con_sent c' = con_sent c @ enc_req (Read_req dev off (word_of_nat n)) \<and> client_ready busy (m - 11) rest c'"
proof -
  have "can_send busy 11 c" "delivers busy (con_rx_events c)" "n \<le> 2048" "11 \<le> send_room (con_tx_events c)"
      "m \<le> send_room (con_tx_events c)"
      "ev_bytes (con_rx_events c) = enc_header \<lparr>command = HWIO_CMD_READ_RESP, body_len = word_of_nat n\<rparr> @ data @ rest"
    using assms(1-3) by (simp_all add: client_ready_def can_send_def)
  from remote_read_ok [OF this(1-3) assms(4) this(6) assms(5), of dev off] this(5) show ?thesis
    by (auto simp: client_ready_def)
qed

lemma remote_write_ready:
  assumes "client_ready busy m bs c" "11 + n \<le> m" "n \<le> 2037" "i + n \<le> acap data"
  shows "\<exists>c'. remote_write busy dev off data i n c = Some (Inr (), c') \<and>
    con_sent c' = con_sent c @ enc_req (Write_req dev off (abytes data i n)) \<and> client_ready busy (m - (11 + n)) bs c'"
proof -
  have "can_send busy (11 + n) c" "m \<le> send_room (con_tx_events c)"
    using assms(1-3) by (simp_all add: client_ready_def can_send_def)
  from remote_write_ok [OF this(1) assms(4), of dev off] this(2) show ?thesis
    using assms(1) by (auto simp: client_ready_def)
qed

section \<open>A closed connection\<close>


definition demo_con :: "recv_event list \<Rightarrow> hwio_client_to_server_con" where
  "demo_con evs =
     \<lparr>sockfd = 7, orig_addr = ''127.0.0.1:8896'', con_rx = \<lparr>acap = 2048, aget = (\<lambda>_. 0)\<rparr>,
      con_tx = \<lparr>acap = 2048, aget = (\<lambda>_. 0)\<rparr>,
      con_socks = \<lparr>rx_events = (\<lambda>_. evs), tx_events = (\<lambda>_. [Send_intr, Send_some 5, Send_some 100000]),
                   tx_data = (\<lambda>_. []), closed_fds = []\<rparr>\<rparr>"


section \<open>Remote calls\<close>

text \<open>Fields stored into separate regions of the buffer all stand there in the end.\<close>

definition apart :: "nat \<times> byte list \<Rightarrow> nat \<times> byte list \<Rightarrow> bool" where
  "apart = (\<lambda>(p, bs) (q, cs). p + length bs \<le> q \<or> q + length cs \<le> p)"

lemma fill_all_ok:
  assumes "con_wf c" "list_all (\<lambda>(p, bs). p + length bs \<le> 2048) fs" "sorted_wrt apart fs"
  shows "\<exists>c'. fill_all fs c = Inr c' \<and> con_wf c' \<and> sockfd c' = sockfd c \<and> con_socks c' = con_socks c \<and>
    list_all (\<lambda>(p, bs). abytes (con_tx c') p (length bs) = bs) fs \<and>
    (\<forall>q cs. list_all (apart (q, cs)) fs \<longrightarrow> abytes (con_tx c') q (length cs) = abytes (con_tx c) q (length cs))"
  using assms
proof (induction fs arbitrary: c)
  case (Cons f fs)
  obtain p bs where f: "f = (p, bs)" by (cases f)
  obtain c1 where c1: "fill_tx p bs c = Inr c1" "con_wf c1" "sockfd c1 = sockfd c" "con_socks c1 = con_socks c"
      "abytes (con_tx c1) p (length bs) = bs"
      "\<forall>q n. q + n \<le> p \<or> p + length bs \<le> q \<longrightarrow> abytes (con_tx c1) q n = abytes (con_tx c) q n"
    using fill_tx_ok [OF Cons.prems(1), of p bs] Cons.prems(2) f by auto
  obtain c2 where c2: "fill_all fs c1 = Inr c2" "con_wf c2" "sockfd c2 = sockfd c1" "con_socks c2 = con_socks c1"
      "list_all (\<lambda>(p, bs). abytes (con_tx c2) p (length bs) = bs) fs"
      "\<forall>q cs. list_all (apart (q, cs)) fs \<longrightarrow> abytes (con_tx c2) q (length cs) = abytes (con_tx c1) q (length cs)"
    using Cons.IH [OF c1(2)] Cons.prems(2,3) by auto
  have "list_all (apart (p, bs)) fs" using Cons.prems(3) f by (simp add: list_all_iff)
  then have "abytes (con_tx c2) p (length bs) = bs" using c1(5) c2(6) by simp
  then show ?case
    using c1 c2 f by (auto simp: apart_def)
qed simp

text \<open>The frame of a call by name as it stands in the buffer.\<close>

lemma named_call_buffer:
  assumes "con_wf c" "length args \<le> 1915"
  shows "\<exists>c'. fill_all (named_call_frame dev fn_name args) c = Inr c' \<and> con_wf c' \<and> sockfd c' = sockfd c \<and>
    con_socks c' = con_socks c \<and>
    abytes (con_tx c') 0 (133 + length args) =
      enc_header \<lparr>command = HWIO_CMD_REMOTE_CALL, body_len = word_of_nat (129 + length args)\<rparr> @
      enc_RemoteCall dev fn_name @ args"
proof -
  obtain c' where c': "fill_all (named_call_frame dev fn_name args) c = Inr c'" "con_wf c'" "sockfd c' = sockfd c"
      "con_socks c' = con_socks c"
      "list_all (\<lambda>(p, bs). abytes (con_tx c') p (length bs) = bs) (named_call_frame dev fn_name args)"
    using fill_all_ok [OF assms(1), of "named_call_frame dev fn_name args"] assms(2) by (auto simp: named_call_frame_def apart_def)
  have "abytes (con_tx c') 0 (133 + length args) = abytes (con_tx c') 0 1 @ abytes (con_tx c') 1 2 @
      abytes (con_tx c') 3 2 @ abytes (con_tx c') 5 128 @ abytes (con_tx c') 133 (length args)"
    using abytes_split [of "con_tx c'" 0 1 "132 + length args"] abytes_split [of "con_tx c'" 1 2 "130 + length args"]
      abytes_split [of "con_tx c'" 3 2 "128 + length args"] abytes_split [of "con_tx c'" 5 128 "length args"]
    by (simp del: One_nat_def)
  then show ?thesis
    using c' by (simp add: named_call_frame_def enc_header_def enc_RemoteCall_def)
qed

text \<open>The frame of a call by id, and the request for an id.\<close>

lemma fast_call_buffer:
  assumes "con_wf c" "length args \<le> 2039"
  shows "\<exists>c'. fill_all (fast_call_frame dev fn_id args) c = Inr c' \<and> con_wf c' \<and> sockfd c' = sockfd c \<and>
    con_socks c' = con_socks c \<and>
    abytes (con_tx c') 0 (9 + length args) =
      enc_header \<lparr>command = HWIO_CMD_REMOTE_CALL_FAST, body_len = word_of_nat (6 + length args)\<rparr> @
      enc16 dev @ enc32 fn_id @ args"
proof -
  obtain c' where c': "fill_all (fast_call_frame dev fn_id args) c = Inr c'" "con_wf c'" "sockfd c' = sockfd c"
      "con_socks c' = con_socks c"
      "list_all (\<lambda>(p, bs). abytes (con_tx c') p (length bs) = bs) (fast_call_frame dev fn_id args)"
    using fill_all_ok [OF assms(1), of "fast_call_frame dev fn_id args"] assms(2) by (auto simp: fast_call_frame_def apart_def)
  have "abytes (con_tx c') 0 (9 + length args) = abytes (con_tx c') 0 1 @ abytes (con_tx c') 1 2 @
      abytes (con_tx c') 3 2 @ abytes (con_tx c') 5 4 @ abytes (con_tx c') 9 (length args)"
    using abytes_split [of "con_tx c'" 0 1 "8 + length args"] abytes_split [of "con_tx c'" 1 2 "6 + length args"]
      abytes_split [of "con_tx c'" 3 2 "4 + length args"] abytes_split [of "con_tx c'" 5 4 "length args"]
    by (simp del: One_nat_def)
  then show ?thesis
    using c' by (simp add: fast_call_frame_def enc_header_def)
qed

lemma fn_id_buffer:
  assumes "con_wf c"
  shows "\<exists>c'. fill_all (fn_id_frame dev fn_name) c = Inr c' \<and> con_wf c' \<and> sockfd c' = sockfd c \<and>
    con_socks c' = con_socks c \<and>
    abytes (con_tx c') 0 133 =
      enc_header \<lparr>command = HWIO_CMD_GET_REMOTE_CALL_ID, body_len = 130\<rparr> @ enc_RemoteCall dev fn_name"
proof -
  obtain c' where c': "fill_all (fn_id_frame dev fn_name) c = Inr c'" "con_wf c'" "sockfd c' = sockfd c"
      "con_socks c' = con_socks c" "list_all (\<lambda>(p, bs). abytes (con_tx c') p (length bs) = bs) (fn_id_frame dev fn_name)"
    using fill_all_ok [OF assms, of "fn_id_frame dev fn_name"] by (auto simp: fn_id_frame_def apart_def)
  have "abytes (con_tx c') 0 133 = abytes (con_tx c') 0 1 @ abytes (con_tx c') 1 2 @
      abytes (con_tx c') 3 2 @ abytes (con_tx c') 5 128"
    using abytes_split [of "con_tx c'" 0 1 132] abytes_split [of "con_tx c'" 1 2 130]
      abytes_split [of "con_tx c'" 3 2 128] by (simp del: One_nat_def)
  then show ?thesis
    using c' by (simp add: fn_id_frame_def enc_header_def enc_RemoteCall_def)
qed

text \<open>
  A call by name sends one byte less than it has put together: the last byte of the arguments
  never leaves the client.
\<close>

lemma named_call_drops_last_byte:
  assumes "can_send busy (132 + length args) c" "length args \<le> 1915"
  shows "\<exists>c'. remote_call_void busy dev fn_name args c = Some (Inr (), c') \<and>
    con_sent c' = con_sent c @ enc_header \<lparr>command = HWIO_CMD_REMOTE_CALL, body_len = word_of_nat (129 + length args)\<rparr> @
      butlast (enc_RemoteCall dev fn_name @ args)"
proof -
  let ?h = "\<lparr>command = HWIO_CMD_REMOTE_CALL, body_len = word_of_nat (129 + length args)\<rparr> :: Hwio_packet_header"
  let ?body = "butlast (enc_RemoteCall dev fn_name @ args)"
  obtain c1 where c1: "fill_all (named_call_frame dev fn_name args) c = Inr c1" "con_wf c1" "sockfd c1 = sockfd c"
      "con_socks c1 = con_socks c" "abytes (con_tx c1) 0 (133 + length args) = enc_header ?h @ enc_RemoteCall dev fn_name @ args"
    using named_call_buffer [of c args dev fn_name] assms by (auto simp: can_send_def)
  have len: "length ?body = 129 + length args" by simp
  have "take (132 + length args) (abytes (con_tx c1) 0 (133 + length args)) = enc_header ?h @ ?body"
    unfolding c1(5) by (simp add: butlast_conv_take)
  then have frame: "abytes (con_tx c1) 0 (3 + length ?body) = enc_header ?h @ ?body"
    using len by (simp add: take_abytes)
  have "unat (body_len ?h) = length ?body"
    using assms(2) len unat_of_nat [of "129 + length args", where 'a = 16] by simp
  then obtain c2 where "tx_pckt busy c1 = Some (Inr (), c2)" "con_sent c2 = con_sent c1 @ enc_header ?h @ ?body" "sockfd c2 = sockfd c1"
    using tx_pckt_ok [OF c1(2) _ frame, of busy] assms(1) len c1(3,4) by (auto simp: can_send_def)
  then show ?thesis using c1 by (auto simp: remote_call_void_def call_void_def)
qed

end
