(* ===== verification/Hwio_Message.thy ===== *)
theory Hwio_Message
  imports Hwio_Framing
begin

text \<open>
  One message of any kind on a connection: in how many pieces it ever arrives, \<open>handle_msg\<close> sees it
  once and whole, and its answer is sent. The theories on queries and remote calls build on this.
\<close>

section \<open>A message that fills the buffer\<close>

lemma parse_msgs_single:
  assumes "client_heap s a = Some c" "rx_wf c" "pending c = enc_header h @ body" "length body = unat (body_len h)"
    and "handle_msg ops c h ((core s)\<lparr>rx_pos := curr_ptr (ci_rx c) + 3\<rparr>) = (Inr \<lparr>disconnect = False, tx_size = length out\<rparr>, c', k)"
    and "abytes (tx_buffer k) 0 (length out) = out" "length out \<le> acap (tx_buffer k)"
    and "length out \<le> send_room (tx_events (socks s) (ci_fd c))"
  shows "\<exists>es. parse_msgs ops a s = Some (Inr (), s\<lparr>core := k,
      socks := (socks s)\<lparr>tx_events := (tx_events (socks s))(ci_fd c := es),
        tx_data := (tx_data (socks s))(ci_fd c := tx_data (socks s) (ci_fd c) @ out)\<rparr>,
      client_heap := (client_heap s)(a \<mapsto> advance_rx (3 + length body) c')\<rparr>) \<and>
    send_room (tx_events (socks s) (ci_fd c)) = length out + send_room es"
proof -
  have kept: "rx_kept c c'" using handle_msg_kept [of c ops h] assms(5) by (metis fst_conv snd_conv)
  have len: "curr_len (ci_rx c) = 3 + length body"
    using arg_cong [OF assms(3), of length] by (simp add: length_pending)
  have load: "aload (rx_mem c) (curr_ptr (ci_rx c)) 3 = Inr (enc_header h)"
    using assms(2) len abytes_appendD(1) [OF assms(3) [unfolded pending_def]] by (simp add: aload_ok rx_wf_def)
  obtain es where es: "sock_send (ci_fd c) out (socks s) = Some (True,
      (socks s)\<lparr>tx_events := (tx_events (socks s))(ci_fd c := es),
                tx_data := (tx_data (socks s))(ci_fd c := tx_data (socks s) (ci_fd c) @ out)\<rparr>)" (is "_ = Some (True, ?n)")
      "send_room (tx_events (socks s) (ci_fd c)) = length out + send_room es"
    using sock_send_all [OF assms(8)] by blast
  let ?s = "s\<lparr>core := k, socks := ?n, client_heap := (client_heap s)(a \<mapsto> advance_rx (3 + length body) c')\<rparr>"
  have "aload (tx_buffer k) 0 (length out) = Inr out"
    using assms(6,7) by (simp add: aload_ok)
  then have "parse_msgs ops a s = parse_msgs ops a ?s"
    using assms(1,4,5) len load es(1) kept
    by (subst parse_msgs.simps [of ops a s]) (simp add: send_response_def rx_kept_def)
  moreover have "parse_msgs ops a ?s = Some (Inr (), ?s)"
    using len kept by (subst parse_msgs.simps [of ops a ?s]) (simp add: advance_rx_def rx_kept_def)
  ultimately show ?thesis using es(2) by auto
qed

section \<open>One message in any number of pieces\<close>

text \<open>The pieces of a message, each with the retried answers of \<open>recv\<close> before it.\<close>

type_synonym chunk = "recv_event list \<times> byte list"

definition chunk_events :: "chunk \<Rightarrow> recv_event list" where
  "chunk_events = (\<lambda>(pre, bs). pre @ [Recv_data bs])"

definition chunks_of :: "byte list \<Rightarrow> chunk list \<Rightarrow> bool" where
  "chunks_of msg chs \<longleftrightarrow> concat (map snd chs) = msg \<and> list_all (\<lambda>(pre, bs). list_all is_retry pre \<and> bs \<noteq> []) chs"

lemma incomplete_prefix:
  assumes "bs @ cs = enc_header h @ body" "length body = unat (body_len h)" "cs \<noteq> []"
  shows "incomplete bs"
proof (cases "length bs < 3")
  case False
  have "take (length bs) (enc_header h @ body) = bs" using assms(1) by (metis append_eq_conv_conj)
  then have "dec_header bs = h" using False dec_enc_header [of h "take (length bs - 3) body"] by simp
  moreover have "length bs < 3 + length body"
    using arg_cong [OF assms(1), of length] assms(3) by (cases cs) simp_all
  ultimately show ?thesis using assms(2) by (simp add: incomplete_def)
qed (simp add: incomplete_def)

text \<open>A connection with nothing of an earlier message left, and what a message leaves of it.\<close>

definition quiet_conn :: "('w, 'd) Server \<Rightarrow> nat \<Rightarrow> 'd ClientInfo \<Rightarrow> bool" where
  "quiet_conn s a c \<longleftrightarrow> map_of (fd_to_client s) (ci_fd c) = Some a \<and> client_heap s a = Some c \<and> rx_wf c \<and> pending c = [] \<and>
     server_wf (core s)"

definition answered_with ::
  "'d option list \<Rightarrow> byte list \<Rightarrow> 'w \<Rightarrow> recv_event list \<Rightarrow> nat \<Rightarrow> 'd ClientInfo \<Rightarrow> ('w, 'd) Server \<Rightarrow> 'd ClientInfo \<Rightarrow> ('w, 'd) Server \<Rightarrow> bool" where
  "answered_with ds out w es a c s c' s' \<longleftrightarrow>
     quiet_conn s' a c' \<and> ci_fd c' = ci_fd c \<and> ci_devices c' = ds \<and>
     (\<exists>p t. core s' = (core s)\<lparr>rx_pos := p, tx_buffer := t, world := w\<rparr>) \<and>
     rx_events (socks s') (ci_fd c) = es \<and> tx_data (socks s') (ci_fd c) = tx_data (socks s) (ci_fd c) @ out \<and>
     send_room (tx_events (socks s) (ci_fd c)) = length out + send_room (tx_events (socks s') (ci_fd c))"

text \<open>The handler answers the message at the start of the buffer of a client, with what \<open>Q\<close> says.\<close>

definition answers ::
  "('w, 'd) dev_ops \<Rightarrow> Hwio_packet_header \<Rightarrow> ('d option list \<Rightarrow> byte list \<Rightarrow> 'w \<Rightarrow> bool) \<Rightarrow> ('w, 'd) HwioServer \<Rightarrow> nat \<Rightarrow>
   'd ClientInfo \<Rightarrow> bool" where
  "answers ops h Q k room c \<longleftrightarrow> (\<exists>out t w c2. handle_msg ops c h (k\<lparr>rx_pos := 3\<rparr>) =
      (Inr \<lparr>disconnect = False, tx_size = length out\<rparr>, c2, k\<lparr>rx_pos := 3, tx_buffer := t, world := w\<rparr>) \<and>
    acap t = 2048 \<and> abytes t 0 (length out) = out \<and> length out \<le> 2048 \<and> length out \<le> room \<and> Q (ci_devices c2) out w)"

lemma whole_message:
  assumes "map_of (fd_to_client s) (ci_fd c) = Some a" "client_heap s a = Some c" "rx_wf c" "server_wf (core s)"
    and "pending c = enc_header h @ body" "length body = unat (body_len h)" "curr_ptr (ci_rx c) = 0"
    and "answers ops h Q (core s) (send_room (tx_events (socks s) (ci_fd c))) c"
  shows "\<exists>c' s' ds out w. parse_msgs ops a s = Some (Inr (), s') \<and>
    answered_with ds out w (rx_events (socks s) (ci_fd c)) a c s c' s' \<and> Q ds out w"
proof -
  let ?fd = "ci_fd c"
  obtain out t w c2 where t: "handle_msg ops c h ((core s)\<lparr>rx_pos := 3\<rparr>) =
      (Inr \<lparr>disconnect = False, tx_size = length out\<rparr>, c2, (core s)\<lparr>rx_pos := 3, tx_buffer := t, world := w\<rparr>)"
      "acap t = 2048" "abytes t 0 (length out) = out" "length out \<le> 2048"
      "length out \<le> send_room (tx_events (socks s) ?fd)" "Q (ci_devices c2) out w"
    using assms(8) unfolding answers_def by blast
  have kept: "rx_kept c c2" using handle_msg_kept [of c ops h] t(1) by (metis fst_conv snd_conv)
  let ?k = "(core s)\<lparr>rx_pos := 3, tx_buffer := t, world := w\<rparr>" and ?c = "advance_rx (3 + length body) c2"
  obtain xs where xs: "parse_msgs ops a s = Some (Inr (), s\<lparr>core := ?k,
      socks := (socks s)\<lparr>tx_events := (tx_events (socks s))(?fd := xs),
        tx_data := (tx_data (socks s))(?fd := tx_data (socks s) ?fd @ out)\<rparr>,
      client_heap := (client_heap s)(a \<mapsto> ?c)\<rparr>)" (is "_ = Some (_, ?s)")
      "send_room (tx_events (socks s) ?fd) = length out + send_room xs"
    using parse_msgs_single [of s a c h body ops out c2 ?k] assms(2,3,5-7) t by auto
  have c2: "curr_len (ci_rx c2) = 3 + length body" "rx_wf c2" "ci_fd c2 = ?fd"
    using kept assms(3,5) length_pending [of c] by (simp_all add: rx_kept_def rx_wf_def)
  have "pending ?c = []" "rx_wf ?c" "ci_fd ?c = ?fd" "ci_devices ?c = ci_devices c2"
    using pending_advance [OF c2(2), of "3 + length body"] c2(1,3) length_pending [of c2] by (simp_all add: advance_rx_def)
  moreover have "\<exists>p t'. ?k = (core s)\<lparr>rx_pos := p, tx_buffer := t', world := w\<rparr>" by blast
  ultimately have "answered_with (ci_devices c2) out w (rx_events (socks s) ?fd) a c s ?c ?s"
    using xs(2) assms(1,4) t(2) by (simp add: answered_with_def quiet_conn_def server_wf_def)
  with xs(1) t(6) show ?thesis by blast
qed

lemma serve_message:
  assumes "map_of (fd_to_client s) (ci_fd c) = Some a" "client_heap s a = Some c" "rx_wf c" "server_wf (core s)"
    and "pending c = [] \<or> curr_ptr (ci_rx c) = 0" "chs \<noteq> []" "list_all (\<lambda>(pre, bs). list_all is_retry pre \<and> bs \<noteq> []) chs"
    and "pending c @ concat (map snd chs) = enc_header h @ body" "length body = unat (body_len h)"
    and "3 + length body \<le> RX_BUFFER_SIZE" "rx_events (socks s) (ci_fd c) = concat (map chunk_events chs) @ es"
    and "\<And>c'. rx_wf c' \<Longrightarrow> pending c' = enc_header h @ body \<Longrightarrow> curr_ptr (ci_rx c') = 0 \<Longrightarrow> ci_devices c' = ci_devices c \<Longrightarrow>
      answers ops h Q (core s) (send_room (tx_events (socks s) (ci_fd c))) c'"
  shows "\<exists>c' s' ds out w. serve_rounds ops (ci_fd c) (length chs) s = Some (Inr (), s') \<and>
    answered_with ds out w es a c s c' s' \<and> Q ds out w"
  using assms
proof (induction chs arbitrary: c s)
  case (Cons ch chs)
  obtain pre bs where ch: "ch = (pre, bs)" by fastforce
  let ?es = "concat (map chunk_events chs) @ es" and ?fd = "ci_fd c"
  have len: "length (pending c) + length bs + length (concat (map snd chs)) = 3 + length body"
    using arg_cong [OF Cons.prems(8), of length] ch by simp
  have "no_overlap c" using Cons.prems(5) length_pending [of c] by (auto simp: no_overlap_def)
  then obtain c1 where c1: "read_from_socket a s = Some (Inr True, put_client a c1
        (s\<lparr>socks := (socks s)\<lparr>rx_events := (rx_events (socks s))(?fd := ?es)\<rparr>\<rparr>))" (is "_ = Some (_, ?s1)")
      "pending c1 = pending c @ bs" "curr_ptr (ci_rx c1) = 0" "rx_wf c1" "ci_fd c1 = ?fd" "ci_devices c1 = ci_devices c"
    using read_from_socket_data [of s a c pre bs ?es] Cons.prems(2,3,7,10,11) len ch by (auto simp: chunk_events_def)
  have round: "handle_multiple_client_requests ops ?fd s = parse_msgs ops a ?s1"
    using Cons.prems(1,2) c1(1) by (simp add: handle_multiple_client_requests_def client_of_fd_def)
  have same: "answered_with ds out w xs a c1 ?s1 c' s' = answered_with ds out w xs a c s c' s'" for ds out w xs c' s'
    using c1(5) by (simp add: answered_with_def)
  show ?case
  proof (cases "chs = []")
    case True
    then have pend: "pending c1 = enc_header h @ body" using c1(2) Cons.prems(8) ch by simp
    have "answers ops h Q (core ?s1) (send_room (tx_events (socks ?s1) (ci_fd c1))) c1"
      using Cons.prems(12) [OF c1(4) pend c1(3,6)] c1(5) by simp
    then have "\<exists>c' s' ds out w. parse_msgs ops a ?s1 = Some (Inr (), s') \<and>
        answered_with ds out w (rx_events (socks ?s1) (ci_fd c1)) a c1 ?s1 c' s' \<and> Q ds out w"
      using Cons.prems(1,4,9) c1(3-5) pend by (intro whole_message) simp_all
    moreover have "rx_events (socks ?s1) (ci_fd c1) = es" using c1(5) True by simp
    ultimately show ?thesis using round True unfolding same by fastforce
  next
    case False
    then have "concat (map snd chs) \<noteq> []" using Cons.prems(7) by (cases chs) auto
    then have "incomplete (pending c1)"
      using incomplete_prefix [of "pending c1" "concat (map snd chs)" h body] Cons.prems(8,9) c1(2) ch by simp
    then have step: "handle_multiple_client_requests ops ?fd s = Some (Inr (), ?s1)"
      using round parse_msgs_incomplete [of ?s1 a c1 ops] c1(4) by simp
    have "\<exists>c' s' ds out w. serve_rounds ops (ci_fd c1) (length chs) ?s1 = Some (Inr (), s') \<and>
        answered_with ds out w es a c1 ?s1 c' s' \<and> Q ds out w"
    proof (rule Cons.IH)
      fix c' :: "'b ClientInfo"
      assume "rx_wf c'" "pending c' = enc_header h @ body" "curr_ptr (ci_rx c') = 0" "ci_devices c' = ci_devices c1"
      then show "answers ops h Q (core ?s1) (send_room (tx_events (socks ?s1) (ci_fd c1))) c'"
        using Cons.prems(12) [of c'] c1(5,6) by simp
    qed (use Cons.prems(1-11) c1 False ch in simp_all)
    then show ?thesis using step c1(5) unfolding same by simp
  qed
qed simp

text \<open>A connection without leftovers, and an answer that is known beforehand.\<close>

lemma serve_chunks:
  assumes "quiet_conn s a c" "chunks_of (enc_header h @ body) chs" "length body = unat (body_len h)"
    and "3 + length body \<le> RX_BUFFER_SIZE" "rx_events (socks s) (ci_fd c) = concat (map chunk_events chs) @ es"
    and "\<And>c'. rx_wf c' \<Longrightarrow> pending c' = enc_header h @ body \<Longrightarrow> curr_ptr (ci_rx c') = 0 \<Longrightarrow>
      ci_devices c' = ci_devices c \<Longrightarrow> answers ops h Q (core s) (send_room (tx_events (socks s) (ci_fd c))) c'"
  shows "\<exists>c' s' ds out w. serve_rounds ops (ci_fd c) (length chs) s = Some (Inr (), s') \<and>
    answered_with ds out w es a c s c' s' \<and> Q ds out w"
proof -
  have q: "map_of (fd_to_client s) (ci_fd c) = Some a" "client_heap s a = Some c" "rx_wf c" "server_wf (core s)" "pending c = []"
    using assms(1) by (simp_all add: quiet_conn_def)
  have chs: "concat (map snd chs) = enc_header h @ body" "list_all (\<lambda>(pre, bs). list_all is_retry pre \<and> bs \<noteq> []) chs" "chs \<noteq> []"
    using assms(2) by (auto simp: chunks_of_def enc_header_def)
  show ?thesis
    by (rule serve_message [OF q(1-4) _ chs(3,2) _ assms(3-6)]) (simp_all add: q(5) chs(1))
qed

lemma serve_chunks_fixed:
  assumes "quiet_conn s a c" "chunks_of (enc_header h @ body) chs" "length body = unat (body_len h)"
    and "3 + length body \<le> RX_BUFFER_SIZE" "rx_events (socks s) (ci_fd c) = concat (map chunk_events chs) @ es"
    and "length out \<le> send_room (tx_events (socks s) (ci_fd c))" "length out \<le> 2048"
    and "\<And>c'. rx_wf c' \<Longrightarrow> pending c' = enc_header h @ body \<Longrightarrow> curr_ptr (ci_rx c') = 0 \<Longrightarrow>
      ci_devices c' = ci_devices c \<Longrightarrow> \<exists>t. handle_msg ops c' h ((core s)\<lparr>rx_pos := 3\<rparr>) =
        (Inr \<lparr>disconnect = False, tx_size = length out\<rparr>, c', (core s)\<lparr>rx_pos := 3, tx_buffer := t, world := w\<rparr>) \<and>
      acap t = 2048 \<and> abytes t 0 (length out) = out"
  shows "\<exists>c' s'. serve_rounds ops (ci_fd c) (length chs) s = Some (Inr (), s') \<and>
    answered_with (ci_devices c) out w es a c s c' s'"
proof -
  let ?Q = "\<lambda>ds o' w'. ds = ci_devices c \<and> o' = out \<and> w' = w"
  have "\<exists>c' s' ds o' w'. serve_rounds ops (ci_fd c) (length chs) s = Some (Inr (), s') \<and>
      answered_with ds o' w' es a c s c' s' \<and> ?Q ds o' w'"
  proof (rule serve_chunks [OF assms(1-5)])
    fix c' :: "'b ClientInfo"
    assume "rx_wf c'" "pending c' = enc_header h @ body" "curr_ptr (ci_rx c') = 0" "ci_devices c' = ci_devices c"
    from assms(8) [OF this] this(4) show "answers ops h ?Q (core s) (send_room (tx_events (socks s) (ci_fd c))) c'"
      using assms(6,7) unfolding answers_def by blast
  qed
  then show ?thesis by blast
qed

lemma serve_rounds_add:
  "serve_rounds ops fd m s = Some (Inr (), s') \<Longrightarrow> serve_rounds ops fd (m + n) s = serve_rounds ops fd n s'"
  by (induction m arbitrary: s) (auto split: option.splits sum.splits)

end
