(* ===== verification/Hwio_Discovery.thy ===== *)
theory Hwio_Discovery
  imports Hwio_Query_Laws Hwio_Client_Laws Hwio_Message
begin

text \<open>
  Finding devices over a connection: the query the remote bus builds, the answer of the server, and
  the device objects the remote bus makes of it (\<open>src/src/bus/hwio_bus_remote.cpp\<close> against
  \<open>src/src/server/hwio_server_query.cpp\<close>).
\<close>

section \<open>The query frame\<close>

lemma length_query_items [simp]: "length (concat (map enc_query_item specs)) = 396 * length specs"
  by (induction specs) simp_all

lemma query_fields_ok:
  assumes "con_wf c" "p + 396 * length specs \<le> 2048"
  shows "\<exists>c'. fill_all (query_fields p specs) c = Inr c' \<and> con_wf c' \<and> sockfd c' = sockfd c \<and> con_socks c' = con_socks c \<and>
    abytes (con_tx c') p (396 * length specs) = concat (map enc_query_item specs) \<and>
    (\<forall>q n. q + n \<le> p \<longrightarrow> abytes (con_tx c') q n = abytes (con_tx c) q n)"
  using assms
proof (induction specs arbitrary: p c)
  case Nil
  then show ?case by (simp add: abytes_def)
next
  case (Cons s specs)
  obtain c1 where c1: "fill_tx p (enc_query_item s) c = Inr c1" "con_wf c1" "sockfd c1 = sockfd c" "con_socks c1 = con_socks c"
      "abytes (con_tx c1) p 396 = enc_query_item s" "\<forall>q n. q + n \<le> p \<longrightarrow> abytes (con_tx c1) q n = abytes (con_tx c) q n"
    using fill_tx_ok [OF Cons.prems(1), of p "enc_query_item s"] Cons.prems(2) by auto
  obtain c2 where c2: "fill_all (query_fields (p + 396) specs) c1 = Inr c2" "con_wf c2" "sockfd c2 = sockfd c1" "con_socks c2 = con_socks c1"
      "abytes (con_tx c2) (p + 396) (396 * length specs) = concat (map enc_query_item specs)"
      "\<forall>q n. q + n \<le> p + 396 \<longrightarrow> abytes (con_tx c2) q n = abytes (con_tx c1) q n"
    using Cons.IH [OF c1(2), of "p + 396"] Cons.prems(2) by auto
  have "abytes (con_tx c2) p (396 + 396 * length specs) = enc_query_item s @ concat (map enc_query_item specs)"
    using c1(5) c2(5,6) by (simp add: abytes_split)
  then show ?case using c1 c2 by simp
qed

lemma spec_list_to_query_ok:
  assumes "con_wf c" "length specs \<le> 5"
  shows "\<exists>c'. spec_list_to_query specs c = Inr c' \<and> con_wf c' \<and> sockfd c' = sockfd c \<and> con_socks c' = con_socks c \<and>
    abytes (con_tx c') 0 (3 + 396 * length specs) =
      enc_header \<lparr>command = HWIO_CMD_QUERY, body_len = word_of_nat (396 * length specs)\<rparr> @ concat (map enc_query_item specs)"
proof -
  let ?h = "enc_header \<lparr>command = HWIO_CMD_QUERY, body_len = word_of_nat (396 * length specs)\<rparr>"
  obtain c1 where c1: "fill_tx 0 ?h c = Inr c1" "con_wf c1" "sockfd c1 = sockfd c" "con_socks c1 = con_socks c"
      "abytes (con_tx c1) 0 3 = ?h"
    using fill_tx_ok [OF assms(1), of 0 ?h] by auto
  obtain c2 where c2: "fill_all (query_fields 3 specs) c1 = Inr c2" "con_wf c2" "sockfd c2 = sockfd c1" "con_socks c2 = con_socks c1"
      "abytes (con_tx c2) 3 (396 * length specs) = concat (map enc_query_item specs)" "abytes (con_tx c2) 0 3 = abytes (con_tx c1) 0 3"
    using query_fields_ok [OF c1(2), of 3 specs] assms(2) by auto
  have "abytes (con_tx c2) 0 (3 + 396 * length specs) = ?h @ concat (map enc_query_item specs)"
    using c1(5) c2(5,6) by (simp add: abytes_split)
  then show ?thesis using c1 c2 by (simp add: spec_list_to_query_def)
qed

section \<open>The device objects\<close>

lemma find_seen_first:
  "find_seen i ds k = (if i \<in> rdev_id ` set ds then Some (k + length (takeWhile (\<lambda>d. rdev_id d \<noteq> i) ds)) else None)"
  by (induction ds arbitrary: k) auto

text \<open>An id gets the object that has it, or a new one at the end.\<close>

lemma hwio_dev_from_id_ok:
  assumes "hwio_dev_from_id specs i seen = (d, seen')"
  shows "d < length seen' \<and> rdev_id (seen' ! d) = i \<and> (\<exists>new. seen' = seen @ new) \<and>
    (distinct (map rdev_id seen) \<longrightarrow> distinct (map rdev_id seen'))"
proof (cases "i \<in> rdev_id ` set seen")
  case True
  let ?k = "length (takeWhile (\<lambda>d. rdev_id d \<noteq> i) seen)"
  have "?k < length seen" using True by (induction seen) auto
  then have "rdev_id (seen ! ?k) = i" using nth_length_takeWhile [of "\<lambda>d. rdev_id d \<noteq> i" seen] by simp
  with True \<open>?k < length seen\<close> show ?thesis
    using assms by (auto simp: hwio_dev_from_id_def find_seen_first)
next
  case False
  then show ?thesis using assms by (auto simp: hwio_dev_from_id_def find_seen_first nth_append)
qed

lemma ids_loop_ok:
  assumes "abytes rx (2 * k) (2 * length ids) = concat (map enc16 ids)" "2 * (k + length ids) \<le> acap rx"
  shows "\<exists>ds seen'. ids_loop specs rx k (length ids) seen = (Inr ds, seen') \<and>
    map (\<lambda>d. rdev_id (seen' ! d)) ds = ids \<and> (\<forall>d \<in> set ds. d < length seen') \<and> (\<exists>new. seen' = seen @ new) \<and>
    (distinct (map rdev_id seen) \<longrightarrow> distinct (map rdev_id seen'))"
  using assms
proof (induction ids arbitrary: k seen)
  case (Cons i ids)
  have parts: "abytes rx (2 * k) (2 * length (i # ids)) = enc16 i @ concat (map enc16 ids)"
    using Cons.prems(1) by simp
  have load: "aload rx (2 * k) 2 = Inr (enc16 i)"
    using Cons.prems(2) abytes_appendD(1) [OF parts] by (simp add: aload_ok)
  obtain d seen1 where d: "hwio_dev_from_id specs i seen = (d, seen1)" by fastforce
  note d_ok = hwio_dev_from_id_ok [OF d]
  have len: "length (concat (map enc16 ids)) = 2 * length ids" by (induction ids) simp_all
  obtain ds seen2 where ih: "ids_loop specs rx (k + 1) (length ids) seen1 = (Inr ds, seen2)"
      "map (\<lambda>d. rdev_id (seen2 ! d)) ds = ids" "\<forall>d \<in> set ds. d < length seen2" "\<exists>new. seen2 = seen1 @ new"
      "distinct (map rdev_id seen1) \<longrightarrow> distinct (map rdev_id seen2)"
    using Cons.IH [of "k + 1" seen1] Cons.prems(2) abytes_appendD(2) [OF parts] len by auto
  have "rdev_id (seen2 ! d) = i" "d < length seen2"
    using d_ok ih(4) by (auto simp: nth_append)
  then show ?case using load d ih d_ok by auto
qed simp

section \<open>A query over a connection\<close>

abbreviation query_frame :: "hwio_comp_spec list \<Rightarrow> byte list" where
  "query_frame specs \<equiv>
     enc_header \<lparr>command = HWIO_CMD_QUERY, body_len = word_of_nat (396 * length specs)\<rparr> @ concat (map enc_query_item specs)"

abbreviation ids_frame :: "u16 list \<Rightarrow> byte list" where
  "ids_frame ids \<equiv> enc_header \<lparr>command = HWIO_CMD_QUERY_RESP, body_len = word_of_nat (2 * length ids)\<rparr> @ concat (map enc16 ids)"

text \<open>A client of the server that has sent nothing but a query, which the server can answer.\<close>

definition query_conn ::
  "(mmap_world, nat) Server \<Rightarrow> nat \<Rightarrow> nat ClientInfo \<Rightarrow> chunk list \<Rightarrow> hwio_comp_spec list \<Rightarrow> nat list \<Rightarrow> bool" where
  "query_conn s a c chs specs result \<longleftrightarrow>
     quiet_conn s a c \<and> chunks_of (query_frame specs) chs \<and> rx_events (socks s) (ci_fd c) = concat (map chunk_events chs) \<and>
     list_all spec_fits specs \<and> 0 < length specs \<and> length specs \<le> MAX_ITEMS_PER_QUERY \<and>
     composite_find_devices (buses (core s)) specs (world (core s)) = (Inr result, world (core s)) \<and>
     list_all (\<lambda>d. mmap_ready d (world (core s))) result \<and> length result \<le> 1022 \<and>
     length (ci_devices c) + length result \<le> 65536 \<and> inj_on (owned (ci_devices c)) (dom (owned (ci_devices c))) \<and>
     3 + 2 * length result \<le> send_room (tx_events (socks s) (ci_fd c))"

lemma server_query_round:
  assumes "query_conn s a c chs specs result"
  shows "\<exists>s' c' ids. serve_rounds mmap_ops (ci_fd c) (length chs) s = Some (Inr (), s') \<and> client_heap s' a = Some c' \<and>
    map (client_get_dev c') ids = map Some result \<and>
    tx_data (socks s') (ci_fd c) = tx_data (socks s) (ci_fd c) @ ids_frame ids"
proof -
  note q = assms [unfolded query_conn_def]
  let ?n = "length specs" and ?r = "length result" and ?fd = "ci_fd c" and ?k = "(core s)\<lparr>rx_pos := 3\<rparr>"
  let ?h = "\<lparr>command = HWIO_CMD_QUERY, body_len = word_of_nat (396 * ?n)\<rparr> :: Hwio_packet_header"
  let ?body = "concat (map enc_query_item specs)"
  let ?Q = "\<lambda>ds out w. \<exists>ids. out = ids_frame ids \<and>
    (\<forall>c'. ci_devices c' = ds \<longrightarrow> map (client_get_dev c') ids = map Some result)"
  have n: "unat (word_of_nat (396 * ?n) :: u16) = 396 * ?n" using q by (intro unat_u16_of_nat) simp
  have wf: "server_wf ?k" using q by (simp add: quiet_conn_def server_wf_def)
  have "\<exists>c' s' ds out w. serve_rounds mmap_ops ?fd (length chs) s = Some (Inr (), s') \<and>
      answered_with ds out w [] a c s c' s' \<and> ?Q ds out w"
  proof (rule serve_chunks)
    fix c1 assume c1: "rx_wf c1" "pending c1 = enc_header ?h @ ?body" "curr_ptr (ci_rx c1) = 0" "ci_devices c1 = ci_devices c"
    have pend: "curr_len (ci_rx c1) = 3 + 396 * ?n"
      using arg_cong [OF c1(2), of length] by (simp add: length_pending)
    have "abytes (rx_mem c1) 0 (curr_len (ci_rx c1)) = enc_header ?h @ ?body"
      using c1(2,3) by (simp add: pending_def)
    then have "query_at c1 ?k specs"
      using q abytes_appendD(2) [of "rx_mem c1" 0 _ "enc_header ?h" ?body] c1(1,3) pend by (simp add: query_at_def rx_wf_def)
    then obtain ids c2 t w where m: "handle_msg mmap_ops c1 ?h ?k =
          (Inr \<lparr>disconnect = False, tx_size = 3 + 2 * ?r\<rparr>, c2, ?k\<lparr>tx_buffer := t, world := w\<rparr>)" "acap t = 2048"
        "abytes t 0 (3 + 2 * ?r) = enc_header \<lparr>command = HWIO_CMD_QUERY_RESP, body_len = word_of_nat (2 * ?r)\<rparr> @ concat (map enc16 ids)"
        "map (client_get_dev c2) ids = map Some result"
      using handle_query_correct [of ?k c1 specs ?h result] q c1(4) wf by auto
    have ids: "length ids = ?r" "length (ids_frame ids) = 3 + 2 * ?r"
      using arg_cong [OF m(4), of length] arg_cong [OF m(3), of length] by simp_all
    have "map (client_get_dev c') ids = map Some result" if "ci_devices c' = ci_devices c2" for c'
      using m(4) unfolding client_get_dev_def that .
    then have Q: "?Q (ci_devices c2) (ids_frame ids) w" by blast
    have fits: "length (ids_frame ids) \<le> 2048" "length (ids_frame ids) \<le> send_room (tx_events (socks s) ?fd)"
      using ids(2) q by simp_all
    have frame: "abytes t 0 (length (ids_frame ids)) = ids_frame ids" using m(3) ids by simp
    show "answers mmap_ops ?h ?Q (core s) (send_room (tx_events (socks s) ?fd)) c1"
      using m(1) [folded ids(2)] m(2) frame fits Q unfolding answers_def by blast
  qed (use q n in simp_all)
  then show ?thesis by (auto simp: answered_with_def quiet_conn_def)
qed

lemma client_query_round:
  assumes "con_wf (bus_server b)" "accepts busy (con_tx_events (bus_server b))" "1983 \<le> send_room (con_tx_events (bus_server b))"
    and "delivers busy (con_rx_events (bus_server b))" "ev_bytes (con_rx_events (bus_server b)) = ids_frame ids"
    and "length specs \<le> 5" "length ids \<le> 1022"
  shows "\<exists>ds b'. remote_find_devices busy specs b = Some (Inr ds, b') \<and>
    con_sent (bus_server b') = con_sent (bus_server b) @ query_frame specs \<and>
    map (\<lambda>d. rdev_id (seen_devices b' ! d)) ds = ids \<and> (\<exists>new. seen_devices b' = seen_devices b @ new) \<and>
    (distinct (map rdev_id (seen_devices b)) \<longrightarrow> distinct (map rdev_id (seen_devices b')))"
proof -
  let ?c = "bus_server b" and ?body = "concat (map enc_query_item specs)"
  let ?h = "\<lparr>command = HWIO_CMD_QUERY, body_len = word_of_nat (396 * length specs)\<rparr> :: Hwio_packet_header"
  let ?rh = "\<lparr>command = HWIO_CMD_QUERY_RESP, body_len = word_of_nat (2 * length ids)\<rparr> :: Hwio_packet_header"
  have n: "unat (word_of_nat (396 * length specs) :: u16) = 396 * length specs"
      "unat (word_of_nat (2 * length ids) :: u16) = 2 * length ids"
    using assms(6,7) by (intro unat_u16_of_nat, simp)+
  have ids: "length (concat (map enc16 ids)) = 2 * length ids" by (induction ids) simp_all
  obtain c1 where c1: "spec_list_to_query specs ?c = Inr c1" "con_wf c1" "sockfd c1 = sockfd ?c" "con_socks c1 = con_socks ?c"
      "abytes (con_tx c1) 0 (3 + length ?body) = enc_header ?h @ ?body"
    using spec_list_to_query_ok [OF assms(1,6)] by auto
  obtain c2 where c2: "tx_pckt busy c1 = Some (Inr (), c2)" "con_wf c2" "sockfd c2 = sockfd c1"
      "con_sent c2 = con_sent c1 @ query_frame specs" "con_rx_events c2 = con_rx_events c1"
    using tx_pckt_ok [OF c1(2) _ c1(5), of busy] assms(2,3,6) n(1) c1(3,4) by auto
  obtain c3 where c3: "rx_pckt busy c2 = Some (Inr ?rh, c3)" "con_wf c3" "sockfd c3 = sockfd c2"
      "abytes (con_rx c3) 0 (2 * length ids) = concat (map enc16 ids)" "con_sent c3 = con_sent c2"
    using rx_pckt_ok [OF c2(2), of busy ?rh "concat (map enc16 ids)" "[]"] assms(4,5,7) c1(3,4) c2(3,5) n(2) ids by auto
  obtain ds seen where "ids_loop specs (con_rx c3) 0 (length ids) (seen_devices b) = (Inr ds, seen)"
      "map (\<lambda>d. rdev_id (seen ! d)) ds = ids" "\<exists>new. seen = seen_devices b @ new"
      "distinct (map rdev_id (seen_devices b)) \<longrightarrow> distinct (map rdev_id seen)"
    using ids_loop_ok [of "con_rx c3" 0 ids specs "seen_devices b"] c3(2,4) assms(7) by (auto simp: con_wf_def)
  then show ?thesis
    using c1 c2 c3 n(2) by (simp add: remote_find_devices_def)
qed

text \<open>
  C3: a client that looks for devices through a remote bus gets one device object for each device
  the buses of the server find, in the same order; the id of each object names that device in the
  server's table for the client, objects seen before stay, and no two objects share an id. The query
  and its answer may be cut anywhere on the way.
\<close>

theorem remote_query_end_to_end:
  assumes "query_conn s a c chs specs result"
    and "con_wf (bus_server b)" "accepts busy (con_tx_events (bus_server b))" "1983 \<le> send_room (con_tx_events (bus_server b))"
    and "delivers busy (con_rx_events (bus_server b))" "distinct (map rdev_id (seen_devices b))"
  shows "\<exists>s' c' out. serve_rounds mmap_ops (ci_fd c) (length chs) s = Some (Inr (), s') \<and> client_heap s' a = Some c' \<and>
    tx_data (socks s') (ci_fd c) = tx_data (socks s) (ci_fd c) @ out \<and>
    (ev_bytes (con_rx_events (bus_server b)) = out \<longrightarrow>
      (\<exists>ds b'. remote_find_devices busy specs b = Some (Inr ds, b') \<and>
        con_sent (bus_server b') = con_sent (bus_server b) @ query_frame specs \<and>
        map (\<lambda>d. client_get_dev c' (rdev_id (seen_devices b' ! d))) ds = map Some result \<and>
        (\<exists>new. seen_devices b' = seen_devices b @ new) \<and> distinct (map rdev_id (seen_devices b'))))"
proof -
  obtain s' c' ids where s': "serve_rounds mmap_ops (ci_fd c) (length chs) s = Some (Inr (), s')" "client_heap s' a = Some c'"
      "map (client_get_dev c') ids = map Some result" "tx_data (socks s') (ci_fd c) = tx_data (socks s) (ci_fd c) @ ids_frame ids"
    using server_query_round [OF assms(1)] by blast
  have "length specs \<le> 5" "length ids \<le> 1022"
    using assms(1) arg_cong [OF s'(3), of length] by (simp_all add: query_conn_def)
  note client = client_query_round [OF assms(2-5) _ this]
  have "map (\<lambda>d. client_get_dev c' (f d)) ds = map Some result" if "map f ds = ids" for f and ds :: "nat list"
    using s'(3) that by (auto simp: comp_def)
  then show ?thesis
    using s' client assms(6) by (intro exI [of _ s'] exI [of _ c'] exI [of _ "ids_frame ids"]) auto
qed

text \<open>A query in two pieces, cut inside its specification.\<close>

definition demo_query_chunks :: "chunk list" where
  "demo_query_chunks = [([Recv_again], take 100 (query_frame [demo_spec])), ([Recv_intr], drop 100 (query_frame [demo_spec]))]"

definition demo_query_conn :: "(mmap_world, nat) Server" where
  "demo_query_conn = (demo_conn ((demo_client [])\<lparr>ci_devices := []\<rparr>) (concat (map chunk_events demo_query_chunks)))
    \<lparr>core := demo_query_server\<rparr>"

definition demo_bus :: "byte list \<Rightarrow> hwio_bus_remote" where
  "demo_bus bs = \<lparr>bus_server = demo_con [Recv_again, Recv_data bs], seen_devices = []\<rparr>"

lemma demo_query_conn_ok:
  "query_conn demo_query_conn 0 ((demo_client [])\<lparr>ci_devices := []\<rparr>) demo_query_chunks [demo_spec] [0]"
proof -
  have "length (query_frame [demo_spec]) = 399" by simp
  then have "chunks_of (query_frame [demo_spec]) demo_query_chunks"
    by (auto simp: chunks_of_def demo_query_chunks_def is_retry_def enc_header_def)
  moreover have "rx_events (socks demo_query_conn) 5 = concat (map chunk_events demo_query_chunks)"
    by (simp add: demo_query_conn_def demo_conn_def)
  moreover have "quiet_conn demo_query_conn 0 ((demo_client [])\<lparr>ci_devices := []\<rparr>)"
    by (simp add: quiet_conn_def demo_query_conn_def demo_conn_def demo_client_at_def rx_wf_def pending_def abytes_def
        demo_query_server_def demo_server_def server_wf_def)
  moreover have "composite_find_devices (buses (core demo_query_conn)) [demo_spec] (world (core demo_query_conn)) =
      (Inr [0], world (core demo_query_conn))"
    using demo_query_found by (simp add: demo_query_conn_def)
  moreover have "list_all spec_fits [demo_spec]" using demo_query_at by (simp add: query_at_def)
  moreover have "mmap_ready 0 (world (core demo_query_conn))"
    by (simp add: mmap_ready_def demo_query_conn_def demo_query_server_def demo_world_def)
  moreover have "send_room (tx_events (socks demo_query_conn) 5) = 100000" by (simp add: demo_query_conn_def demo_conn_def)
  ultimately show ?thesis
    by (simp add: query_conn_def) (simp add: demo_client_at_def inj_on_def owned_def dom_def)
qed

theorem remote_query_end_to_end_witness:
  "\<exists>s' c' out ds b'. serve_rounds mmap_ops 5 2 demo_query_conn = Some (Inr (), s') \<and>
    client_heap s' 0 = Some c' \<and> tx_data (socks s') 5 = tx_data (socks demo_query_conn) 5 @ out \<and>
    remote_find_devices True [demo_spec] (demo_bus out) = Some (Inr ds, b') \<and>
    con_sent (bus_server b') = query_frame [demo_spec] \<and>
    map (\<lambda>d. client_get_dev c' (rdev_id (seen_devices b' ! d))) ds = [Some 0] \<and> distinct (map rdev_id (seen_devices b'))"
proof -
  note demo = remote_query_end_to_end [OF demo_query_conn_ok, of "demo_bus bs" True for bs]
  have fd: "ci_fd ((demo_client [])\<lparr>ci_devices := []\<rparr>) = 5" by (simp add: demo_client_at_def)
  have bus: "con_wf (bus_server (demo_bus bs))" "accepts True (con_tx_events (bus_server (demo_bus bs)))"
      "1983 \<le> send_room (con_tx_events (bus_server (demo_bus bs)))" "seen_devices (demo_bus bs) = []"
      "con_sent (bus_server (demo_bus bs)) = []" "ev_bytes (con_rx_events (bus_server (demo_bus bs))) = bs"
      "delivers True (con_rx_events (bus_server (demo_bus bs)))" for bs
    by (simp_all add: demo_bus_def demo_con_def con_wf_def)
  have two: "length demo_query_chunks = 2" by (simp add: demo_query_chunks_def)
  obtain s' c' out where s': "serve_rounds mmap_ops 5 2 demo_query_conn = Some (Inr (), s')"
      "tx_data (socks s') 5 = tx_data (socks demo_query_conn) 5 @ out"
    using demo [of "[0]"] bus by (auto simp: fd two)
  show ?thesis using demo [of out] bus s' by (auto simp: fd two)
qed

end
