(* ===== verification/Hwio_Rpc_Remote.thy ===== *)
theory Hwio_Rpc_Remote
  imports Hwio_Rpc_Laws Hwio_Discovery
begin

text \<open>
  A plugin function called through a remote device (\<open>is_rpc_available\<close>, \<open>get_rpc_fn_id\<close> and
  \<open>remote_call\<close> of \<open>src/src/device/hwio_device_remote.h\<close> against
  \<open>src/src/server/hwio_server_remote_call.cpp\<close>), over connections that cut the messages anywhere.
\<close>

section \<open>The server\<close>

text \<open>
  What the server relies on in a plugin function: it reads its arguments, changes the world, fills
  in its result and leaves the rest of the buffer alone.
\<close>

definition plugin_computes :: "('w, 'd) plugin_info \<Rightarrow> ('d \<Rightarrow> byte list \<Rightarrow> 'w \<Rightarrow> byte list \<times> 'w) \<Rightarrow> bool" where
  "plugin_computes p f \<longleftrightarrow> pl_ret_size p \<le> 2045 \<and>
     (\<forall>d rx i tx w. i + pl_args_size p \<le> acap rx \<longrightarrow> acap tx = 2048 \<longrightarrow>
       (\<exists>tx'. pl_fn p d rx i tx 3 w = (Inr (), tx', snd (f d (abytes rx i (pl_args_size p)) w)) \<and> acap tx' = 2048 \<and>
         abytes tx' 0 3 = abytes tx 0 3 \<and> abytes tx' 3 (pl_ret_size p) = fst (f d (abytes rx i (pl_args_size p)) w)))"

lemma plugin_computesD:
  assumes "plugin_computes p f" "abytes rx i (pl_args_size p) = args" "i + pl_args_size p \<le> acap rx" "acap tx = 2048"
    and "f d args w = (ret, w')"
  shows "\<exists>tx'. pl_fn p d rx i tx 3 w = (Inr (), tx', w') \<and> acap tx' = 2048 \<and> abytes tx' 0 3 = abytes tx 0 3 \<and>
    abytes tx' 3 (pl_ret_size p) = ret"
  using assms(1) [unfolded plugin_computes_def, THEN conjunct2, rule_format, OF assms(3,4), of d w] assms(2,5) by simp

text \<open>The two requests and their answers.\<close>

abbreviation fn_id_req :: "u16 \<Rightarrow> string \<Rightarrow> byte list" where
  "fn_id_req dev n \<equiv> enc_header \<lparr>command = HWIO_CMD_GET_REMOTE_CALL_ID, body_len = 130\<rparr> @ enc_RemoteCall dev n"

abbreviation fn_id_resp :: "u32 \<Rightarrow> byte list" where
  "fn_id_resp k \<equiv> enc_header \<lparr>command = HWIO_CMD_GET_REMOTE_CALL_ID_RESP, body_len = 5\<rparr> @ enc_GetRemoteCallIdResp True k"

abbreviation fast_call_req :: "u16 \<Rightarrow> u32 \<Rightarrow> byte list \<Rightarrow> byte list" where
  "fast_call_req dev k args \<equiv>
     enc_header \<lparr>command = HWIO_CMD_REMOTE_CALL_FAST, body_len = word_of_nat (6 + length args)\<rparr> @ enc16 dev @ enc32 k @ args"

abbreviation call_resp :: "byte list \<Rightarrow> byte list" where
  "call_resp ret \<equiv> enc_header \<lparr>command = HWIO_CMD_REMOTE_CALL_RET, body_len = word_of_nat (length ret)\<rparr> @ ret"

lemma rpc_at_pending:
  assumes "rx_wf c" "pending c = enc_header h @ enc16 dev @ what @ rest" "curr_ptr (ci_rx c) = 0"
    and "client_get_dev c dev = Some d"
  shows "rpc_at c (k\<lparr>rx_pos := 3\<rparr>) d what" "abytes (rx_mem c) (5 + length what) (length rest) = rest"
    "5 + length what + length rest \<le> acap (rx_mem c)"
proof -
  have len: "curr_len (ci_rx c) = 5 + length what + length rest"
    using arg_cong [OF assms(2), of length] by (simp add: length_pending)
  then show cap: "5 + length what + length rest \<le> acap (rx_mem c)"
    using assms(1,3) by (simp add: rx_wf_def)
  have all: "abytes (rx_mem c) 0 (5 + length what + length rest) = enc_header h @ (enc16 dev @ what) @ rest"
    using assms(2,3) len by (simp add: pending_def)
  have body: "abytes (rx_mem c) 3 (2 + length what + length rest) = (enc16 dev @ what) @ rest"
    using abytes_appendD(2) [OF all] by simp
  show "abytes (rx_mem c) (5 + length what) (length rest) = rest"
    using abytes_appendD(2) [OF body] by simp
  show "rpc_at c (k\<lparr>rx_pos := 3\<rparr>) d what"
    using abytes_appendD(1) [OF body] assms(4) cap by (auto simp: rpc_at_def)
qed

lemma handle_fn_id_req:
  assumes "server_wf k" "rx_wf c" "pending c = fn_id_req dev n" "curr_ptr (ci_rx c) = 0" "client_get_dev c dev = Some d"
    and "no_nul n" "length n < 128" "find_fn n (plugins_fast_names k) 0 = Some j"
  shows "\<exists>t. handle_msg ops c \<lparr>command = HWIO_CMD_GET_REMOTE_CALL_ID, body_len = 130\<rparr> (k\<lparr>rx_pos := 3\<rparr>) =
      (Inr \<lparr>disconnect = False, tx_size = length (fn_id_resp j)\<rparr>, c, k\<lparr>rx_pos := 3, tx_buffer := t, world := world k\<rparr>) \<and>
    acap t = 2048 \<and> abytes t 0 (length (fn_id_resp j)) = fn_id_resp j"
proof -
  have "rpc_at c (k\<lparr>rx_pos := 3\<rparr>) d (strncpy_bytes 128 n)"
    by (rule rpc_at_pending [OF assms(2) _ assms(4,5), where rest = "[]"]) (use assms(3) in \<open>simp add: enc_RemoteCall_def\<close>)
  from fn_id_reply [OF _ this assms(6,7), of "\<lparr>command = HWIO_CMD_GET_REMOTE_CALL_ID, body_len = 130\<rparr>"] show ?thesis
    using assms(1,8) by (auto simp: handle_msg_def server_wf_def)
qed

lemma call_plugin_ok:
  assumes "server_wf k" "plugin_computes p f" "0 < pl_ret_size p" "abytes (rx_mem c) i (pl_args_size p) = args"
    and "i + pl_args_size p \<le> acap (rx_mem c)" "f d args (world k) = (ret, w)"
  shows "\<exists>t. call_plugin p d i c (k\<lparr>rx_pos := 3\<rparr>) =
      (Inr \<lparr>disconnect = False, tx_size = length (call_resp ret)\<rparr>, c, k\<lparr>rx_pos := 3, tx_buffer := t, world := w\<rparr>) \<and>
    acap t = 2048 \<and> abytes t 0 (length (call_resp ret)) = call_resp ret"
    and "length ret = pl_ret_size p"
proof -
  let ?r = "enc_header \<lparr>command = HWIO_CMD_REMOTE_CALL_RET, body_len = word_of_nat (pl_ret_size p)\<rparr>"
  obtain t0 where t0: "astore (tx_buffer k) 0 ?r = Inr t0" "acap t0 = 2048"
    using assms(1) by (simp add: astore_def server_wf_def)
  obtain t where t: "pl_fn p d (rx_mem c) i t0 3 (world k) = (Inr (), t, w)" "acap t = 2048" "abytes t 0 3 = abytes t0 0 3"
      "abytes t 3 (pl_ret_size p) = ret"
    using plugin_computesD [OF assms(2,4,5) t0(2) assms(6)] by blast
  show len: "length ret = pl_ret_size p" using arg_cong [OF t(4), of length] by simp
  have "abytes t 0 (length (call_resp ret)) = call_resp ret"
    using t(3,4) abytes_astore_same [OF t0(1)] abytes_split [of t 0 3 "pl_ret_size p"] len by simp
  then show "\<exists>t. call_plugin p d i c (k\<lparr>rx_pos := 3\<rparr>) =
      (Inr \<lparr>disconnect = False, tx_size = length (call_resp ret)\<rparr>, c, k\<lparr>rx_pos := 3, tx_buffer := t, world := w\<rparr>) \<and>
    acap t = 2048 \<and> abytes t 0 (length (call_resp ret)) = call_resp ret"
    using t0(1) t(1,2) len assms(3) by (intro exI [of _ t]) (simp add: call_plugin_def)
qed

lemma handle_fast_call_req:
  assumes "server_wf k" "rx_wf c" "pending c = fast_call_req dev j args" "curr_ptr (ci_rx c) = 0" "client_get_dev c dev = Some d"
    and "unat j < length (plugins_fast k)" "plugins_fast k ! unat j = p" "plugin_computes p f" "0 < pl_ret_size p"
    and "length args = pl_args_size p" "length args \<le> 65529" "f d args (world k) = (ret, w)"
  shows "\<exists>t. handle_msg ops c \<lparr>command = HWIO_CMD_REMOTE_CALL_FAST, body_len = word_of_nat (6 + length args)\<rparr> (k\<lparr>rx_pos := 3\<rparr>) =
      (Inr \<lparr>disconnect = False, tx_size = length (call_resp ret)\<rparr>, c, k\<lparr>rx_pos := 3, tx_buffer := t, world := w\<rparr>) \<and>
    acap t = 2048 \<and> abytes t 0 (length (call_resp ret)) = call_resp ret"
proof -
  let ?h = "\<lparr>command = HWIO_CMD_REMOTE_CALL_FAST, body_len = word_of_nat (6 + length args)\<rparr> :: Hwio_packet_header"
  let ?r = "enc_header \<lparr>command = HWIO_CMD_REMOTE_CALL_RET, body_len = word_of_nat (pl_ret_size p)\<rparr>"
  have at: "rpc_at c (k\<lparr>rx_pos := 3\<rparr>) d (enc32 j)" "abytes (rx_mem c) 9 (length args) = args" "9 + length args \<le> acap (rx_mem c)"
    using rpc_at_pending [OF assms(2) _ assms(4,5), of ?h "enc32 j" args] assms(3) by simp_all
  have "5 \<le> unat (body_len ?h)" using unat_of_nat [of "6 + length args", where 'a = 16] assms(11) by simp
  then have call: "handle_msg ops c ?h (k\<lparr>rx_pos := 3\<rparr>) = call_plugin p d 9 c (k\<lparr>rx_pos := 3\<rparr>)"
    using fast_call_dispatch [OF at(1), of ?h] assms(6,7) by (simp add: handle_msg_def)
  have "9 + pl_args_size p \<le> acap (rx_mem c)" "abytes (rx_mem c) 9 (pl_args_size p) = args" using at(2,3) assms(10) by simp_all
  then show ?thesis using call_plugin_ok(1) [OF assms(1,8,9) _ _ assms(12)] call by simp
qed

text \<open>A call by name: the last byte of the arguments is what the buffer holds behind the message.\<close>

abbreviation named_call_req :: "u16 \<Rightarrow> string \<Rightarrow> byte list \<Rightarrow> byte list" where
  "named_call_req dev n args \<equiv> enc_header \<lparr>command = HWIO_CMD_REMOTE_CALL, body_len = word_of_nat (129 + length args)\<rparr> @
     butlast (enc_RemoteCall dev n @ args)"

lemma handle_named_call_req:
  assumes "server_wf k" "rx_wf c" "pending c = named_call_req dev n args" "curr_ptr (ci_rx c) = 0" "client_get_dev c dev = Some d"
    and "no_nul n" "length n < 128" "map_of (plugins k) n = Some p" "plugin_computes p f" "0 < pl_ret_size p"
    and "length args = pl_args_size p" "args \<noteq> []" "length args \<le> 1915"
  shows "\<exists>x ret w t. f d (butlast args @ [x]) (world k) = (ret, w) \<and> length ret = pl_ret_size p \<and>
    handle_msg ops c \<lparr>command = HWIO_CMD_REMOTE_CALL, body_len = word_of_nat (129 + length args)\<rparr> (k\<lparr>rx_pos := 3\<rparr>) =
      (Inr \<lparr>disconnect = False, tx_size = length (call_resp ret)\<rparr>, c, k\<lparr>rx_pos := 3, tx_buffer := t, world := w\<rparr>) \<and>
    acap t = 2048 \<and> abytes t 0 (length (call_resp ret)) = call_resp ret"
proof -
  let ?h = "\<lparr>command = HWIO_CMD_REMOTE_CALL, body_len = word_of_nat (129 + length args)\<rparr> :: Hwio_packet_header"
  let ?x = "aget (rx_mem c) (132 + length args)"
  have body: "butlast (enc_RemoteCall dev n @ args) = enc16 dev @ strncpy_bytes 128 n @ butlast args"
    using assms(12) by (simp add: enc_RemoteCall_def butlast_append)
  have at: "rpc_at c (k\<lparr>rx_pos := 3\<rparr>) d (strncpy_bytes 128 n)" "abytes (rx_mem c) 133 (length args - 1) = butlast args"
    using rpc_at_pending [OF assms(2) _ assms(4,5), of ?h "strncpy_bytes 128 n" "butlast args"] assms(3) body by simp_all
  have "129 \<le> unat (body_len ?h)" using unat_of_nat [of "129 + length args", where 'a = 16] assms(13) by simp
  then have call: "handle_msg ops c ?h (k\<lparr>rx_pos := 3\<rparr>) = call_plugin p d 133 c (k\<lparr>rx_pos := 3\<rparr>)"
    using named_call_dispatch [OF at(1) assms(6,7), of ?h p] assms(8) by (simp add: handle_msg_def)
  have one: "abytes (rx_mem c) i 1 = [aget (rx_mem c) i]" for i by (simp add: abytes_def)
  have pos: "0 < length args" using assms(12) by simp
  then have args: "abytes (rx_mem c) 133 (pl_args_size p) = butlast args @ [?x]"
    using abytes_split [of "rx_mem c" 133 "length args - 1" 1] one [of "132 + length args"] at(2) assms(11) by simp
  have cap: "133 + pl_args_size p \<le> acap (rx_mem c)" using assms(2,11,13) by (simp add: rx_wf_def)
  obtain ret w where f: "f d (butlast args @ [?x]) (world k) = (ret, w)" by fastforce
  show ?thesis unfolding call using call_plugin_ok [OF assms(1,9,10) args cap f] f by blast
qed

section \<open>The client\<close>

lemma get_rpc_fn_id_ok:
  assumes "client_ready busy n (fn_id_resp k @ rest) c" "133 \<le> n"
  shows "\<exists>c'. get_rpc_fn_id busy dev nm c = Some (Inr (sint k), c') \<and> con_sent c' = con_sent c @ fn_id_req dev nm \<and>
    client_ready busy (n - 133) rest c'"
proof -
  let ?h = "\<lparr>command = HWIO_CMD_GET_REMOTE_CALL_ID, body_len = 130\<rparr> :: Hwio_packet_header"
  let ?r = "\<lparr>command = HWIO_CMD_GET_REMOTE_CALL_ID_RESP, body_len = 5\<rparr> :: Hwio_packet_header"
  have wf: "con_wf c" using assms(1) by (simp add: client_ready_def)
  obtain c1 where c1: "fill_all (fn_id_frame dev nm) c = Inr c1" "con_wf c1" "sockfd c1 = sockfd c" "con_socks c1 = con_socks c"
      "abytes (con_tx c1) 0 133 = enc_header ?h @ enc_RemoteCall dev nm"
    using fn_id_buffer [OF wf] by blast
  have "client_ready busy n (enc_header ?r @ enc_GetRemoteCallIdResp True k @ rest) c1"
    using assms(1) c1(2-4) by (simp add: client_ready_def)
  then obtain c2 where c2: "request busy (command ?r) c1 = Some (Inr (), c2)"
      "abytes (con_rx c2) 0 5 = enc_GetRemoteCallIdResp True k" "con_sent c2 = con_sent c1 @ fn_id_req dev nm"
      "client_ready busy (n - 133) rest c2"
    using request_ready [of busy n ?r "enc_GetRemoteCallIdResp True k" rest c1 "enc_RemoteCall dev nm" ?h] assms(2) c1(5) by auto
  have "aload (con_rx c2) 0 5 = Inr (enc_GetRemoteCallIdResp True k)"
    using c2(2,4) by (simp add: aload_ok client_ready_def con_wf_def)
  then show ?thesis
    using c1 c2 by (simp add: get_rpc_fn_id_def ask_fn_id_def enc_GetRemoteCallIdResp_def)
qed

lemma remote_call_fast_ok:
  assumes "client_ready busy n (call_resp ret @ rest) c" "9 + length args \<le> n" "length args \<le> 2039" "length ret \<le> 2045"
  shows "\<exists>c'. remote_call_fast busy dev k args (length ret) c = Some (Inr ret, c') \<and>
    con_sent c' = con_sent c @ fast_call_req dev k args \<and> client_ready busy (n - (9 + length args)) rest c'"
proof -
  let ?h = "\<lparr>command = HWIO_CMD_REMOTE_CALL_FAST, body_len = word_of_nat (6 + length args)\<rparr> :: Hwio_packet_header"
  let ?r = "\<lparr>command = HWIO_CMD_REMOTE_CALL_RET, body_len = word_of_nat (length ret)\<rparr> :: Hwio_packet_header"
  have len: "unat (body_len ?h) = 6 + length args" "unat (body_len ?r) = length ret"
    using unat_of_nat [of "6 + length args", where 'a = 16] unat_of_nat [of "length ret", where 'a = 16] assms(3,4) by simp_all
  have wf: "con_wf c" using assms(1) by (simp add: client_ready_def)
  obtain c1 where c1: "fill_all (fast_call_frame dev k args) c = Inr c1" "con_wf c1" "sockfd c1 = sockfd c"
      "con_socks c1 = con_socks c" "abytes (con_tx c1) 0 (9 + length args) = enc_header ?h @ enc16 dev @ enc32 k @ args"
    using fast_call_buffer [OF wf assms(3)] by blast
  have "client_ready busy n (enc_header ?r @ ret @ rest) c1"
    using assms(1) c1(2-4) by (simp add: client_ready_def)
  then obtain c2 where c2: "request busy (command ?r) c1 = Some (Inr (), c2)" "abytes (con_rx c2) 0 (length ret) = ret"
      "con_sent c2 = con_sent c1 @ fast_call_req dev k args" "client_ready busy (n - (9 + length args)) rest c2"
    using request_ready [of busy n ?r ret rest c1 "enc16 dev @ enc32 k @ args" ?h] assms(2-4) c1(5) len
    by (auto simp: add.assoc)
  have "aload (con_rx c2) 0 (length ret) = Inr ret"
    using c2(2,4) assms(4) by (simp add: aload_ok client_ready_def con_wf_def)
  then show ?thesis
    using c1 c2 by (simp add: remote_call_fast_def call_ret_def)
qed

lemma remote_call_ok:
  assumes "client_ready busy m (call_resp ret @ rest) c" "132 + length args \<le> m" "length args \<le> 1915" "length ret \<le> 2045"
  shows "\<exists>c'. remote_call busy dev nm args (length ret) c = Some (Inr ret, c') \<and>
    con_sent c' = con_sent c @ named_call_req dev nm args \<and> client_ready busy (m - (132 + length args)) rest c'"
proof -
  let ?h = "\<lparr>command = HWIO_CMD_REMOTE_CALL, body_len = word_of_nat (129 + length args)\<rparr> :: Hwio_packet_header"
  let ?r = "\<lparr>command = HWIO_CMD_REMOTE_CALL_RET, body_len = word_of_nat (length ret)\<rparr> :: Hwio_packet_header"
  let ?body = "butlast (enc_RemoteCall dev nm @ args)"
  have len: "unat (body_len ?h) = 129 + length args" "unat (body_len ?r) = length ret" "length ?body = 129 + length args"
    using unat_of_nat [of "129 + length args", where 'a = 16] unat_of_nat [of "length ret", where 'a = 16] assms(3,4) by simp_all
  have wf: "con_wf c" using assms(1) by (simp add: client_ready_def)
  obtain c1 where c1: "fill_all (named_call_frame dev nm args) c = Inr c1" "con_wf c1" "sockfd c1 = sockfd c"
      "con_socks c1 = con_socks c" "abytes (con_tx c1) 0 (133 + length args) = enc_header ?h @ enc_RemoteCall dev nm @ args"
    using named_call_buffer [OF wf assms(3)] by blast
  have "take (132 + length args) (abytes (con_tx c1) 0 (133 + length args)) = enc_header ?h @ ?body"
    unfolding c1(5) by (simp add: butlast_conv_take)
  then have frame: "abytes (con_tx c1) 0 (3 + length ?body) = enc_header ?h @ ?body"
    using len(3) by (simp add: take_abytes)
  have "client_ready busy m (enc_header ?r @ ret @ rest) c1"
    using assms(1) c1(2-4) by (simp add: client_ready_def)
  then obtain c2 where c2: "request busy (command ?r) c1 = Some (Inr (), c2)" "abytes (con_rx c2) 0 (length ret) = ret"
      "con_sent c2 = con_sent c1 @ named_call_req dev nm args" "client_ready busy (m - (132 + length args)) rest c2"
    using request_ready [OF _ frame, of busy m ?r ret rest] assms(2-4) len by (auto simp: add.assoc)
  have "aload (con_rx c2) 0 (length ret) = Inr ret"
    using c2(2,4) assms(4) by (simp add: aload_ok client_ready_def con_wf_def)
  then show ?thesis
    using c1 c2 by (simp add: remote_call_def call_ret_def)
qed

section \<open>Both together\<close>

lemma server_call_rounds:
  assumes "quiet_conn s a c" "client_get_dev c dev = Some d" "no_nul n" "length n < 128"
    and "find_fn n (plugins_fast_names (core s)) 0 = Some j" "unat j < length (plugins_fast (core s))"
    and "plugin_computes (plugins_fast (core s) ! unat j) f" "0 < pl_ret_size (plugins_fast (core s) ! unat j)"
    and "length args = pl_args_size (plugins_fast (core s) ! unat j)" "length args \<le> 2039" "f d args (world (core s)) = (ret, w)"
    and "chunks_of (fn_id_req dev n) chs1" "chunks_of (fast_call_req dev j args) chs2"
    and "rx_events (socks s) (ci_fd c) = concat (map chunk_events (chs1 @ chs2))"
    and "11 + length ret \<le> send_room (tx_events (socks s) (ci_fd c))" "length ret \<le> 2045"
  shows "\<exists>s'. serve_rounds ops (ci_fd c) (length (chs1 @ chs2)) s = Some (Inr (), s') \<and> world (core s') = w \<and>
    tx_data (socks s') (ci_fd c) = tx_data (socks s) (ci_fd c) @ fn_id_resp j @ call_resp ret"
proof -
  let ?k = "core s" and ?es = "concat (map chunk_events chs2)"
  let ?h2 = "\<lparr>command = HWIO_CMD_REMOTE_CALL_FAST, body_len = word_of_nat (6 + length args)\<rparr> :: Hwio_packet_header"
  have wf: "server_wf ?k" using assms(1) by (simp add: quiet_conn_def)
  have tab: "client_get_dev c' dev = Some d" if "ci_devices c' = ci_devices c" for c'
    using assms(2) unfolding client_get_dev_def that .
  have "\<exists>c1 s1. serve_rounds ops (ci_fd c) (length chs1) s = Some (Inr (), s1) \<and>
      answered_with (ci_devices c) (fn_id_resp j) (world ?k) ?es a c s c1 s1"
  proof (rule serve_chunks_fixed [OF assms(1,12)])
    show "length (fn_id_resp j) \<le> send_room (tx_events (socks s) (ci_fd c))" using assms(15) by simp
  qed (use handle_fn_id_req [OF wf _ _ _ tab assms(3,4,5)] assms(14) in simp_all)
  then obtain c1 s1 where s1: "serve_rounds ops (ci_fd c) (length chs1) s = Some (Inr (), s1)"
      "answered_with (ci_devices c) (fn_id_resp j) (world ?k) ?es a c s c1 s1" by blast
  obtain p t where core: "core s1 = ?k\<lparr>rx_pos := p, tx_buffer := t, world := world ?k\<rparr>"
    using s1(2) by (auto simp: answered_with_def)
  have q1: "quiet_conn s1 a c1" "server_wf (core s1)" "ci_fd c1 = ci_fd c" "ci_devices c1 = ci_devices c"
      "rx_events (socks s1) (ci_fd c) = ?es" "tx_data (socks s1) (ci_fd c) = tx_data (socks s) (ci_fd c) @ fn_id_resp j"
      "send_room (tx_events (socks s) (ci_fd c)) = 8 + send_room (tx_events (socks s1) (ci_fd c))"
    using s1(2) by (auto simp: answered_with_def quiet_conn_def)
  have len: "length (enc16 dev @ enc32 j @ args) = unat (body_len ?h2)"
    using unat_of_nat [of "6 + length args", where 'a = 16] assms(10) by simp
  have "\<exists>c2 s2. serve_rounds ops (ci_fd c1) (length chs2) s1 = Some (Inr (), s2) \<and>
      answered_with (ci_devices c1) (call_resp ret) w [] a c1 s1 c2 s2"
  proof (rule serve_chunks_fixed [OF q1(1) assms(13) len])
    fix c' :: "'b ClientInfo"
    assume c': "rx_wf c'" "pending c' = fast_call_req dev j args" "curr_ptr (ci_rx c') = 0" "ci_devices c' = ci_devices c1"
    have "client_get_dev c' dev = Some d" using tab c'(4) q1(4) by simp
    from handle_fast_call_req [OF q1(2) c'(1-3) this _ refl, of f ret w ops]
    show "\<exists>t. handle_msg ops c' ?h2 ((core s1)\<lparr>rx_pos := 3\<rparr>) =
        (Inr \<lparr>disconnect = False, tx_size = length (call_resp ret)\<rparr>, c', (core s1)\<lparr>rx_pos := 3, tx_buffer := t, world := w\<rparr>) \<and>
      acap t = 2048 \<and> abytes t 0 (length (call_resp ret)) = call_resp ret"
      using core assms(6-11) by simp
  qed (use q1(3,5,7) assms(10,15,16) in simp_all)
  then obtain c2 s2 where s2: "serve_rounds ops (ci_fd c1) (length chs2) s1 = Some (Inr (), s2)"
      "answered_with (ci_devices c1) (call_resp ret) w [] a c1 s1 c2 s2" by blast
  show ?thesis
    using serve_rounds_add [OF s1(1), of "length chs2"] s2 q1(3,6) by (auto simp: answered_with_def)
qed

lemma client_call_round:
  assumes "client_ready busy m (fn_id_resp j @ call_resp ret) con" "142 + length args \<le> m"
    and "length args \<le> 2039" "length ret \<le> 2045"
  shows "\<exists>con1 con2. get_rpc_fn_id busy dev n con = Some (Inr (sint j), con1) \<and>
    remote_call_fast busy dev j args (length ret) con1 = Some (Inr ret, con2) \<and>
    con_sent con2 = con_sent con @ fn_id_req dev n @ fast_call_req dev j args"
proof -
  obtain con1 where con1: "get_rpc_fn_id busy dev n con = Some (Inr (sint j), con1)"
      "con_sent con1 = con_sent con @ fn_id_req dev n" "client_ready busy (m - 133) (call_resp ret) con1"
    using get_rpc_fn_id_ok [OF assms(1), of dev n] assms(2) by auto
  have "9 + length args \<le> m - 133" using assms(2) by simp
  then obtain con2 where "remote_call_fast busy dev j args (length ret) con1 = Some (Inr ret, con2)"
      "con_sent con2 = con_sent con1 @ fast_call_req dev j args"
    using remote_call_fast_ok [of busy "m - 133" ret "[]" con1 args dev j] con1(3) assms(2-4) by auto
  with con1 show ?thesis by simp
qed

text \<open>
  C4: a client that asks a remote device for the id of a plugin function by its name and calls the
  function by this id gets the result of the function installed first under that name, computed by
  the server on the device the client named, with the arguments the client gave and the world the
  server had; the world is the one the function leaves. Both connections may cut the messages
  anywhere.
\<close>

theorem remote_plugin_call:
  assumes "quiet_conn s a c" "client_get_dev c dev = Some d" "core s = install_all ps k" "no_plugins k"
    and "length ps < 2 ^ 31" "n \<in> set (map fst ps)" "no_nul n" "length n < MAX_NAME_LEN" "p = the (map_of ps n)"
    and "i = length (takeWhile (\<lambda>m. m \<noteq> n) (map fst ps))"
    and "plugin_computes p f" "0 < pl_ret_size p" "length args = pl_args_size p" "length args \<le> 2039"
    and "f d args (world (core s)) = (ret, w)" "length ret = pl_ret_size p"
    and "chunks_of (fn_id_req dev n) chs1" "chunks_of (fast_call_req dev (word_of_nat i) args) chs2"
    and "rx_events (socks s) (ci_fd c) = concat (map chunk_events (chs1 @ chs2))"
    and "11 + length ret \<le> send_room (tx_events (socks s) (ci_fd c))"
  shows "\<exists>s' out. serve_rounds ops (ci_fd c) (length (chs1 @ chs2)) s = Some (Inr (), s') \<and> world (core s') = w \<and>
    tx_data (socks s') (ci_fd c) = tx_data (socks s) (ci_fd c) @ out \<and>
    (client_ready busy (142 + length args) out con \<longrightarrow>
      (\<exists>con1 con2. get_rpc_fn_id busy dev n con = Some (Inr (int i), con1) \<and>
        remote_call_fast busy dev (word_of_nat i) args (pl_ret_size p) con1 = Some (Inr ret, con2) \<and>
        con_sent con2 = con_sent con @ concat (map snd (chs1 @ chs2))))"
proof -
  let ?j = "word_of_nat i :: u32"
  have tabs: "plugins_fast (core s) = map snd ps" "plugins_fast_names (core s) = map fst ps"
    using assms(3,4) by (simp_all add: no_plugins_def install_all_tables)
  have i: "i < length ps" using takeWhile_hit(1) [OF assms(6)] assms(10) by simp
  then have j: "unat ?j = i" "sint ?j = int i"
    using assms(5) by (simp_all add: unat_of_nat signed_of_nat signed_take_bit_int_eq_self)
  have p: "plugins_fast (core s) ! i = p" using i assms(6,9,10) by (simp add: tabs map_of_first)
  have name: "find_fn n (plugins_fast_names (core s)) 0 = Some ?j"
    using assms(6,10) by (simp add: find_fn_first tabs)
  have ret: "length ret \<le> 2045" using assms(11,16) by (simp add: plugin_computes_def)
  have fn: "unat ?j < length (plugins_fast (core s))" "plugins_fast (core s) ! unat ?j = p" using i j(1) p by (simp_all add: tabs)
  have "\<exists>s'. serve_rounds ops (ci_fd c) (length (chs1 @ chs2)) s = Some (Inr (), s') \<and> world (core s') = w \<and>
      tx_data (socks s') (ci_fd c) = tx_data (socks s) (ci_fd c) @ fn_id_resp ?j @ call_resp ret"
    by (rule server_call_rounds [where f = f and a = a and dev = dev and d = d and n = n], unfold fn(2))
      (fact assms name fn(1) ret assms(8) [unfolded MAX_NAME_LEN_def])+
  then obtain s' where s': "serve_rounds ops (ci_fd c) (length (chs1 @ chs2)) s = Some (Inr (), s')" "world (core s') = w"
      "tx_data (socks s') (ci_fd c) = tx_data (socks s) (ci_fd c) @ fn_id_resp ?j @ call_resp ret" by blast
  have "fn_id_req dev n @ fast_call_req dev ?j args = concat (map snd (chs1 @ chs2))"
    using assms(17,18) by (simp add: chunks_of_def)
  then show ?thesis
    using s' client_call_round [of busy "142 + length args" ?j ret con args dev n] assms(14,16) ret j(2)
    by (intro exI [of _ s'] exI [of _ "fn_id_resp ?j @ call_resp ret"]) simp
qed

text \<open>
  C5: a plugin function called by its name through a remote device, with at least one byte of
  arguments, is run by the server, but on arguments whose last byte is not the caller's: the client
  leaves it out of the message, and the server reads whatever its buffer holds there. The caller
  gets the result for these arguments, and the world is what the function makes of them.
\<close>

theorem remote_call_by_name:
  assumes "quiet_conn s a c" "client_get_dev c dev = Some d" "map_of (plugins (core s)) n = Some p" "no_nul n" "length n < MAX_NAME_LEN"
    and "plugin_computes p f" "0 < pl_ret_size p" "length args = pl_args_size p" "args \<noteq> []" "length args \<le> 1915"
    and "chunks_of (named_call_req dev n args) chs" "rx_events (socks s) (ci_fd c) = concat (map chunk_events chs)"
    and "3 + pl_ret_size p \<le> send_room (tx_events (socks s) (ci_fd c))"
  shows "\<exists>s' x ret. serve_rounds ops (ci_fd c) (length chs) s = Some (Inr (), s') \<and>
    f d (butlast args @ [x]) (world (core s)) = (ret, world (core s')) \<and>
    (client_ready busy (132 + length args) (drop (length (tx_data (socks s) (ci_fd c))) (tx_data (socks s') (ci_fd c))) con \<longrightarrow>
      (\<exists>con'. remote_call busy dev n args (pl_ret_size p) con = Some (Inr ret, con') \<and>
        con_sent con' = con_sent con @ concat (map snd chs)))"
proof -
  let ?h = "\<lparr>command = HWIO_CMD_REMOTE_CALL, body_len = word_of_nat (129 + length args)\<rparr> :: Hwio_packet_header"
  let ?Q = "\<lambda>ds out w. \<exists>x ret. f d (butlast args @ [x]) (world (core s)) = (ret, w) \<and> out = call_resp ret \<and> length ret = pl_ret_size p"
  have wf: "server_wf (core s)" using assms(1) by (simp add: quiet_conn_def)
  have size: "pl_ret_size p \<le> 2045" using assms(6) by (simp add: plugin_computes_def)
  have len: "length (butlast (enc_RemoteCall dev n @ args)) = unat (body_len ?h)"
    using unat_of_nat [of "129 + length args", where 'a = 16] assms(10) by simp
  have "\<exists>c' s' ds out w. serve_rounds ops (ci_fd c) (length chs) s = Some (Inr (), s') \<and>
      answered_with ds out w [] a c s c' s' \<and> ?Q ds out w"
  proof (rule serve_chunks [OF assms(1,11) len])
    fix c' :: "'b ClientInfo"
    assume c': "rx_wf c'" "pending c' = named_call_req dev n args" "curr_ptr (ci_rx c') = 0" "ci_devices c' = ci_devices c"
    have dev: "client_get_dev c' dev = Some d" using assms(2) unfolding client_get_dev_def c'(4) .
    obtain x ret w t where m: "f d (butlast args @ [x]) (world (core s)) = (ret, w)" "length ret = pl_ret_size p"
        "handle_msg ops c' ?h ((core s)\<lparr>rx_pos := 3\<rparr>) = (Inr \<lparr>disconnect = False, tx_size = length (call_resp ret)\<rparr>, c',
          (core s)\<lparr>rx_pos := 3, tx_buffer := t, world := w\<rparr>)" "acap t = 2048" "abytes t 0 (length (call_resp ret)) = call_resp ret"
      using handle_named_call_req [OF wf c'(1-3) dev assms(4) _ assms(3,6-10), of ops] assms(5) by auto
    have "length (call_resp ret) \<le> 2048 \<and> length (call_resp ret) \<le> send_room (tx_events (socks s) (ci_fd c))"
      using m(2) size assms(13) by simp
    with m show "answers ops ?h ?Q (core s) (send_room (tx_events (socks s) (ci_fd c))) c'"
      unfolding answers_def by blast
  qed (use assms(10,12) in simp_all)
  then obtain c' s' ds w x ret where s': "serve_rounds ops (ci_fd c) (length chs) s = Some (Inr (), s')"
      "answered_with ds (call_resp ret) w [] a c s c' s'" "f d (butlast args @ [x]) (world (core s)) = (ret, w)"
      "length ret = pl_ret_size p" by blast
  have out: "world (core s') = w" "drop (length (tx_data (socks s) (ci_fd c))) (tx_data (socks s') (ci_fd c)) = call_resp ret"
    using s'(2) by (auto simp: answered_with_def)
  have "\<exists>con'. remote_call busy dev n args (pl_ret_size p) con = Some (Inr ret, con') \<and>
      con_sent con' = con_sent con @ concat (map snd chs)" if "client_ready busy (132 + length args) (call_resp ret) con"
    using remote_call_ok [of busy "132 + length args" ret "[]" con args dev n] that s'(4) size assms(10,11)
    by (auto simp: chunks_of_def)
  with s'(1,3) out show ?thesis by (intro exI [of _ s'] exI [of _ x] exI [of _ ret]) simp
qed

text \<open>A function that adds two bytes, installed behind another one; the call arrives in two pieces.\<close>

definition demo_sum :: "(mmap_world, nat) plugin_info" where
  "demo_sum = \<lparr>pl_fn = (\<lambda>dev args i ret j w. case aload args i 2 of Inl e \<Rightarrow> (Inl e, ret, w)
       | Inr bs \<Rightarrow> (case astore ret j [bs ! 0 + bs ! 1] of Inl e \<Rightarrow> (Inl e, ret, w) | Inr ret' \<Rightarrow> (Inr (), ret', w))),
     pl_what = (\<lambda>_. []), pl_args_size = 2, pl_ret_size = 1\<rparr>"

definition demo_rpc_chunks :: "chunk list" where
  "demo_rpc_chunks = [([], take 7 (fast_call_req 0 1 [40, 2])), ([Recv_intr], drop 7 (fast_call_req 0 1 [40, 2]))]"

definition demo_rpc_conn :: "(mmap_world, nat) Server" where
  "demo_rpc_conn = (demo_conn (demo_client [])
      (concat (map chunk_events (([], fn_id_req 0 ''sum'') # demo_rpc_chunks))))
    \<lparr>core := install_all [(''id'', demo_plugin 1), (''sum'', demo_sum)] demo_server\<rparr>"

lemma demo_sum_computes: "plugin_computes demo_sum (\<lambda>d bs w. ([bs ! 0 + bs ! 1], w))"
  unfolding plugin_computes_def
proof (intro conjI allI impI)
  fix d i and rx tx :: carray and w :: mmap_world
  assume cap: "i + pl_args_size demo_sum \<le> acap rx" "acap tx = 2048"
  let ?r = "[abytes rx i 2 ! 0 + abytes rx i 2 ! 1]"
  obtain t where t: "astore tx 3 ?r = Inr t" "acap t = 2048" using cap(2) by (simp add: astore_def)
  then show "\<exists>tx'. pl_fn demo_sum d rx i tx 3 w = (Inr (), tx', snd (([abytes rx i (pl_args_size demo_sum) ! 0 +
        abytes rx i (pl_args_size demo_sum) ! 1], w))) \<and> acap tx' = 2048 \<and> abytes tx' 0 3 = abytes tx 0 3 \<and>
      abytes tx' 3 (pl_ret_size demo_sum) = fst (([abytes rx i (pl_args_size demo_sum) ! 0 +
        abytes rx i (pl_args_size demo_sum) ! 1], w))"
    using cap abytes_astore_same [OF t(1)] abytes_astore_other [OF t(1), of 0 3]
    by (intro exI [of _ t]) (simp add: demo_sum_def aload_ok)
qed (simp add: demo_sum_def)

theorem remote_plugin_call_witness:
  "\<exists>s' out con1 con2. serve_rounds mmap_ops 5 3 demo_rpc_conn = Some (Inr (), s') \<and> tx_data (socks s') 5 = out \<and>
    get_rpc_fn_id True 0 ''sum'' (demo_con [Recv_again, Recv_data out]) = Some (Inr 1, con1) \<and>
    remote_call_fast True 0 1 [40, 2] 1 con1 = Some (Inr [42], con2)"
proof -
  let ?ps = "[(''id'', demo_plugin 1), (''sum'', demo_sum)]" and ?c = "demo_client []" and ?s = demo_rpc_conn
  let ?f = "\<lambda>d bs w. ([bs ! 0 + bs ! 1], w)" and ?chs1 = "[([], fn_id_req 0 ''sum'')] :: chunk list"
  have c: "ci_fd ?c = 5" "rx_wf ?c" "pending ?c = []" "client_get_dev ?c 0 = Some 0"
    by (simp_all add: demo_client_at_def rx_wf_def pending_def abytes_def client_get_dev_def)
  have s: "core ?s = install_all ?ps demo_server" "fd_to_client ?s = [(5, 0)]" "client_heap ?s 0 = Some ?c"
      "rx_events (socks ?s) 5 = concat (map chunk_events (?chs1 @ demo_rpc_chunks))" "tx_data (socks ?s) 5 = []"
      "send_room (tx_events (socks ?s) 5) = 100000"
    by (simp_all add: demo_rpc_conn_def demo_conn_def)
  have np: "no_plugins demo_server" by (simp add: no_plugins_def demo_server_def)
  have quiet: "quiet_conn ?s 0 ?c" using c s(1-3) demo_server_wf by (simp add: quiet_conn_def)
  have len: "length (fast_call_req 0 1 [40, 2]) = 11" by simp
  have chs: "chunks_of (fn_id_req 0 ''sum'') ?chs1" "chunks_of (fast_call_req 0 (word_of_nat 1) [40, 2]) demo_rpc_chunks"
    using len by (simp_all add: chunks_of_def demo_rpc_chunks_def is_retry_def enc_header_def)
  have "\<exists>s' out. serve_rounds mmap_ops (ci_fd ?c) (length (?chs1 @ demo_rpc_chunks)) ?s = Some (Inr (), s') \<and>
      world (core s') = world (core ?s) \<and> tx_data (socks s') (ci_fd ?c) = tx_data (socks ?s) (ci_fd ?c) @ out \<and>
      (client_ready True (142 + length [40, 2 :: byte]) out con \<longrightarrow>
        (\<exists>con1 con2. get_rpc_fn_id True 0 ''sum'' con = Some (Inr (int 1), con1) \<and>
          remote_call_fast True 0 (word_of_nat 1) [40, 2] (pl_ret_size demo_sum) con1 = Some (Inr [42], con2) \<and>
          con_sent con2 = con_sent con @ concat (map snd (?chs1 @ demo_rpc_chunks))))" for con
    by (rule remote_plugin_call [OF quiet c(4) s(1) np _ _ _ _ _ _ demo_sum_computes _ _ _ _ _ chs])
      (simp_all add: c(1) s demo_sum_def no_nul_def)
  note call = this [unfolded c(1) s(5) append_Nil]
  obtain s' out where s': "serve_rounds mmap_ops 5 (length (?chs1 @ demo_rpc_chunks)) ?s = Some (Inr (), s')" "tx_data (socks s') 5 = out"
    using call by blast
  have "client_ready True (142 + length [40, 2 :: byte]) out (demo_con [Recv_again, Recv_data out])"
    by (simp add: client_ready_def con_wf_def demo_con_def)
  then show ?thesis
    using call [of "demo_con [Recv_again, Recv_data out]"] s' by (auto simp: demo_rpc_chunks_def numeral_3_eq_3 demo_sum_def)
qed

text \<open>The same function called by name: the second summand is lost.\<close>

definition demo_named_chunks :: "chunk list" where
  "demo_named_chunks = [([Recv_again], take 50 (named_call_req 0 ''sum'' [40, 2])), ([], drop 50 (named_call_req 0 ''sum'' [40, 2]))]"

definition demo_named_conn :: "(mmap_world, nat) Server" where
  "demo_named_conn = (demo_conn (demo_client []) (concat (map chunk_events demo_named_chunks)))
    \<lparr>core := install_all [(''sum'', demo_sum)] demo_server\<rparr>"

theorem remote_call_by_name_witness:
  "\<exists>s' x con'. serve_rounds mmap_ops 5 2 demo_named_conn = Some (Inr (), s') \<and>
    remote_call True 0 ''sum'' [40, 2] 1 (demo_con [Recv_again, Recv_data (tx_data (socks s') 5)]) = Some (Inr [40 + x], con')"
proof -
  let ?c = "demo_client []" and ?s = demo_named_conn and ?f = "\<lambda>d bs w. ([bs ! 0 + bs ! 1], w)"
  have c: "ci_fd ?c = 5" "rx_wf ?c" "pending ?c = []" "client_get_dev ?c 0 = Some 0"
    by (simp_all add: demo_client_at_def rx_wf_def pending_def abytes_def client_get_dev_def)
  have s: "core ?s = install_all [(''sum'', demo_sum)] demo_server" "fd_to_client ?s = [(5, 0)]" "client_heap ?s 0 = Some ?c"
      "rx_events (socks ?s) 5 = concat (map chunk_events demo_named_chunks)" "tx_data (socks ?s) 5 = []"
      "send_room (tx_events (socks ?s) 5) = 100000"
    by (simp_all add: demo_named_conn_def demo_conn_def)
  have "no_plugins demo_server" by (simp add: no_plugins_def demo_server_def)
  then have p: "map_of (plugins (core ?s)) ''sum'' = Some demo_sum" by (simp add: s(1) install_all_tables no_plugins_def)
  have quiet: "quiet_conn ?s 0 ?c" using c s(1-3) demo_server_wf by (simp add: quiet_conn_def)
  have "length (named_call_req 0 ''sum'' [40, 2]) = 134" by simp
  then have "drop 50 (named_call_req 0 ''sum'' [40, 2]) \<noteq> []" "take 50 (named_call_req 0 ''sum'' [40, 2]) \<noteq> []"
    unfolding length_greater_0_conv [symmetric] length_drop length_take by simp_all
  then have chs: "chunks_of (named_call_req 0 ''sum'' [40, 2]) demo_named_chunks"
    by (simp add: chunks_of_def demo_named_chunks_def is_retry_def)
  have call: "\<exists>s' x ret. serve_rounds mmap_ops (ci_fd ?c) (length demo_named_chunks) ?s = Some (Inr (), s') \<and>
      ?f (0 :: nat) (butlast [40, 2] @ [x]) (world (core ?s)) = (ret, world (core s')) \<and>
      (client_ready True (132 + length [40, 2 :: byte]) (drop (length (tx_data (socks ?s) (ci_fd ?c))) (tx_data (socks s') (ci_fd ?c))) con \<longrightarrow>
        (\<exists>con'. remote_call True 0 ''sum'' [40, 2] (pl_ret_size demo_sum) con = Some (Inr ret, con') \<and>
          con_sent con' = con_sent con @ concat (map snd demo_named_chunks)))" for con
    by (rule remote_call_by_name [OF quiet c(4) p _ _ demo_sum_computes _ _ _ _ chs])
      (simp_all add: c(1) s demo_sum_def no_nul_def)
  obtain s0 where s0: "serve_rounds mmap_ops 5 2 ?s = Some (Inr (), s0)"
    using call by (auto simp: c(1) demo_named_chunks_def numeral_2_eq_2)
  let ?con = "demo_con [Recv_again, Recv_data (tx_data (socks s0) 5)]"
  have "client_ready True 134 (tx_data (socks s0) 5) ?con" by (simp add: client_ready_def con_wf_def demo_con_def)
  then show ?thesis
    using call [of ?con] s0 by (auto simp: c(1) s(5) demo_named_chunks_def numeral_2_eq_2 demo_sum_def)
qed

end
