(* ===== verification/Hwio_Bus_Json.thy ===== *)
theory Hwio_Bus_Json
  imports Hwio_Bus Hwio_Device_Mmap
begin

text \<open>
  The bus of the devices described in a JSON file (\<open>src/src/bus/hwio_bus_json.h\<close>,
  \<open>src/src/bus/hwio_bus_json.cpp\<close>). The code reads the file with Boost's property tree: a node has
  a text and a list of named children, and the elements of an array have empty names. The parser is
  a parameter; the accessors the code uses are the functions below.
\<close>

section \<open>Property trees\<close>

datatype ptree = PTree (pt_data: string) (pt_children: "(string \<times> ptree) list")

text \<open>\<open>get_child(key)\<close> throws for a missing key; the first of several children is taken.\<close>

definition pt_get_child :: "ptree \<Rightarrow> string \<Rightarrow> ptree res" where
  "pt_get_child t key = (case map_of (pt_children t) key of None \<Rightarrow> Inl (Throw Ptree_error) | Some c \<Rightarrow> Inr c)"

text \<open>\<open>get<std::string>(key)\<close> and \<open>get<std::string>(key, default)\<close>.\<close>

definition pt_get :: "ptree \<Rightarrow> string \<Rightarrow> string res" where
  "pt_get t key = bind_res (pt_get_child t key) (\<lambda>c. Inr (pt_data c))"

definition pt_get_default :: "ptree \<Rightarrow> string \<Rightarrow> string \<Rightarrow> string" where
  "pt_get_default t key d = (case map_of (pt_children t) key of None \<Rightarrow> d | Some c \<Rightarrow> pt_data c)"

text \<open>Whether a file can be read, and what \<open>read_json\<close> makes of it.\<close>

record json_files =
  file_access :: "string \<Rightarrow> bool"
  read_json :: "string \<Rightarrow> ptree res"

section \<open>One device\<close>

fun json_specs :: "string \<Rightarrow> (string \<times> ptree) list \<Rightarrow> hwio_comp_spec list \<Rightarrow> hwio_comp_spec list res" where
  "json_specs name [] specs = Inr specs"
| "json_specs name ((first, second) # items) specs =
     (if first \<noteq> [] then Inl Assert_failed
      else bind_res (hwio_comp_spec_parse (cstr (pt_data second))) (\<lambda>spec.
             json_specs name items (specs @ [name_set name spec])))"

text \<open>\<open>_size\<close> is read from the attribute \<open>base\<close> and \<open>_base\<close> from \<open>size\<close>; both are cut to 32 bits.\<close>

definition parse_device :: "u32 \<Rightarrow> ptree \<Rightarrow> u32 \<Rightarrow> string \<Rightarrow> hwio_device_mmap res" where
  "parse_device page_size src offset mem_file_path =
     (let name = pt_get_default src ''name'' [];
          base = pt_get_default src ''base'' [];
          size_attr = pt_get_default src ''size'' []
      in if base = [] \<or> size_attr = [] then Inl (Throw Wrong_format)
         else bind_res (pt_get_child src ''compatible'') (\<lambda>compatible.
              bind_res (json_specs name (pt_children compatible) []) (\<lambda>specs.
              bind_res (stoul16 base) (\<lambda>dev_size.
              bind_res (stoul16 size_attr) (\<lambda>dev_base.
                Inr (hwio_device_mmap_ctor page_size specs (offset + ucast dev_base) (ucast dev_size) mem_file_path))))))"

section \<open>The bus\<close>

text \<open>Each device is allocated when it has been parsed; an exception leaves the devices before it.\<close>

fun load_loop :: "u32 \<Rightarrow> u32 \<Rightarrow> string \<Rightarrow> (string \<times> ptree) list \<Rightarrow> made \<Rightarrow> unit res \<times> made" where
  "load_loop page_size offset mem_file [] m = (Inr (), m)"
| "load_loop page_size offset mem_file (d # ds) m =
     (case parse_device page_size (snd d) offset mem_file of
        Inl e \<Rightarrow> (Inl e, m)
      | Inr dev \<Rightarrow> load_loop page_size offset mem_file ds (make_all [dev] m))"

definition load_devices :: "u32 \<Rightarrow> ptree \<Rightarrow> made \<Rightarrow> unit res \<times> made" where
  "load_devices page_size root m =
     (let mem_file = pt_get_default root ''memfile'' DEFAULT_MEM_PATH;
          offset_str = pt_get_default root ''offset'' ''0''
      in case stoul16 (cstr offset_str) of
           Inl e \<Rightarrow> (Inl e, m)
         | Inr offset \<Rightarrow>
             (case pt_get_child root ''devices'' of
                Inl e \<Rightarrow> (Inl e, m)
              | Inr devices \<Rightarrow> load_loop page_size (ucast offset) mem_file (pt_children devices) m))"

text \<open>The constructors from a tree and from a file: the devices of the bus, and the world.\<close>

definition hwio_bus_json_ctor :: "u32 \<Rightarrow> ptree \<Rightarrow> mmap_world \<Rightarrow> nat \<Rightarrow> unit res \<times> made" where
  "hwio_bus_json_ctor page_size doc w next = load_devices page_size doc ([], w, next)"

definition hwio_bus_json_file :: "u32 \<Rightarrow> json_files \<Rightarrow> string \<Rightarrow> mmap_world \<Rightarrow> nat \<Rightarrow> unit res \<times> made" where
  "hwio_bus_json_file page_size files file_name w next =
     (if \<not> file_access files file_name then (Inl (Throw Runtime_error), ([], w, next))
      else case read_json files file_name of
        Inl e \<Rightarrow> (Inl e, ([], w, next))
      | Inr doc \<Rightarrow> load_devices page_size doc ([], w, next))"

definition json_find_devices :: "nat list \<Rightarrow> (mmap_world, nat) bus" where
  "json_find_devices all_devices spec w = (Inr (filter_device_by_spec mmap_ops w all_devices spec), w)"

fun hwio_bus_json_delete :: "nat list \<Rightarrow> mmap_world \<Rightarrow> mmap_world" where
  "hwio_bus_json_delete [] w = w"
| "hwio_bus_json_delete (dev # devs) w = hwio_bus_json_delete devs (mmap_delete dev w)"

section \<open>What a file describes\<close>

lemma make_all_Cons: "make_all (dv # dvs) m = make_all dvs (make_all [dv] m)"
  using make_all_append [of "[dv]" dvs m] by simp

lemma load_loop_good:
  "list_all2 (\<lambda>d dev. parse_device pg (snd d) offset mem = Inr dev) good devs \<Longrightarrow>
   load_loop pg offset mem (good @ bad) m = load_loop pg offset mem bad (make_all devs m)"
proof (induction arbitrary: m rule: list_all2_induct)
  case (Cons d ds dev devs)
  then show ?case by (simp add: make_all_Cons [of dev devs] del: make_all.simps)
qed simp

text \<open>
  C25: loading stops at the first device that does not parse and reports its error, with the devices
  before it left allocated; without one, every device of the list is made, in order.
\<close>

theorem json_load_devices:
  assumes "stoul16 (cstr (pt_get_default root ''offset'' ''0'')) = Inr offset"
    and "map_of (pt_children root) ''devices'' = Some devices" "pt_children devices = good @ bad"
    and "list_all2 (\<lambda>d dev. parse_device pg (snd d) (ucast offset) (pt_get_default root ''memfile'' ''/dev/mem'') = Inr dev) good devs"
  shows "(bad = [] \<longrightarrow> hwio_bus_json_ctor pg root w nx = (Inr (), make_all devs ([], w, nx))) \<and>
    (\<forall>d rest e. bad = d # rest \<and> parse_device pg (snd d) (ucast offset) (pt_get_default root ''memfile'' ''/dev/mem'') = Inl e \<longrightarrow>
      hwio_bus_json_ctor pg root w nx = (Inl e, make_all devs ([], w, nx)))"
proof -
  let ?mem = "pt_get_default root ''memfile'' ''/dev/mem''"
  have "hwio_bus_json_ctor pg root w nx = load_loop pg (ucast offset) ?mem (good @ bad) ([], w, nx)"
    using assms(1-3) by (simp add: hwio_bus_json_ctor_def load_devices_def pt_get_child_def DEFAULT_MEM_PATH_def)
  then show ?thesis using load_loop_good [OF assms(4), of bad "([], w, nx)"] by auto
qed

text \<open>A description of a device as the code expects it.\<close>

definition device_node :: "string \<Rightarrow> string \<Rightarrow> string \<Rightarrow> string list \<Rightarrow> ptree" where
  "device_node name base sz compatible =
     PTree [] [(''name'', PTree name []), (''base'', PTree base []), (''size'', PTree sz []),
               (''compatible'', PTree [] (map (\<lambda>c. ([], PTree c [])) compatible))]"

lemma json_specs_ok:
  "list_all2 (\<lambda>c s. hwio_comp_spec_parse (cstr c) = Inr s) css ss \<Longrightarrow>
   json_specs name (map (\<lambda>c. ([], PTree c [])) css) specs = Inr (specs @ map (name_set name) ss)"
  by (induction css ss arbitrary: specs rule: list_all2_induct) simp_all

definition demo_node :: ptree where
  "demo_node = device_node ''serial'' ''0x100'' ''44A00000'' [''uart'']"

definition demo_doc :: ptree where
  "demo_doc = PTree [] [(''offset'', PTree ''0x10'' []), (''memfile'', PTree ''mem0'' []),
     (''devices'', PTree [] [([], demo_node), ([], PTree [] [])])]"

lemma demo_numbers:
  "stoul16 ''0x10'' = Inr 0x10" "stoul16 ''0x100'' = Inr 0x100" "stoul16 ''44A00000'' = Inr 0x44A00000"
  by (simp_all add: stoul16_def hex_val_def hex_digit_def char_class_defs Let_def)

lemma demo_uart_spec: "hwio_comp_spec_parse ''uart'' = Inr (hwio_comp_spec_default\<lparr>spec_type := ''uart''\<rparr>)"
  by (simp add: hwio_comp_spec_parse_def)

lemma demo_cstr: "cstr ''0x10'' = ''0x10''" "cstr ''uart'' = ''uart''"
  by (simp_all add: cstr_def)

definition demo_json_dev :: hwio_device_mmap where
  "demo_json_dev = hwio_device_mmap_ctor 4096 [name_set ''serial'' (hwio_comp_spec_default\<lparr>spec_type := ''uart''\<rparr>)]
     0x44A00010 0x100 ''mem0''"

lemma demo_node_parse: "parse_device 4096 demo_node 0x10 ''mem0'' = Inr demo_json_dev"
  by (simp add: parse_device_def demo_node_def device_node_def pt_get_default_def pt_get_child_def demo_numbers
      demo_uart_spec demo_cstr demo_json_dev_def Let_def)

theorem json_load_devices_witness:
  "hwio_bus_json_ctor 4096 demo_doc (demo_world demo_dev True) 1 =
     (Inl (Throw Wrong_format), make_all [demo_json_dev] ([], demo_world demo_dev True, 1))"
proof -
  have mem: "pt_get_default demo_doc ''memfile'' ''/dev/mem'' = ''mem0''"
    by (simp add: demo_doc_def pt_get_default_def)
  have off: "stoul16 (cstr (pt_get_default demo_doc ''offset'' ''0'')) = Inr 0x10"
    by (simp add: demo_doc_def pt_get_default_def demo_cstr demo_numbers)
  have dev: "map_of (pt_children demo_doc) ''devices'' = Some (PTree [] [([], demo_node), ([], PTree [] [])])"
    by (simp add: demo_doc_def)
  have bad: "parse_device 4096 (PTree [] []) o' m' = Inl (Throw Wrong_format)" for o' m'
    by (simp add: parse_device_def pt_get_default_def)
  show ?thesis
    using json_load_devices [OF off dev, where good = "[([], demo_node)]" and bad = "[([], PTree [] [])]" and pg = 4096
        and devs = "[demo_json_dev]" and w = "demo_world demo_dev True" and nx = 1]
    by (simp add: mem demo_node_parse bad)
qed

text \<open>
  The device made from a description carries its name in every specification, but has the
  attribute \<open>base\<close> as its size and the attribute \<open>size\<close>, on top of the offset of the file, as its
  base address.
\<close>

lemma json_swaps_base_and_size:
  assumes "list_all2 (\<lambda>c s. hwio_comp_spec_parse (cstr c) = Inr s) css ss"
    and "base \<noteq> []" "sz \<noteq> []" "stoul16 base = Inr b" "stoul16 sz = Inr s"
  shows "\<exists>dv. parse_device pg (device_node name base sz css) offset mem = Inr dv \<and>
    on_bus_size dv = ucast b \<and> on_bus_base_addr dv = offset + ucast s \<and>
    mm_spec dv = map (name_set name) ss \<and> M_name dv = [] \<and> mem_file_name dv = mem"
  using assms json_specs_ok [OF assms(1), of name "[]"]
  by (simp add: parse_device_def device_node_def pt_get_default_def pt_get_child_def Let_def hwio_device_mmap_ctor_def)

end
