(* ===== verification/Hwio_Bus_Devicetree.thy ===== *)
theory Hwio_Bus_Devicetree
  imports Hwio_Bus Hwio_Device_Mmap
begin

unbundle bit_operations_syntax

text \<open>
  The bus of the devices in a device tree (\<open>src/src/bus/hwio_bus_devicetree.h\<close>,
  \<open>src/src/bus/hwio_bus_devicetree.cpp\<close>). The device tree is a directory of the file system; the
  constructor walks it depth-first with a stack of open directories and a stack of path fragments,
  and makes a memory-mapped device of every directory below the root that has a file \<open>reg\<close>.

  The file system answers \<open>stat\<close>, \<open>opendir\<close> and \<open>fopen\<close> by path and does not change during the
  walk. Stacks are lists with the top at the end, as the vectors of the code. A directory that
  contains itself would be walked forever, so the walk is a partial function: \<open>None\<close> is a walk that
  does not end.
\<close>

section \<open>The file system\<close>

datatype file_kind = Regular | Directory | Other_file

text \<open>An open file: the size \<open>fstat\<close> reports, if it does, and the bytes \<open>fread\<close> can deliver.\<close>

record open_file =
  fstat_size :: "nat option"
  file_data :: "byte list"

record os_files =
  os_stat :: "string \<Rightarrow> file_kind option"
  os_opendir :: "string \<Rightarrow> string list option"
  os_fopen :: "string \<Rightarrow> open_file option"

text \<open>A directory stream: all the names and those \<open>readdir\<close> has not returned yet.\<close>

record DIR =
  dir_names :: "string list"
  dir_left :: "string list"

definition opendir :: "os_files \<Rightarrow> string \<Rightarrow> DIR option" where
  "opendir fs path = map_option (\<lambda>ns. \<lparr>dir_names = ns, dir_left = ns\<rparr>) (os_opendir fs path)"

definition rewinddir :: "DIR \<Rightarrow> DIR" where
  "rewinddir d = d\<lparr>dir_left := dir_names d\<rparr>"

section \<open>State of the bus\<close>

text \<open>Devices are allocated at increasing addresses of the heap of devices.\<close>

record hwio_bus_devicetree =
  path_stack :: "string list"
  dir_stack :: "DIR list"
  top_dir_checked_for_dev :: bool
  all_devices :: "nat list"
  dt_world :: mmap_world
  dt_next :: nat

section \<open>Paths and files\<close>

text \<open>
  The fragments with a slash after each, then the file name; without a file name the last slash is
  overwritten by the terminator, which is outside the buffer if there is no fragment.
\<close>

definition file_path_from_stack :: "string list \<Rightarrow> string \<Rightarrow> string res" where
  "file_path_from_stack stack fname =
     (let prefix = concat (map (\<lambda>frag. frag @ ''/'') stack)
      in if fname \<noteq> [] then Inr (prefix @ fname)
         else if prefix = [] then Inl (Undefined Out_of_bounds)
         else Inr (butlast prefix))"

definition path_stat :: "os_files \<Rightarrow> string list \<Rightarrow> string \<Rightarrow> file_kind option res" where
  "path_stat fs stack fname = bind_res (file_path_from_stack stack fname) (\<lambda>fpath. Inr (os_stat fs fpath))"

definition path_is_file :: "os_files \<Rightarrow> string list \<Rightarrow> string \<Rightarrow> bool res" where
  "path_is_file fs stack fname = bind_res (path_stat fs stack fname) (\<lambda>st. Inr (st = Some Regular))"

definition path_is_dir :: "os_files \<Rightarrow> string list \<Rightarrow> string \<Rightarrow> bool res" where
  "path_is_dir fs stack fname = bind_res (path_stat fs stack fname) (\<lambda>st. Inr (st = Some Directory))"

text \<open>The loop of \<open>dir_has_file\<close> over the names of a rewound directory.\<close>

fun has_file_loop :: "os_files \<Rightarrow> string list \<Rightarrow> string \<Rightarrow> string list \<Rightarrow> bool res" where
  "has_file_loop fs stack fname [] = Inr False"
| "has_file_loop fs stack fname (d_name # ds) =
     (if d_name \<noteq> fname then has_file_loop fs stack fname ds
      else bind_res (path_is_file fs stack fname) (\<lambda>b.
             if b then Inr True else has_file_loop fs stack fname ds))"

definition dir_has_file :: "os_files \<Rightarrow> string list \<Rightarrow> DIR \<Rightarrow> string \<Rightarrow> bool res" where
  "dir_has_file fs stack cdir fname = has_file_loop fs stack fname (dir_left (rewinddir cdir))"

definition path_fopen :: "os_files \<Rightarrow> string list \<Rightarrow> string \<Rightarrow> open_file res" where
  "path_fopen fs stack fname =
     bind_res (file_path_from_stack stack fname) (\<lambda>fpath.
       case os_fopen fs fpath of
         None \<Rightarrow> Inl (Throw Device_tree_format_err)
       | Some file \<Rightarrow> Inr file)"

text \<open>
  \<open>file_read\<close>: \<open>None\<close> is the null pointer, returned after the file was closed. Both callers close
  the file again.
\<close>

definition file_read :: "open_file \<Rightarrow> byte list option" where
  "file_read file =
     (case fstat_size file of
        None \<Rightarrow> None
      | Some fsize \<Rightarrow> if length (file_data file) < fsize then None else Some (take fsize (file_data file)))"

definition read_and_close :: "open_file \<Rightarrow> byte list res" where
  "read_and_close file =
     (case file_read file of
        None \<Rightarrow> Inl (Undefined Use_after_free)
      | Some content \<Rightarrow> Inr content)"

section \<open>The files of a device\<close>

fun reverse_loop :: "nat \<Rightarrow> 'a::len word \<Rightarrow> 'a word \<Rightarrow> 'a word" where
  "reverse_loop 0 val tmp = tmp"
| "reverse_loop (Suc n) val tmp = reverse_loop n (drop_bit 8 val) (push_bit 8 tmp OR (val AND 0xFF))"

definition reverse_endianity :: "u32 \<Rightarrow> u32" where
  "reverse_endianity val = reverse_loop 4 val 0"

definition dev_parse_reg :: "os_files \<Rightarrow> string list \<Rightarrow> string \<Rightarrow> (u32 \<times> u32) res" where
  "dev_parse_reg fs stack fname =
     bind_res (path_fopen fs stack fname) (\<lambda>regf.
     bind_res (read_and_close regf) (\<lambda>content.
       if length content \<noteq> 8 then Inl (Throw Device_tree_format_err)
       else Inr (reverse_endianity (dec32 content), reverse_endianity (dec32 (drop 4 content)))))"

text \<open>
  The content is terminated by a NUL that \<open>file_read\<close> adds; each round takes the string at the
  current position and skips its terminator.
\<close>

function compat_loop :: "string \<Rightarrow> string list" where
  "compat_loop content =
     (if content = [] then []
      else cstr content # compat_loop (drop (length (cstr content) + 1) content))"
  by pat_completeness auto
termination by (relation "measure length") auto

declare compat_loop.simps [simp del]

definition dev_parse_compat :: "os_files \<Rightarrow> string list \<Rightarrow> string \<Rightarrow> string list res" where
  "dev_parse_compat fs stack fname =
     bind_res (path_fopen fs stack fname) (\<lambda>regf.
     bind_res (read_and_close regf) (\<lambda>content. Inr (compat_loop (map byte_char content))))"

fun push_specs :: "string list \<Rightarrow> hwio_comp_spec list \<Rightarrow> hwio_comp_spec list res" where
  "push_specs [] spec = Inr spec"
| "push_specs (cs # css) spec = bind_res (hwio_comp_spec_parse cs) (\<lambda>s. push_specs css (spec @ [s]))"

text \<open>
  The loop of \<open>dev_from_dir\<close>. Only a format error of the file \<open>reg\<close> is caught: it ends the loop
  without a device. An unreadable or malformed file \<open>compatible\<close> throws out of it.
\<close>

fun dev_dir_loop ::
  "os_files \<Rightarrow> string list \<Rightarrow> string list \<Rightarrow> hwio_comp_spec list \<Rightarrow> u32 \<Rightarrow> u32 \<Rightarrow>
   (hwio_comp_spec list \<times> u32 \<times> u32) option res" where
  "dev_dir_loop fs stack [] spec base sz = Inr (Some (spec, base, sz))"
| "dev_dir_loop fs stack (d_name # ds) spec base sz =
     (case path_is_file fs stack d_name of
        Inl e \<Rightarrow> Inl e
      | Inr False \<Rightarrow> dev_dir_loop fs stack ds spec base sz
      | Inr True \<Rightarrow>
          (case (if d_name = ''reg'' then dev_parse_reg fs stack ''reg'' else Inr (base, sz)) of
             Inl e \<Rightarrow> if e = Throw Device_tree_format_err then Inr None else Inl e
           | Inr (base', sz') \<Rightarrow>
               (case (if d_name = ''compatible''
                      then bind_res (dev_parse_compat fs stack ''compatible'') (\<lambda>css. push_specs css spec)
                      else Inr spec) of
                  Inl e \<Rightarrow> Inl e
                | Inr spec' \<Rightarrow> dev_dir_loop fs stack ds spec' base' sz')))"

definition new_device :: "hwio_device_mmap \<Rightarrow> hwio_bus_devicetree \<Rightarrow> hwio_bus_devicetree" where
  "new_device dv st = st\<lparr>dt_world := put_dev (dt_next st) dv (dt_world st), dt_next := dt_next st + 1\<rparr>"

definition dev_from_dir ::
  "os_files \<Rightarrow> u32 \<Rightarrow> string \<Rightarrow> DIR \<Rightarrow> hwio_bus_devicetree \<Rightarrow> nat option res \<times> hwio_bus_devicetree" where
  "dev_from_dir fs page_size mem_path cdir st =
     (if length (path_stack st) \<le> 1 then (Inl Assert_failed, st)
      else case dev_dir_loop fs (path_stack st) (dir_left (rewinddir cdir)) [] 0 0 of
        Inl e \<Rightarrow> (Inl e, st)
      | Inr None \<Rightarrow> (Inr None, st)
      | Inr (Some (spec, base, sz)) \<Rightarrow>
          (Inr (Some (dt_next st)),
           new_device (mmap_name_set (last (path_stack st)) (hwio_device_mmap_ctor page_size spec base sz mem_path)) st))"

section \<open>The walk\<close>

definition top_rewound :: "hwio_bus_devicetree \<Rightarrow> hwio_bus_devicetree" where
  "top_rewound st = st\<lparr>dir_stack := butlast (dir_stack st) @ [rewinddir (last (dir_stack st))]\<rparr>"

text \<open>\<open>opendir_on_stack\<close>: when it throws, the fragment stays on the path stack.\<close>

definition opendir_on_stack :: "os_files \<Rightarrow> hwio_bus_devicetree \<Rightarrow> unit res \<times> hwio_bus_devicetree" where
  "opendir_on_stack fs st =
     (case file_path_from_stack (path_stack st) [] of
        Inl e \<Rightarrow> (Inl e, st)
      | Inr fpath \<Rightarrow>
          (case opendir fs fpath of
             None \<Rightarrow> (Inl (Throw Device_tree_format_err), st)
           | Some dir \<Rightarrow> (Inr (), st\<lparr>dir_stack := dir_stack st @ [dir]\<rparr>)))"

text \<open>The next subdirectory among the names not read yet, and the names after it.\<close>

fun next_subdir :: "os_files \<Rightarrow> string list \<Rightarrow> string list \<Rightarrow> (string option \<times> string list) res" where
  "next_subdir fs stack [] = Inr (None, [])"
| "next_subdir fs stack (d_name # ds) =
     (if d_name = ''.'' \<or> d_name = ''..'' then next_subdir fs stack ds
      else bind_res (path_is_dir fs stack d_name) (\<lambda>b.
             if b then Inr (Some d_name, ds) else next_subdir fs stack ds))"

text \<open>Whether it went into a subdirectory.\<close>

definition go_next_dir :: "os_files \<Rightarrow> hwio_bus_devicetree \<Rightarrow> bool res \<times> hwio_bus_devicetree" where
  "go_next_dir fs st =
     (let cdir = last (dir_stack st)
      in case next_subdir fs (path_stack st) (dir_left cdir) of
           Inl e \<Rightarrow> (Inl e, st)
         | Inr (d, rest) \<Rightarrow>
             (let st1 = st\<lparr>dir_stack := butlast (dir_stack st) @ [cdir\<lparr>dir_left := rest\<rparr>]\<rparr>
              in case d of
                   None \<Rightarrow> (Inr False, st1)
                 | Some d_name \<Rightarrow>
                     (case opendir_on_stack fs
                             (st1\<lparr>top_dir_checked_for_dev := False, path_stack := path_stack st1 @ [d_name]\<rparr>) of
                        (Inl e, st2) \<Rightarrow> (Inl e, st2)
                      | (Inr _, st2) \<Rightarrow> (Inr True, st2))))"

text \<open>One call of \<open>device_next\<close> up to its recursive call: the result, or the state to go on with.\<close>

definition device_step ::
  "os_files \<Rightarrow> u32 \<Rightarrow> string \<Rightarrow> hwio_bus_devicetree \<Rightarrow> nat option res option \<times> hwio_bus_devicetree" where
  "device_step fs page_size mem_path st =
     (if dir_stack st = [] then (Some (Inr None), st)
      else if \<not> top_dir_checked_for_dev st then
        (let st1 = top_rewound (st\<lparr>top_dir_checked_for_dev := True\<rparr>)
         in case dir_has_file fs (path_stack st1) (last (dir_stack st1)) ''reg'' of
              Inl e \<Rightarrow> (Some (Inl e), st1)
            | Inr True \<Rightarrow>
                (case dev_from_dir fs page_size mem_path (last (dir_stack st1)) st1 of
                   (Inl e, st2) \<Rightarrow> (Some (Inl e), st2)
                 | (Inr (Some dev), st2) \<Rightarrow> (Some (Inr (Some dev)), st2)
                 | (Inr None, st2) \<Rightarrow> (None, st2))
            | Inr False \<Rightarrow> (None, st1))
      else
        (case go_next_dir fs st of
           (Inl e, st1) \<Rightarrow> (Some (Inl e), st1)
         | (Inr True, st1) \<Rightarrow> (None, st1)
         | (Inr False, st1) \<Rightarrow>
             (None, st1\<lparr>dir_stack := butlast (dir_stack st1), path_stack := butlast (path_stack st1)\<rparr>)))"

partial_function (option) device_next ::
  "os_files \<Rightarrow> u32 \<Rightarrow> string \<Rightarrow> hwio_bus_devicetree \<Rightarrow> (nat option res \<times> hwio_bus_devicetree) option" where
  "device_next fs page_size mem_path st =
     (case device_step fs page_size mem_path st of
        (Some r, st') \<Rightarrow> Some (r, st')
      | (None, st') \<Rightarrow> device_next fs page_size mem_path st')"

text \<open>The loop of the constructor.\<close>

partial_function (option) device_loop ::
  "os_files \<Rightarrow> u32 \<Rightarrow> string \<Rightarrow> hwio_bus_devicetree \<Rightarrow> (unit res \<times> hwio_bus_devicetree) option" where
  "device_loop fs page_size mem_path st =
     (case device_next fs page_size mem_path st of
        None \<Rightarrow> None
      | Some (r, st') \<Rightarrow>
          (case r of
             Inl e \<Rightarrow> Some (Inl e, st')
           | Inr None \<Rightarrow> Some (Inr (), st')
           | Inr (Some dev) \<Rightarrow> device_loop fs page_size mem_path (st'\<lparr>all_devices := all_devices st' @ [dev]\<rparr>)))"

text \<open>\<open>devAddrCmp\<close> compares base addresses.\<close>

definition dev_addr :: "mmap_world \<Rightarrow> nat \<Rightarrow> u32" where
  "dev_addr w d = (case dev_heap w d of None \<Rightarrow> 0 | Some dv \<Rightarrow> on_bus_base_addr dv)"

text \<open>
  The constructor; \<open>std_sort\<close> stands for \<open>std::sort\<close>, which may order devices of the same address in
  any way.
\<close>

definition hwio_bus_devicetree_ctor ::
  "((nat \<Rightarrow> u32) \<Rightarrow> nat list \<Rightarrow> nat list) \<Rightarrow> os_files \<Rightarrow> u32 \<Rightarrow> string \<Rightarrow> string \<Rightarrow> mmap_world \<Rightarrow> nat \<Rightarrow>
   (unit res \<times> hwio_bus_devicetree) option" where
  "hwio_bus_devicetree_ctor std_sort fs page_size device_tree_path mem_path w next =
     (let st = \<lparr>path_stack = [], dir_stack = [], top_dir_checked_for_dev = False, all_devices = [],
                dt_world = w, dt_next = next\<rparr>
      in case opendir fs device_tree_path of
           None \<Rightarrow> Some (Inl (Throw Device_tree_format_err), st)
         | Some actual_dir \<Rightarrow>
             (case device_loop fs page_size mem_path
                     (st\<lparr>dir_stack := [actual_dir], path_stack := [device_tree_path]\<rparr>) of
                None \<Rightarrow> None
              | Some (Inl e, st1) \<Rightarrow> Some (Inl e, st1)
              | Some (Inr _, st1) \<Rightarrow>
                  if dir_stack st1 \<noteq> [] then Some (Inl Assert_failed, st1)
                  else Some (Inr (), st1\<lparr>path_stack := [],
                         all_devices := std_sort (dev_addr (dt_world st1)) (all_devices st1)\<rparr>)))"

definition devicetree_find_devices :: "hwio_bus_devicetree \<Rightarrow> (mmap_world, nat) bus" where
  "devicetree_find_devices b spec w = (Inr (filter_device_by_spec mmap_ops w (all_devices b) spec), w)"

fun delete_devices :: "nat list \<Rightarrow> mmap_world \<Rightarrow> mmap_world" where
  "delete_devices [] w = w"
| "delete_devices (dev # devs) w = delete_devices devs (mmap_delete dev w)"

definition hwio_bus_devicetree_delete :: "hwio_bus_devicetree \<Rightarrow> mmap_world \<Rightarrow> mmap_world" where
  "hwio_bus_devicetree_delete b w = delete_devices (all_devices b) w"

end
