(* ===== verification/Hwio_Cli.thy ===== *)
theory Hwio_Cli
  imports Hwio_Bus_Json Hwio_Bus_Devicetree Hwio_Remote_Utils Hwio_Client
begin

text \<open>
  Buses from the command line and from configuration files (\<open>src/src/hwio_cli.h\<close>,
  \<open>src/src/hwio_cli.cpp\<close>). The file system, the JSON parser, the network and \<open>getopt_long\<close> are
  parameters; \<open>getopt_long\<close> is the list of options it returns for a command line before it returns
  -1, each with the pointer \<open>optarg\<close>. Connecting and walking a device tree may not end, which is \<open>None\<close>.
\<close>

section \<open>Constructing buses\<close>

datatype any_bus = Remote_bus hwio_bus_remote | Json_bus "nat list" | Devicetree_bus hwio_bus_devicetree

text \<open>\<open>env_connect\<close>: for a host, what \<open>socket\<close> and \<open>connect\<close> return, and the new connection object.\<close>

record cli_env =
  env_fs :: os_files
  env_json :: json_files
  env_home :: string
  env_sort :: "(nat \<Rightarrow> u32) \<Rightarrow> nat list \<Rightarrow> nat list"
  env_page_size :: u32
  env_busy :: bool
  env_getaddrinfo :: "string \<Rightarrow> string \<Rightarrow> int \<times> unit option"
  env_connect :: "string \<Rightarrow> int \<times> int \<times> hwio_client_to_server_con"

type_synonym cli_state = "mmap_world \<times> nat"

type_synonym 'a cli = "cli_state \<Rightarrow> ('a res \<times> cli_state) option"

definition new_bus_remote :: "cli_env \<Rightarrow> string \<Rightarrow> any_bus cli" where
  "new_bus_remote env host s =
     (case env_connect env host of
        (sock, ret, fresh) \<Rightarrow>
          (case hwio_client_to_server_con_ctor (env_getaddrinfo env) host fresh of
             Inl e \<Rightarrow> Some (Inl e, s)
           | Inr c \<Rightarrow>
               (case hwio_bus_remote_ctor (env_busy env) sock ret c of
                  None \<Rightarrow> None
                | Some (Inl e, _) \<Rightarrow> Some (Inl e, s)
                | Some (Inr b, _) \<Rightarrow> Some (Inr (Remote_bus b), s))))"

definition new_bus_json :: "cli_env \<Rightarrow> string \<Rightarrow> any_bus cli" where
  "new_bus_json env file_name = (\<lambda>(w, nx).
     (case hwio_bus_json_file (env_page_size env) (env_json env) file_name w nx of
        (Inl e, _, w', nx') \<Rightarrow> Some (Inl e, w', nx')
      | (Inr _, devs, w', nx') \<Rightarrow> Some (Inr (Json_bus devs), w', nx')))"

definition new_bus_devicetree :: "cli_env \<Rightarrow> string \<Rightarrow> string \<Rightarrow> any_bus cli" where
  "new_bus_devicetree env path mem = (\<lambda>(w, nx).
     (case hwio_bus_devicetree_ctor (env_sort env) (env_fs env) (env_page_size env) path mem w nx of
        None \<Rightarrow> None
      | Some (Inl e, b) \<Rightarrow> Some (Inl e, dt_world b, dt_next b)
      | Some (Inr _, b) \<Rightarrow> Some (Inr (Devicetree_bus b), dt_world b, dt_next b)))"

section \<open>Configuration files\<close>

definition hwio_bus_from_ptree :: "cli_env \<Rightarrow> ptree \<Rightarrow> any_bus cli" where
  "hwio_bus_from_ptree env n s =
     (case pt_get n ''type'' of
        Inl e \<Rightarrow> Some (Inl e, s)
      | Inr ty \<Rightarrow>
          if ty = ''remote'' then
            (let host = pt_get_default n ''host'' []
             in if host = [] then Some (Inl (Throw Wrong_format), s) else new_bus_remote env host s)
          else if ty = ''json'' then
            (let file_name = pt_get_default n ''file'' []
             in if file_name = [] then Some (Inl (Throw Wrong_format), s) else new_bus_json env file_name s)
          else if ty = ''devicetree'' then
            (let devicetree = pt_get_default n ''devicetree'' []; mem = pt_get_default n ''mem'' []
             in if devicetree = [] then Some (Inl (Throw Wrong_format), s)
                else if mem = [] then Some (Inl (Throw Wrong_format), s)
                else new_bus_devicetree env devicetree mem s)
          else Some (Inl (Throw Wrong_format), s))"

fun config_loop :: "cli_env \<Rightarrow> (string \<times> ptree) list \<Rightarrow> any_bus list cli" where
  "config_loop env [] s = Some (Inr [], s)"
| "config_loop env ((first, second) # nodes) s =
     (if first \<noteq> [] then Some (Inl Assert_failed, s)
      else case hwio_bus_from_ptree env second s of
        None \<Rightarrow> None
      | Some (Inl e, s') \<Rightarrow> Some (Inl e, s')
      | Some (Inr b, s') \<Rightarrow>
          (case config_loop env nodes s' of
             None \<Rightarrow> None
           | Some (Inl e, s'') \<Rightarrow> Some (Inl e, s'')
           | Some (Inr bs, s'') \<Rightarrow> Some (Inr (b # bs), s'')))"

definition hwio_config_load_tree :: "cli_env \<Rightarrow> ptree \<Rightarrow> any_bus list cli" where
  "hwio_config_load_tree env root s =
     (case pt_get_child root ''buses'' of
        Inl e \<Rightarrow> Some (Inl e, s)
      | Inr buses \<Rightarrow> config_loop env (pt_children buses) s)"

definition hwio_config_load :: "cli_env \<Rightarrow> string \<Rightarrow> any_bus list cli" where
  "hwio_config_load env file_name s =
     (if \<not> file_access (env_json env) file_name then Some (Inl (Throw Runtime_error), s)
      else case read_json (env_json env) file_name of
        Inl e \<Rightarrow> Some (Inl e, s)
      | Inr root \<Rightarrow> hwio_config_load_tree env root s)"

fun first_config :: "cli_env \<Rightarrow> string list \<Rightarrow> any_bus list cli" where
  "first_config env [] s = Some (Inl (Throw Runtime_error), s)"
| "first_config env (name # names) s =
     (if os_stat (env_fs env) name \<noteq> None then hwio_config_load env name s else first_config env names s)"

definition hwio_load_default_config :: "cli_env \<Rightarrow> any_bus list cli" where
  "hwio_load_default_config env =
     first_config env [env_home env @ ''/.hwio/config.json'', ''/etc/hwio/config.json'']"

section \<open>Removing the consumed arguments\<close>

definition long_opts :: "string list" where
  "long_opts = [''hwio_config'', ''hwio_devicetree'', ''hwio_device_mem'', ''hwio_remote'', ''hwio_json'']"

definition reducible_args :: "string list \<Rightarrow> string list" where
  "reducible_args opts = map (\<lambda>o'. ''--'' @ o') opts"

text \<open>The positions of options and of their arguments, from position \<open>i\<close> on.\<close>

function consumed_args :: "string list \<Rightarrow> string list \<Rightarrow> nat \<Rightarrow> nat list" where
  "consumed_args opts argv i =
     (if i < length argv then
        if argv ! i \<in> set opts then i # (i + 1) # consumed_args opts argv (i + 2)
        else consumed_args opts argv (i + 1)
      else [])"
  by pat_completeness auto
termination by (relation "measure (\<lambda>(opts, argv, i). length argv - i)") auto

declare consumed_args.simps [simp del]

text \<open>
  \<open>std::remove_if\<close> on an array of pointers: the elements that stay are moved to the front, the rest
  of the array keeps its values. The predicate gets the position of an element.
\<close>

definition std_remove_if :: "(nat \<Rightarrow> bool) \<Rightarrow> 'a list \<Rightarrow> 'a list" where
  "std_remove_if pred xs =
     (let kept = map (\<lambda>i. xs ! i) (filter (\<lambda>i. \<not> pred i) [0..<length xs])
      in kept @ drop (length kept) xs)"

text \<open>The predicate is \<open>!do_remove\<close>; the new \<open>argc\<close> and the new \<open>argv\<close> are returned.\<close>

definition rm_comsumed_args :: "string list \<Rightarrow> string list \<Rightarrow> int \<times> string list" where
  "rm_comsumed_args opts argv =
     (let consumed = consumed_args (reducible_args opts) argv 1
      in (int (length argv) - int (length consumed),
          std_remove_if (\<lambda>i. \<not> i \<in> set consumed) argv))"

section \<open>The copies of the arguments\<close>

text \<open>
  The strings that \<open>strdup\<close> has allocated and nobody has freed, by their address, and the next address.
  A pointer into a string is its address and an offset.
\<close>

record c_strings =
  str_block :: "nat \<rightharpoonup> string"
  str_next :: nat

type_synonym str_ptr = "nat \<times> nat"

definition no_strings :: c_strings where
  "no_strings = \<lparr>str_block = (\<lambda>_. None), str_next = 0\<rparr>"

definition strdup :: "string \<Rightarrow> c_strings \<Rightarrow> nat \<times> c_strings" where
  "strdup s h = (str_next h, h\<lparr>str_block := (str_block h)(str_next h \<mapsto> s), str_next := str_next h + 1\<rparr>)"

definition str_free :: "nat \<Rightarrow> c_strings \<Rightarrow> c_strings" where
  "str_free p h = h\<lparr>str_block := (str_block h)(p := None)\<rparr>"

definition str_at :: "c_strings \<Rightarrow> str_ptr \<Rightarrow> string res" where
  "str_at h = (\<lambda>(p, k).
     (case str_block h p of
        None \<Rightarrow> Inl (Undefined Use_after_free)
      | Some s \<Rightarrow> if k \<le> length s then Inr (drop k s) else Inl (Undefined Out_of_bounds)))"

text \<open>The array of copies, which is also \<open>to_free\<close>.\<close>

fun copy_argv :: "string list \<Rightarrow> c_strings \<Rightarrow> nat list \<times> c_strings" where
  "copy_argv [] h = ([], h)"
| "copy_argv (s # argv) h =
     (case strdup s h of
        (tmp, h1) \<Rightarrow> (case copy_argv argv h1 of (to_free, h2) \<Rightarrow> (tmp # to_free, h2)))"

definition free_argv :: "nat list \<Rightarrow> c_strings \<Rightarrow> c_strings" where
  "free_argv to_free h = fold str_free to_free h"

section \<open>The initialisation of a program\<close>

text \<open>\<open>in_devicetree\<close> and \<open>in_device_mem\<close> are pointers into the copied arguments, as \<open>optarg\<close> is.\<close>

record init_state =
  in_buses :: "any_bus list"
  in_devicetree :: "str_ptr option"
  in_device_mem :: "str_ptr option"
  config_specified :: bool

definition init_push :: "any_bus cli \<Rightarrow> init_state \<Rightarrow> init_state cli" where
  "init_push new i s =
     (case new s of
        None \<Rightarrow> None
      | Some (Inl e, s') \<Rightarrow> Some (Inl e, s')
      | Some (Inr b, s') \<Rightarrow> Some (Inr (i\<lparr>in_buses := in_buses i @ [b]\<rparr>), s'))"

text \<open>A constructor that takes a \<open>std::string\<close> reads the string behind its pointer first.\<close>

definition with_str :: "c_strings \<Rightarrow> str_ptr \<Rightarrow> (string \<Rightarrow> 'a cli) \<Rightarrow> 'a cli" where
  "with_str h p f s = (case str_at h p of Inl e \<Rightarrow> Some (Inl e, s) | Inr x \<Rightarrow> f x s)"

text \<open>The bus of a device tree that was named. An absent \<open>--hwio_device_mem\<close> stands for the default memory file.\<close>

definition push_devicetree :: "cli_env \<Rightarrow> c_strings \<Rightarrow> str_ptr \<Rightarrow> init_state \<Rightarrow> init_state cli" where
  "push_devicetree env h path i =
     with_str h path (\<lambda>hwio_devicetree.
       (case in_device_mem i of
          None \<Rightarrow> init_push (new_bus_devicetree env hwio_devicetree DEFAULT_MEM_PATH) i
        | Some mem \<Rightarrow>
            with_str h mem (\<lambda>hwio_device_mem. init_push (new_bus_devicetree env hwio_devicetree hwio_device_mem) i)))"

text \<open>One option of the switch.\<close>

definition init_option :: "cli_env \<Rightarrow> c_strings \<Rightarrow> char \<Rightarrow> str_ptr \<Rightarrow> init_state \<Rightarrow> init_state cli" where
  "init_option env h opt optarg i s =
     (if opt = CHR ''c'' then
        (case with_str h optarg (hwio_config_load env) s of
           None \<Rightarrow> None
         | Some (Inl e, s') \<Rightarrow> Some (Inl e, s')
         | Some (Inr bs, s') \<Rightarrow> Some (Inr (i\<lparr>in_buses := in_buses i @ bs, config_specified := True\<rparr>), s'))
      else if opt = CHR ''r'' then init_push (with_str h optarg (new_bus_remote env)) i s
      else if opt = CHR ''j'' then init_push (with_str h optarg (new_bus_json env)) i s
      else if opt = CHR ''d'' then
        (case in_devicetree i of
           None \<Rightarrow> Some (Inr (i\<lparr>in_devicetree := Some optarg\<rparr>), s)
         | Some path \<Rightarrow>
             (case push_devicetree env h path i s of
                None \<Rightarrow> None
              | Some (Inl e, s') \<Rightarrow> Some (Inl e, s')
              | Some (Inr i', s') \<Rightarrow> Some (Inr (i'\<lparr>in_device_mem := None, in_devicetree := Some optarg\<rparr>), s')))
      else if opt = CHR ''m'' then
        (if in_device_mem i \<noteq> None then Some (Inl (Throw Runtime_error), s)
         else Some (Inr (i\<lparr>in_device_mem := Some optarg\<rparr>), s))
      else Some (Inr i, s))"

fun init_loop :: "cli_env \<Rightarrow> c_strings \<Rightarrow> (char \<times> str_ptr) list \<Rightarrow> init_state \<Rightarrow> init_state cli" where
  "init_loop env h [] i s = Some (Inr i, s)"
| "init_loop env h ((opt, optarg) # opts) i s =
     (case init_option env h opt optarg i s of
        None \<Rightarrow> None
      | Some (Inl e, s') \<Rightarrow> Some (Inl e, s')
      | Some (Inr i', s') \<Rightarrow> init_loop env h opts i' s')"

text \<open>What comes after the loop, with the copies freed: the bus of the last device tree.\<close>

definition init_leftover :: "cli_env \<Rightarrow> c_strings \<Rightarrow> init_state \<Rightarrow> init_state cli" where
  "init_leftover env h i s =
     (case in_devicetree i of None \<Rightarrow> Some (Inr i, s) | Some path \<Rightarrow> push_devicetree env h path i s)"

text \<open>
  \<open>getopt_long\<close> gets the array of copies with the strings behind its pointers. Every exception of the
  loop is thrown again by value, as a plain \<open>std::exception\<close>. The copies are freed before the
  leftover device tree is made. A default configuration is loaded unless one was named, whatever
  other buses there are.
\<close>

definition hwio_init ::
  "cli_env \<Rightarrow> ((nat \<times> string) list \<Rightarrow> (char \<times> str_ptr) list) \<Rightarrow> string list \<Rightarrow> cli_state \<Rightarrow>
   (any_bus res \<times> (int \<times> string list) \<times> cli_state) option" where
  "hwio_init env getopt_long argv s =
     (let args = (int (length argv), argv); (to_free, h) = copy_argv argv no_strings
      in case init_loop env h (getopt_long (zip to_free argv))
              \<lparr>in_buses = [], in_devicetree = None, in_device_mem = None, config_specified = False\<rparr> s of
        None \<Rightarrow> None
      | Some (Inl e, s1) \<Rightarrow> Some (Inl (case e of Throw x \<Rightarrow> Throw Std_exception | _ \<Rightarrow> e), args, s1)
      | Some (Inr i, s1) \<Rightarrow>
          (case init_leftover env (free_argv to_free h) i s1 of
             None \<Rightarrow> None
           | Some (Inl e, s2) \<Rightarrow> Some (Inl e, args, s2)
           | Some (Inr i2, s2) \<Rightarrow>
               (let args' = rm_comsumed_args long_opts argv
                in case (if config_specified i2 then Some (Inr [], s2) else hwio_load_default_config env s2) of
                     None \<Rightarrow> None
                   | Some (Inl e, s3) \<Rightarrow> Some (Inl e, args', s3)
                   | Some (Inr bs, s3) \<Rightarrow>
                       (let buses = in_buses i2 @ bs
                        in if buses = [] then Some (Inl (Throw Runtime_error), args', s3)
                           else if 1 < length buses then Some (Inl Assert_failed, args', s3)
                           else Some (Inr (buses ! 0), args', s3)))))"

section \<open>Choosing a device\<close>

definition hwio_select_devs_from_vector :: "'d list \<Rightarrow> int \<Rightarrow> 'd list res" where
  "hwio_select_devs_from_vector devices index =
     (if index < 0 \<and> 1 < length devices then Inl (Throw Out_of_range)
      else
        (let i = (if index < 0 then 0 else index)
         in if int (length devices) \<le> i then Inl (Throw Out_of_range) else Inr [devices ! nat i]))"

end
