(* ===== verification/Hwio_Devicetree_Laws.thy ===== *)
theory Hwio_Devicetree_Laws
  imports Hwio_Bus_Devicetree "HOL-Library.Multiset"
begin

unbundle bit_operations_syntax

text \<open>
  What the bus of a device tree finds. The reference is a recursive function over a tree of files and
  directories; the theorems show that the walk with its two stacks terminates on every file system
  that holds such a tree and makes exactly the devices of the reference, ordered by address.
\<close>

section \<open>Byte order\<close>

text \<open>The big-endian value of a byte list.\<close>

definition be_dec :: "byte list \<Rightarrow> nat" where
  "be_dec bs = foldl (\<lambda>v b. 256 * v + unat b) 0 bs"

lemma be_dec_snoc [simp]: "be_dec (bs @ [b]) = 256 * be_dec bs + unat b"
  by (simp add: be_dec_def)

lemma be_dec_rev: "be_dec bs = le_dec (rev bs)"
  by (induction bs rule: rev_induct) (simp_all add: be_dec_def)

lemma unat_low_byte: "unat (val AND 0xFF :: u32) = unat val mod 256"
proof -
  have "val AND 0xFF = take_bit 8 val" by (simp add: take_bit_eq_mask mask_eq_decr_exp)
  then show ?thesis using take_bit_eq_mod [of 8 "unat val"] by (simp only: unsigned_take_bit_eq) simp
qed

lemma unat_shift_in:
  fixes tmp val :: u32
  assumes "256 * unat tmp < 2 ^ 32"
  shows "unat (push_bit 8 tmp OR (val AND 0xFF)) = 256 * unat tmp + unat val mod 256"
proof -
  have "push_bit 8 tmp AND (val AND 0xFF) = 0"
  proof -
    have "val AND 0xFF = take_bit 8 val" by (simp add: take_bit_eq_mask mask_eq_decr_exp)
    then show ?thesis by (simp only:) (rule bit_word_eqI, auto simp: bit_simps)
  qed
  then have "push_bit 8 tmp OR (val AND 0xFF) = push_bit 8 tmp + (val AND 0xFF)"
    by (simp add: disjunctive_add_eq_or)
  moreover have push: "unat (push_bit 8 tmp) = 256 * unat tmp"
    using assms by (simp add: push_bit_eq_mult unat_word_ariths)
  moreover have "256 * unat tmp + unat val mod 256 < 2 ^ 32"
  proof -
    have "unat tmp < 2 ^ 24" using assms by simp
    moreover have "unat val mod 256 < 256" by simp
    ultimately show ?thesis by simp
  qed
  ultimately show ?thesis by (simp add: unat_word_ariths unat_low_byte)
qed

lemma reverse_loop_value:
  "256 ^ n * (unat tmp + 1) \<le> 2 ^ 32 \<Longrightarrow>
   unat (reverse_loop n (val :: u32) tmp) = 256 ^ n * unat tmp + be_dec (le_enc n (unat val))"
proof (induction n arbitrary: val tmp)
  case (Suc n)
  have pos: "(1 :: nat) \<le> 256 ^ n" by simp
  have "256 * (unat tmp + 1) \<le> 256 ^ Suc n * (unat tmp + 1)"
    using pos by (intro mult_le_mono1) simp
  also note Suc.prems
  finally have lt: "256 * unat tmp < 2 ^ 32" by simp
  have "256 * unat tmp + unat val mod 256 + 1 \<le> 256 * (unat tmp + 1)"
    using mod_less_divisor [of 256 "unat val"] by simp
  then have "256 ^ n * (256 * unat tmp + unat val mod 256 + 1) \<le> 256 ^ n * (256 * (unat tmp + 1))"
    by (rule mult_le_mono2)
  also have "\<dots> \<le> 2 ^ 32" using Suc.prems by (simp add: algebra_simps)
  finally have bound: "256 ^ n * (unat (push_bit 8 tmp OR (val AND 0xFF)) + 1) \<le> 2 ^ 32"
    by (simp only: unat_shift_in [OF lt])
  have "unat (drop_bit 8 val) = unat val div 256"
    by (simp add: drop_bit_eq_div unat_div)
  moreover have "be_dec (le_enc (Suc n) v) = 256 ^ n * (v mod 256) + be_dec (le_enc n (v div 256))" for v
    by (simp add: be_dec_rev le_dec_append)
  ultimately show ?case
    using Suc.IH [OF bound, of "drop_bit 8 val"]
    by (simp add: unat_shift_in [OF lt] algebra_simps del: le_enc.simps)
qed (simp add: be_dec_def)


lemma reverse_endianity_le:
  assumes "4 \<le> length bs"
  shows "unat (reverse_endianity (dec32 bs)) = be_dec (take 4 bs)"
proof -
  have "le_enc 4 (unat (dec32 bs)) = take 4 bs" using enc32_dec32 [OF assms] by (simp add: enc32_def)
  then show ?thesis using reverse_loop_value [of 4 0 "dec32 bs"] by (simp add: reverse_endianity_def)
qed

section \<open>Lists of strings\<close>

lemma compat_loop_join:
  "list_all no_nul css \<Longrightarrow> compat_loop (concat (map (\<lambda>c. c @ [CHR 0x00]) css)) = css"
proof (induction css)
  case (Cons c css)
  then have "cstr (c @ CHR 0x00 # s) = c" for s
    by (auto simp: cstr_def no_nul_def takeWhile_append)
  with Cons show ?case by (subst compat_loop.simps) simp
qed (simp add: compat_loop.simps)

lemma compat_loop_last:
  assumes "list_all no_nul css" "no_nul c" "c \<noteq> []"
  shows "compat_loop (concat (map (\<lambda>c. c @ [CHR 0x00]) css) @ c) = css @ [c]"
  using assms(1)
proof (induction css)
  case Nil
  show ?case using assms(2,3) by (simp add: compat_loop.simps [of c] compat_loop.simps [of "[]"])
next
  case (Cons d css)
  then have "cstr (d @ CHR 0x00 # s) = d" for s
    by (auto simp: cstr_def no_nul_def takeWhile_append)
  with Cons show ?case by (subst compat_loop.simps) simp
qed

section \<open>Trees of files\<close>

datatype fs_node = Reg_file "byte list" | Dir_node "(string \<times> fs_node) list" | Other_node

text \<open>The file system holds the tree at the path; \<open>opendir\<close> also lists the two dots.\<close>

fun fs_holds :: "os_files \<Rightarrow> string \<Rightarrow> fs_node \<Rightarrow> bool" where
  "fs_holds fs p (Reg_file bs) \<longleftrightarrow>
     os_stat fs p = Some Regular \<and> os_fopen fs p = Some \<lparr>fstat_size = Some (length bs), file_data = bs\<rparr>"
| "fs_holds fs p Other_node \<longleftrightarrow> os_stat fs p \<noteq> Some Regular \<and> os_stat fs p \<noteq> Some Directory"
| "fs_holds fs p (Dir_node es) \<longleftrightarrow>
     os_stat fs p = Some Directory \<and> distinct (map fst es) \<and> [] \<notin> set (map fst es) \<and>
     (case os_opendir fs p of
        None \<Rightarrow> False
      | Some ns \<Rightarrow> filter (\<lambda>n. n \<noteq> ''.'' \<and> n \<noteq> ''..'') ns = map fst es \<and>
          (\<forall>n \<in> set ns. n = ''.'' \<or> n = ''..'' \<longrightarrow> os_stat fs (p @ ''/'' @ n) = Some Directory)) \<and>
     (\<forall>e \<in> set es. fs_holds fs (p @ ''/'' @ fst e) (snd e))"

definition file_of :: "(string \<times> fs_node) list \<Rightarrow> string \<Rightarrow> byte list option" where
  "file_of es n = (case map_of es n of Some (Reg_file bs) \<Rightarrow> Some bs | _ \<Rightarrow> None)"

definition compat_strings :: "(string \<times> fs_node) list \<Rightarrow> string list" where
  "compat_strings es =
     (case file_of es ''compatible'' of None \<Rightarrow> [] | Some bs \<Rightarrow> compat_loop (map byte_char bs))"

definition compat_specs :: "(string \<times> fs_node) list \<Rightarrow> hwio_comp_spec list" where
  "compat_specs es = map (\<lambda>c. projr (hwio_comp_spec_parse c)) (compat_strings es)"

definition dir_device :: "u32 \<Rightarrow> string \<Rightarrow> string \<Rightarrow> (string \<times> fs_node) list \<Rightarrow> hwio_device_mmap list" where
  "dir_device page_size mem_path name es =
     (case file_of es ''reg'' of
        None \<Rightarrow> []
      | Some bs \<Rightarrow>
          if length bs \<noteq> 8 then []
          else [mmap_name_set name (hwio_device_mmap_ctor page_size (compat_specs es)
                  (word_of_nat (be_dec (take 4 bs))) (word_of_nat (be_dec (drop 4 bs))) mem_path)])"

text \<open>The devices of a directory and of the directories below it, in the order of a pre-order walk.\<close>

fun node_devices :: "u32 \<Rightarrow> string \<Rightarrow> string \<Rightarrow> fs_node \<Rightarrow> hwio_device_mmap list" where
  "node_devices page_size mem_path name (Dir_node es) =
     dir_device page_size mem_path name es @
     concat (map (\<lambda>e. node_devices page_size mem_path (fst e) (snd e)) es)"
| "node_devices page_size mem_path name _ = []"

text \<open>The specifications of every directory with a file \<open>reg\<close> can be parsed.\<close>

fun compat_parses :: "fs_node \<Rightarrow> bool" where
  "compat_parses (Dir_node es) \<longleftrightarrow>
     (file_of es ''reg'' \<noteq> None \<longrightarrow> list_all (\<lambda>c. isl (hwio_comp_spec_parse c) = False) (compat_strings es)) \<and>
     (\<forall>e \<in> set es. compat_parses (snd e))"
| "compat_parses _ \<longleftrightarrow> True"


section \<open>Directories as the code sees them\<close>

definition stack_path :: "string list \<Rightarrow> string" where
  "stack_path ps = butlast (concat (map (\<lambda>frag. frag @ ''/'') ps))"

lemma stack_prefix: "ps \<noteq> [] \<Longrightarrow> concat (map (\<lambda>frag. frag @ ''/'') ps) = stack_path ps @ ''/''"
  by (cases ps rule: rev_cases) (simp_all add: stack_path_def butlast_append)

lemma stack_path_snoc [simp]: "ps \<noteq> [] \<Longrightarrow> stack_path (ps @ [n]) = stack_path ps @ ''/'' @ n"
  using stack_prefix [of ps] by (simp add: stack_path_def butlast_append)

lemma stack_path_single [simp]: "stack_path [p] = p"
  by (simp add: stack_path_def butlast_append)

lemma stack_path_two [simp]: "stack_path [p, n] = p @ ''/'' @ n"
  using stack_path_snoc [of "[p]" n] by simp

lemma file_path_name [simp]:
  "ps \<noteq> [] \<Longrightarrow> n \<noteq> [] \<Longrightarrow> file_path_from_stack ps n = Inr (stack_path ps @ ''/'' @ n)"
  by (simp add: file_path_from_stack_def stack_prefix)

lemma file_path_dir [simp]: "ps \<noteq> [] \<Longrightarrow> file_path_from_stack ps [] = Inr (stack_path ps)"
  by (simp add: file_path_from_stack_def stack_prefix)

text \<open>The directory at the top of the stack is the tree node with the entries \<open>es\<close>.\<close>

definition dir_at :: "os_files \<Rightarrow> string list \<Rightarrow> string list \<Rightarrow> (string \<times> fs_node) list \<Rightarrow> bool" where
  "dir_at fs ps ns es \<longleftrightarrow> ps \<noteq> [] \<and> fs_holds fs (stack_path ps) (Dir_node es) \<and> os_opendir fs (stack_path ps) = Some ns"

lemma dir_at_names:
  assumes "dir_at fs ps ns es"
  shows "filter (\<lambda>n. n \<noteq> ''.'' \<and> n \<noteq> ''..'') ns = map fst es" "distinct (map fst es)" "[] \<notin> set ns"
proof -
  show filter: "filter (\<lambda>n. n \<noteq> ''.'' \<and> n \<noteq> ''..'') ns = map fst es" and "distinct (map fst es)"
    using assms by (auto simp: dir_at_def)
  have "set (map fst es) = {n \<in> set ns. n \<noteq> ''.'' \<and> n \<noteq> ''..''}" by (simp flip: filter)
  moreover have "[] \<notin> set (map fst es)" using assms by (simp add: dir_at_def)
  ultimately show "[] \<notin> set ns" by blast
qed

lemma dir_at_child:
  assumes "dir_at fs ps ns es" "map_of es n = Some c"
  shows "fs_holds fs (stack_path ps @ ''/'' @ n) c" "n \<noteq> []" "n \<in> set ns" "n \<noteq> ''.''" "n \<noteq> ''..''"
proof -
  have mem: "(n, c) \<in> set es" using assms(2) by (rule map_of_SomeD)
  then show "fs_holds fs (stack_path ps @ ''/'' @ n) c" using assms(1) by (auto simp: dir_at_def)
  have "n \<in> set (filter (\<lambda>n. n \<noteq> ''.'' \<and> n \<noteq> ''..'') ns)"
    using mem unfolding dir_at_names(1) [OF assms(1)] by force
  then show "n \<in> set ns" "n \<noteq> ''.''" "n \<noteq> ''..''" by simp_all
  then show "n \<noteq> []" using dir_at_names(3) [OF assms(1)] by auto
qed

lemma dir_at_stat:
  assumes "dir_at fs ps ns es" "n \<in> set ns"
  shows "path_is_file fs ps n = Inr (file_of es n \<noteq> None)"
    and "n \<noteq> ''.'' \<Longrightarrow> n \<noteq> ''..'' \<Longrightarrow> path_is_dir fs ps n = Inr (\<exists>ds. map_of es n = Some (Dir_node ds))"
proof -
  have ps: "ps \<noteq> []" "n \<noteq> []" using assms dir_at_names(3) [OF assms(1)] by (auto simp: dir_at_def)
  have dots: "os_stat fs (stack_path ps @ ''/'' @ n) = Some Directory" "map_of es n = None" if "n = ''.'' \<or> n = ''..''"
    using that assms dir_at_child(4,5) [OF assms(1), of n] by (fastforce simp: dir_at_def split: option.splits)+
  have child: "\<exists>c. map_of es n = Some c" if "n \<noteq> ''.''" "n \<noteq> ''..''"
  proof -
    have "n \<in> set (map fst es)" using that assms(2) by (simp flip: dir_at_names(1) [OF assms(1)])
    then show ?thesis by (metis map_of_eq_None_iff not_None_eq set_map)
  qed
  show "path_is_file fs ps n = Inr (file_of es n \<noteq> None)"
  proof (cases "n = ''.'' \<or> n = ''..''")
    case True
    then show ?thesis using dots ps by (simp add: path_is_file_def path_stat_def file_of_def)
  next
    case False
    then obtain c where c: "map_of es n = Some c" using child by blast
    with dir_at_child(1) [OF assms(1) c] show ?thesis
      using ps by (cases c) (auto simp: path_is_file_def path_stat_def file_of_def)
  qed
  show "path_is_dir fs ps n = Inr (\<exists>ds. map_of es n = Some (Dir_node ds))" if nd: "n \<noteq> ''.''" "n \<noteq> ''..''"
  proof -
    obtain c where c: "map_of es n = Some c" using child nd by blast
    with dir_at_child(1) [OF assms(1) c] show ?thesis
      using ps by (cases c) (auto simp: path_is_dir_def path_stat_def)
  qed
qed

lemma dir_at_read:
  assumes "dir_at fs ps ns es" "file_of es n = Some bs"
  shows "path_fopen fs ps n = Inr \<lparr>fstat_size = Some (length bs), file_data = bs\<rparr>" "n \<in> set ns"
proof -
  have c: "map_of es n = Some (Reg_file bs)"
    using assms(2) by (auto simp: file_of_def split: option.splits fs_node.splits)
  show "n \<in> set ns" by (rule dir_at_child(3) [OF assms(1) c])
  show "path_fopen fs ps n = Inr \<lparr>fstat_size = Some (length bs), file_data = bs\<rparr>"
    using dir_at_child(1,2) [OF assms(1) c] assms(1) by (simp add: path_fopen_def dir_at_def)
qed

lemma has_file_loop_iff:
  assumes "\<And>n. n \<in> set ns \<Longrightarrow> path_is_file fs ps n = Inr (F n)"
  shows "has_file_loop fs ps fname ns = Inr (fname \<in> set ns \<and> F fname)"
  using assms by (induction ns) auto

lemma dir_has_file_iff:
  assumes "dir_at fs ps ns es" "dir_names d = ns"
  shows "dir_has_file fs ps d fname = Inr (file_of es fname \<noteq> None)"
proof -
  have "dir_has_file fs ps d fname = Inr (fname \<in> set ns \<and> file_of es fname \<noteq> None)"
    using has_file_loop_iff [of ns fs ps "\<lambda>n. file_of es n \<noteq> None"] dir_at_stat(1) [OF assms(1)] assms(2)
    by (simp add: dir_has_file_def rewinddir_def)
  then show ?thesis using dir_at_read(2) [OF assms(1)] by auto
qed


section \<open>The device of a directory\<close>

lemma push_specs_ok:
  "list_all (\<lambda>c. isl (hwio_comp_spec_parse c) = False) css \<Longrightarrow>
   push_specs css spec = Inr (spec @ map (\<lambda>c. projr (hwio_comp_spec_parse c)) css)"
proof (induction css arbitrary: spec)
  case (Cons c css)
  then obtain s where "hwio_comp_spec_parse c = Inr s" by (cases "hwio_comp_spec_parse c") auto
  with Cons show ?case by simp
qed simp

text \<open>What the two files give.\<close>

lemma parse_reg_ok:
  assumes "dir_at fs ps ns es" "file_of es ''reg'' = Some bs"
  shows "dev_parse_reg fs ps ''reg'' =
    (if length bs \<noteq> 8 then Inl (Throw Device_tree_format_err)
     else Inr (word_of_nat (be_dec (take 4 bs)), word_of_nat (be_dec (drop 4 bs))))"
proof -
  have rev: "reverse_endianity (dec32 cs) = word_of_nat (be_dec (take 4 cs))" if "4 \<le> length cs" for cs
    by (simp flip: reverse_endianity_le [OF that])
  show ?thesis
    using rev [of bs] rev [of "drop 4 bs"]
    by (simp add: dev_parse_reg_def dir_at_read(1) [OF assms] read_and_close_def file_read_def)
qed

lemma parse_compat_ok:
  assumes "dir_at fs ps ns es" "file_of es ''compatible'' \<noteq> None"
    and "list_all (\<lambda>c. isl (hwio_comp_spec_parse c) = False) (compat_strings es)"
  shows "bind_res (dev_parse_compat fs ps ''compatible'') (\<lambda>css. push_specs css spec) = Inr (spec @ compat_specs es)"
proof -
  obtain bs where bs: "file_of es ''compatible'' = Some bs" using assms(2) by blast
  have "dev_parse_compat fs ps ''compatible'' = Inr (compat_strings es)"
    using dir_at_read(1) [OF assms(1) bs]
    by (simp add: dev_parse_compat_def read_and_close_def file_read_def compat_strings_def bs)
  then show ?thesis using push_specs_ok [OF assms(3)] by (simp add: compat_specs_def)
qed

text \<open>
  The loop over any part of the names: a malformed \<open>reg\<close> ends it without a device; otherwise it
  collects what the files it meets hold.
\<close>

lemma dev_dir_loop_ok:
  assumes "dir_at fs ps ns es" "file_of es ''reg'' = Some bs"
    and "list_all (\<lambda>c. isl (hwio_comp_spec_parse c) = False) (compat_strings es)"
    and "set ds \<subseteq> set ns" "distinct (filter (\<lambda>n. n \<noteq> ''.'' \<and> n \<noteq> ''..'') ds)"
  shows "dev_dir_loop fs ps ds spec base sz = Inr
    (if ''reg'' \<in> set ds \<and> length bs \<noteq> 8 then None
     else Some (spec @ (if ''compatible'' \<in> set ds then compat_specs es else []),
       (if ''reg'' \<in> set ds then (word_of_nat (be_dec (take 4 bs)), word_of_nat (be_dec (drop 4 bs))) else (base, sz))))"
  using assms(4,5)
proof (induction ds arbitrary: spec base sz)
  case (Cons d ds)
  have stat: "path_is_file fs ps d = Inr (file_of es d \<noteq> None)"
    using dir_at_stat(1) [OF assms(1)] Cons.prems(1) by simp
  have none: "compat_specs es = []" if "file_of es ''compatible'' = None"
    using that by (simp add: compat_specs_def compat_strings_def)
  consider "d = ''reg''" | "d = ''compatible''" "file_of es d = None" | "d = ''compatible''" "file_of es d \<noteq> None"
    | "d \<noteq> ''reg''" "d \<noteq> ''compatible''" by blast
  then show ?case
  proof cases
    case 1
    then have "''reg'' \<notin> set ds" using Cons.prems(2) by simp
    with 1 Cons show ?thesis using stat assms(2) parse_reg_ok [OF assms(1,2)] by simp
  next
    case 2
    with Cons show ?thesis using stat none by simp
  next
    case 3
    then have "''compatible'' \<notin> set ds" using Cons.prems(2) by simp
    with 3 Cons show ?thesis using stat parse_compat_ok [OF assms(1) _ assms(3)] by simp
  next
    case 4
    have "distinct (filter (\<lambda>n. n \<noteq> ''.'' \<and> n \<noteq> ''..'') ds)" using Cons.prems(2) by (auto split: if_splits)
    with 4 Cons show ?thesis using stat by (cases "file_of es d") simp_all
  qed
qed simp

lemma dev_dir_loop_all:
  assumes "dir_at fs ps ns es" "file_of es ''reg'' = Some bs"
    and "list_all (\<lambda>c. isl (hwio_comp_spec_parse c) = False) (compat_strings es)"
  shows "dev_dir_loop fs ps ns [] 0 0 = Inr
    (if length bs \<noteq> 8 then None
     else Some (compat_specs es, word_of_nat (be_dec (take 4 bs)), word_of_nat (be_dec (drop 4 bs))))"
proof -
  have "''compatible'' \<in> set ns \<or> compat_specs es = []"
    using dir_at_read(2) [OF assms(1), of "''compatible''"]
    by (cases "file_of es ''compatible''") (auto simp: compat_specs_def compat_strings_def)
  moreover have "''reg'' \<in> set ns" by (rule dir_at_read(2) [OF assms(1,2)])
  moreover have "distinct (filter (\<lambda>n. n \<noteq> ''.'' \<and> n \<noteq> ''..'') ns)"
    using dir_at_names(1,2) [OF assms(1)] by simp
  ultimately show ?thesis using dev_dir_loop_ok [OF assms order_refl, of "[]" 0 0] by auto
qed


section \<open>The walk\<close>

definition walk_state :: "string list \<Rightarrow> DIR list \<Rightarrow> bool \<Rightarrow> made \<Rightarrow> hwio_bus_devicetree" where
  "walk_state ps dirs checked = (\<lambda>(acc, w, nx).
     \<lparr>path_stack = ps, dir_stack = dirs, top_dir_checked_for_dev = checked, all_devices = acc, dt_world = w, dt_next = nx\<rparr>)"

lemma device_next_silent:
  "device_step fs pg mem st = (None, st') \<Longrightarrow> device_next fs pg mem st = device_next fs pg mem st'"
  by (subst device_next.simps) simp

lemma device_loop_cong:
  "device_next fs pg mem st = device_next fs pg mem st' \<Longrightarrow> device_loop fs pg mem st = device_loop fs pg mem st'"
  by (simp add: device_loop.simps [of fs pg mem st] device_loop.simps [of fs pg mem st'])

lemmas device_loop_silent = device_loop_cong [OF device_next_silent]

lemma device_loop_same_step:
  "device_step fs pg mem st = device_step fs pg mem st' \<Longrightarrow> device_loop fs pg mem st = device_loop fs pg mem st'"
  by (rule device_loop_cong) (simp add: device_next.simps [of fs pg mem st] device_next.simps [of fs pg mem st'])

lemma device_loop_emit:
  "device_step fs pg mem st = (Some (Inr (Some d)), st') \<Longrightarrow>
   device_loop fs pg mem st = device_loop fs pg mem (st'\<lparr>all_devices := all_devices st' @ [d]\<rparr>)"
  by (simp add: device_loop.simps [of fs pg mem st] device_next.simps [of fs pg mem st])

lemma device_loop_end:
  "device_loop fs pg mem (walk_state ps [] checked m) = Some (Inr (), walk_state ps [] checked m)"
proof -
  have "device_step fs pg mem (walk_state ps [] checked m) = (Some (Inr None), walk_state ps [] checked m)"
    by (simp add: device_step_def walk_state_def split: prod.split)
  then show ?thesis
    by (simp add: device_loop.simps [of fs pg mem "walk_state ps [] checked m"]
        device_next.simps [of fs pg mem "walk_state ps [] checked m"])
qed

text \<open>A directory is examined: its device is made if it has one.\<close>

lemma examine_dir:
  assumes "dir_at fs (ps @ [n]) ns es" "ps \<noteq> [] \<or> file_of es ''reg'' = None" "compat_parses (Dir_node es)"
  shows "device_loop fs pg mem (walk_state (ps @ [n]) (dirs @ [\<lparr>dir_names = ns, dir_left = ns\<rparr>]) False m) =
    device_loop fs pg mem (walk_state (ps @ [n]) (dirs @ [\<lparr>dir_names = ns, dir_left = ns\<rparr>]) True
      (make_all (dir_device pg mem n es) m))"
proof -
  obtain acc w nx where m: "m = (acc, w, nx)" by (cases m)
  let ?d = "\<lparr>dir_names = ns, dir_left = ns\<rparr>"
  let ?st = "\<lambda>c. walk_state (ps @ [n]) (dirs @ [?d]) c m"
  have has: "dir_has_file fs (ps @ [n]) ?d ''reg'' = Inr (file_of es ''reg'' \<noteq> None)"
    using dir_has_file_iff [OF assms(1)] by simp
  have rewound: "top_rewound ((?st False)\<lparr>top_dir_checked_for_dev := True\<rparr>) = ?st True"
    by (simp add: top_rewound_def walk_state_def m rewinddir_def)
  have fields: "dir_stack (?st c) = dirs @ [?d]" "path_stack (?st c) = ps @ [n]" "top_dir_checked_for_dev (?st c) = c" for c
    by (simp_all add: walk_state_def m)
  show ?thesis
  proof (cases "file_of es ''reg''")
    case None
    then have "device_step fs pg mem (?st False) = (None, ?st True)"
      using has by (simp add: device_step_def fields rewound)
    then show ?thesis using None by (simp add: device_loop_silent dir_device_def)
  next
    case (Some bs)
    have loop: "dev_dir_loop fs (ps @ [n]) ns [] 0 0 = Inr
        (if length bs \<noteq> 8 then None
         else Some (compat_specs es, word_of_nat (be_dec (take 4 bs)), word_of_nat (be_dec (drop 4 bs))))"
      using dev_dir_loop_all [OF assms(1) Some] assms(3) Some by simp
    have len: "\<not> length (ps @ [n]) \<le> 1" using assms(2) Some by (cases ps) simp_all
    show ?thesis
    proof (cases "length bs = 8")
      case False
      then have "device_step fs pg mem (?st False) = (None, ?st True)"
        using has Some loop len by (simp add: device_step_def fields rewound dev_from_dir_def rewinddir_def)
      then show ?thesis using Some False by (simp add: device_loop_silent dir_device_def)
    next
      case True
      let ?dv = "mmap_name_set n (hwio_device_mmap_ctor pg (compat_specs es)
          (word_of_nat (be_dec (take 4 bs))) (word_of_nat (be_dec (drop 4 bs))) mem)"
      have "device_step fs pg mem (?st False) = (Some (Inr (Some nx)), new_device ?dv (?st True))"
        using has Some loop len True
        by (simp add: device_step_def fields rewound dev_from_dir_def rewinddir_def) (simp add: walk_state_def m)
      from device_loop_emit [OF this] show ?thesis
        using Some True by (simp add: dir_device_def m new_device_def walk_state_def)
    qed
  qed
qed


text \<open>A name that is no subdirectory is passed over.\<close>

lemma next_subdir_total:
  assumes "dir_at fs ps ns es" "set left \<subseteq> set ns"
  shows "\<exists>r. next_subdir fs ps left = Inr r"
  using assms(2) dir_at_stat(2) [OF assms(1)] by (induction left) auto

lemma walk_skip:
  assumes "dir_at fs ps ns es" "set left \<subseteq> set ns" "next_subdir fs ps (n # left) = next_subdir fs ps left"
  shows "device_loop fs pg mem (walk_state ps (dirs @ [\<lparr>dir_names = ns, dir_left = n # left\<rparr>]) True m) =
    device_loop fs pg mem (walk_state ps (dirs @ [\<lparr>dir_names = ns, dir_left = left\<rparr>]) True m)"
proof (rule device_loop_same_step)
  obtain acc w nx where m: "m = (acc, w, nx)" by (cases m)
  obtain d rest where "next_subdir fs ps left = Inr (d, rest)"
    using next_subdir_total [OF assms(1,2)] by auto
  then show "device_step fs pg mem (walk_state ps (dirs @ [\<lparr>dir_names = ns, dir_left = n # left\<rparr>]) True m) =
      device_step fs pg mem (walk_state ps (dirs @ [\<lparr>dir_names = ns, dir_left = left\<rparr>]) True m)"
    using assms(3) by (simp add: device_step_def go_next_dir_def walk_state_def m del: next_subdir.simps)
qed

text \<open>Entering a subdirectory, and leaving a directory without any more.\<close>

lemma walk_enter:
  assumes "next_subdir fs ps (n # left) = Inr (Some n, left)" "os_opendir fs (stack_path (ps @ [n])) = Some ns'"
  shows "device_loop fs pg mem (walk_state ps (dirs @ [\<lparr>dir_names = ns, dir_left = n # left\<rparr>]) True m) =
    device_loop fs pg mem (walk_state (ps @ [n])
      ((dirs @ [\<lparr>dir_names = ns, dir_left = left\<rparr>]) @ [\<lparr>dir_names = ns', dir_left = ns'\<rparr>]) False m)"
proof (rule device_loop_silent)
  obtain acc w nx where m: "m = (acc, w, nx)" by (cases m)
  show "device_step fs pg mem (walk_state ps (dirs @ [\<lparr>dir_names = ns, dir_left = n # left\<rparr>]) True m) =
      (None, walk_state (ps @ [n])
        ((dirs @ [\<lparr>dir_names = ns, dir_left = left\<rparr>]) @ [\<lparr>dir_names = ns', dir_left = ns'\<rparr>]) False m)"
    using assms by (simp add: device_step_def go_next_dir_def walk_state_def m opendir_on_stack_def opendir_def
        del: next_subdir.simps stack_path_snoc)
qed

lemma walk_leave:
  "device_loop fs pg mem (walk_state ps (dirs @ [\<lparr>dir_names = ns, dir_left = []\<rparr>]) True m) =
   device_loop fs pg mem (walk_state (butlast ps) dirs True m)"
proof (rule device_loop_silent)
  obtain acc w nx where m: "m = (acc, w, nx)" by (cases m)
  show "device_step fs pg mem (walk_state ps (dirs @ [\<lparr>dir_names = ns, dir_left = []\<rparr>]) True m) =
      (None, walk_state (butlast ps) dirs True m)"
    by (simp add: device_step_def go_next_dir_def walk_state_def m)
qed

text \<open>The walk through the names of a directory, given the walks of its subdirectories.\<close>

definition visits :: "os_files \<Rightarrow> u32 \<Rightarrow> string \<Rightarrow> string list \<Rightarrow> string \<Rightarrow> fs_node \<Rightarrow> bool" where
  "visits fs pg mem ps n c \<longleftrightarrow>
     (\<forall>ns es dirs m. c = Dir_node es \<and> os_opendir fs (stack_path (ps @ [n])) = Some ns \<longrightarrow>
       device_loop fs pg mem (walk_state (ps @ [n]) (dirs @ [\<lparr>dir_names = ns, dir_left = ns\<rparr>]) False m) =
       device_loop fs pg mem (walk_state ps dirs True (make_all (node_devices pg mem n c) m)))"

lemma walk_entries:
  assumes "dir_at fs ps ns es" "\<forall>e \<in> set es. visits fs pg mem ps (fst e) (snd e)"
    and "set left \<subseteq> set ns" "filter (\<lambda>n. n \<noteq> ''.'' \<and> n \<noteq> ''..'') left = map fst es'" "set es' \<subseteq> set es"
  shows "device_loop fs pg mem (walk_state ps (dirs @ [\<lparr>dir_names = ns, dir_left = left\<rparr>]) True m) =
    device_loop fs pg mem (walk_state (butlast ps) dirs True
      (make_all (concat (map (\<lambda>e. node_devices pg mem (fst e) (snd e)) es')) m))"
  using assms(3-5)
proof (induction left arbitrary: es' m)
  case Nil
  then show ?case by (simp add: walk_leave)
next
  case (Cons n left)
  show ?case
  proof (cases "n = ''.'' \<or> n = ''..''")
    case True
    then show ?thesis using Cons.IH [of es' m] Cons.prems by (subst walk_skip [OF assms(1)]) auto
  next
    case False
    then obtain c es'' where es': "es' = (n, c) # es''" "filter (\<lambda>n. n \<noteq> ''.'' \<and> n \<noteq> ''..'') left = map fst es''"
      using Cons.prems(2) by (cases es') auto
    have c: "map_of es n = Some c"
      using Cons.prems(3) es'(1) dir_at_names(2) [OF assms(1)] by (simp add: map_of_eq_Some_iff)
    have isdir: "path_is_dir fs ps n = Inr (\<exists>ds. c = Dir_node ds)"
      using dir_at_stat(2) [OF assms(1), of n] Cons.prems(1) False c by simp
    have rest: "device_loop fs pg mem (walk_state ps (dirs @ [\<lparr>dir_names = ns, dir_left = left\<rparr>]) True m') =
        device_loop fs pg mem (walk_state (butlast ps) dirs True
          (make_all (concat (map (\<lambda>e. node_devices pg mem (fst e) (snd e)) es'')) m'))" for m'
      using Cons.IH [of es'' m'] Cons.prems es' by simp
    show ?thesis
    proof (cases "\<exists>ds. c = Dir_node ds")
      case True
      then obtain ds where ds: "c = Dir_node ds" by blast
      have ps: "ps \<noteq> []" using assms(1) by (simp add: dir_at_def)
      obtain ns' where ns': "os_opendir fs (stack_path (ps @ [n])) = Some ns'"
        using dir_at_child(1) [OF assms(1) c] ps ds by (auto split: option.splits)
      have "visits fs pg mem ps n c" using assms(2) Cons.prems(3) es'(1) by auto
      then have "device_loop fs pg mem (walk_state (ps @ [n]) ((dirs @ [\<lparr>dir_names = ns, dir_left = left\<rparr>]) @
            [\<lparr>dir_names = ns', dir_left = ns'\<rparr>]) False m) =
          device_loop fs pg mem (walk_state ps (dirs @ [\<lparr>dir_names = ns, dir_left = left\<rparr>]) True
            (make_all (node_devices pg mem n c) m))"
        using ds ns' unfolding visits_def by blast
      moreover have "next_subdir fs ps (n # left) = Inr (Some n, left)" using isdir True False by simp
      ultimately show ?thesis
        using rest [of "make_all (node_devices pg mem n c) m"] es'(1) by (simp add: walk_enter ns' make_all_append)
    next
      case nodir: False
      then have "node_devices pg mem n c = []" by (cases c) auto
      then show ?thesis using rest [of m] es'(1) isdir nodir False Cons.prems(1) by (subst walk_skip [OF assms(1)]) simp_all
    qed
  qed
qed

lemma visits_all:
  "fs_holds fs (stack_path (ps @ [n])) c \<Longrightarrow> ps \<noteq> [] \<Longrightarrow> compat_parses c \<Longrightarrow> visits fs pg mem ps n c"
proof (induction c arbitrary: ps n)
  case (Dir_node es)
  have "device_loop fs pg mem (walk_state (ps @ [n]) (dirs @ [\<lparr>dir_names = ns, dir_left = ns\<rparr>]) False m) =
      device_loop fs pg mem (walk_state ps dirs True (make_all (node_devices pg mem n (Dir_node es)) m))"
    if "os_opendir fs (stack_path (ps @ [n])) = Some ns" for ns dirs m
  proof -
    have dir: "dir_at fs (ps @ [n]) ns es" using Dir_node.prems(1) that by (simp only: dir_at_def) simp
    have "\<forall>e \<in> set es. visits fs pg mem (ps @ [n]) (fst e) (snd e)"
    proof
      fix e assume e: "e \<in> set es"
      obtain m c where mc: "e = (m, c)" by (cases e)
      have "fs_holds fs (stack_path ((ps @ [n]) @ [m])) c"
        using Dir_node.prems(1,2) e mc by (auto simp del: append_assoc)
      then show "visits fs pg mem (ps @ [n]) (fst e) (snd e)"
        using Dir_node.IH [of e c "ps @ [n]" m] Dir_node.prems(3) e mc by (auto simp: snds.simps)
    qed
    then have "device_loop fs pg mem (walk_state (ps @ [n]) (dirs @ [\<lparr>dir_names = ns, dir_left = ns\<rparr>]) True m') =
        device_loop fs pg mem (walk_state ps dirs True
          (make_all (concat (map (\<lambda>e. node_devices pg mem (fst e) (snd e)) es)) m'))" for m'
      using walk_entries [OF dir _ order_refl dir_at_names(1) [OF dir] order_refl, of pg mem dirs m'] by simp
    then show ?thesis
      using examine_dir [OF dir _ Dir_node.prems(3), of pg mem dirs m] Dir_node.prems(2) by (simp add: make_all_append)
  qed
  then show ?case by (simp only: visits_def) auto
qed (simp_all add: visits_def)


section \<open>The constructor\<close>

text \<open>\<open>std::sort\<close>: a permutation in the order of the keys.\<close>

definition sorts :: "((nat \<Rightarrow> u32) \<Rightarrow> nat list \<Rightarrow> nat list) \<Rightarrow> bool" where
  "sorts srt \<longleftrightarrow> (\<forall>f xs. mset (srt f xs) = mset xs \<and> sorted (map f (srt f xs)))"

definition tree_devices :: "u32 \<Rightarrow> string \<Rightarrow> (string \<times> fs_node) list \<Rightarrow> hwio_device_mmap list" where
  "tree_devices page_size mem_path es = concat (map (\<lambda>e. node_devices page_size mem_path (fst e) (snd e)) es)"

lemma walk_tree:
  assumes "fs_holds fs path (Dir_node es)" "file_of es ''reg'' = None" "compat_parses (Dir_node es)"
    and "os_opendir fs path = Some ns"
  shows "device_loop fs pg mem (walk_state [path] [\<lparr>dir_names = ns, dir_left = ns\<rparr>] False m) =
    Some (Inr (), walk_state [] [] True (make_all (tree_devices pg mem es) m))"
proof -
  have dir: "dir_at fs ([] @ [path]) ns es" using assms(1,4) by (simp add: dir_at_def)
  have "\<forall>e \<in> set es. visits fs pg mem [path] (fst e) (snd e)"
  proof
    fix e assume "e \<in> set es"
    then have "fs_holds fs (stack_path ([path] @ [fst e])) (snd e)" "compat_parses (snd e)"
      using assms(1,3) by auto
    then show "visits fs pg mem [path] (fst e) (snd e)" by (intro visits_all) simp_all
  qed
  then have "device_loop fs pg mem (walk_state [path] [\<lparr>dir_names = ns, dir_left = ns\<rparr>] True m') =
      device_loop fs pg mem (walk_state [] [] True (make_all (tree_devices pg mem es) m'))" for m'
    using walk_entries [OF dir _ order_refl dir_at_names(1) [OF dir] order_refl, of pg mem "[]" m']
    by (simp add: tree_devices_def)
  then show ?thesis
    using examine_dir [OF dir _ assms(3), of pg mem "[]" m] assms(2)
    by (simp add: device_loop_end dir_device_def)
qed

lemma devicetree_ctor_ok:
  assumes "sorts srt" "fs_holds fs path (Dir_node es)" "file_of es ''reg'' = None" "compat_parses (Dir_node es)"
  shows "\<exists>b. hwio_bus_devicetree_ctor srt fs pg path mem w nx = Some (Inr (), b) \<and>
    mset (map (dev_heap (dt_world b)) (all_devices b)) = mset (map Some (tree_devices pg mem es)) \<and>
    distinct (all_devices b) \<and> sorted (map (dev_addr (dt_world b)) (all_devices b)) \<and>
    same_memory w (dt_world b) \<and> (\<forall>d < nx. dev_heap (dt_world b) d = dev_heap w d)"
proof -
  let ?dvs = "tree_devices pg mem es"
  obtain ns where ns: "os_opendir fs path = Some ns" using assms(2) by (auto split: option.splits)
  obtain acc w' nx' where m: "make_all ?dvs ([], w, nx) = (acc, w', nx')" by (cases "make_all ?dvs ([], w, nx)")
  note made = make_all_result [OF m]
  let ?all = "srt (dev_addr w') [nx..<nx + length ?dvs]"
  have perm: "mset ?all = mset [nx..<nx + length ?dvs]" and sorted: "sorted (map (dev_addr w') ?all)"
    using assms(1) by (simp_all add: sorts_def)
  have "device_loop fs pg mem \<lparr>path_stack = [path], dir_stack = [\<lparr>dir_names = ns, dir_left = ns\<rparr>],
        top_dir_checked_for_dev = False, all_devices = [], dt_world = w, dt_next = nx\<rparr> =
      Some (Inr (), walk_state [] [] True (make_all ?dvs ([], w, nx)))"
    using walk_tree [OF assms(2-4) ns, of pg mem "([], w, nx)"] by (simp add: walk_state_def)
  then have "hwio_bus_devicetree_ctor srt fs pg path mem w nx = Some (Inr (),
      \<lparr>path_stack = [], dir_stack = [], top_dir_checked_for_dev = True, all_devices = ?all, dt_world = w', dt_next = nx'\<rparr>)"
    using made by (simp add: hwio_bus_devicetree_ctor_def opendir_def ns m) (simp add: walk_state_def)
  moreover have "mset (map (dev_heap w') ?all) = mset (map (dev_heap w') [nx..<nx + length ?dvs])"
    using perm by (simp only: mset_map)
  moreover have "map (dev_heap w') [nx..<nx + length ?dvs] = map Some ?dvs"
    using made by (intro nth_equalityI) simp_all
  moreover have "distinct ?all" using mset_eq_imp_distinct_iff [OF perm] by simp
  ultimately show ?thesis using made sorted by auto
qed


text \<open>A file system given by a table of its paths, and a small tree in it.\<close>

definition table_fs :: "(string \<times> fs_node) list \<Rightarrow> os_files" where
  "table_fs t =
     \<lparr>os_stat = (\<lambda>p. case map_of t p of
          None \<Rightarrow> if last p = CHR ''.'' then Some Directory else None
        | Some (Reg_file bs) \<Rightarrow> Some Regular
        | Some (Dir_node es) \<Rightarrow> Some Directory
        | Some Other_node \<Rightarrow> Some Other_file),
      os_opendir = (\<lambda>p. case map_of t p of Some (Dir_node es) \<Rightarrow> Some (''.'' # ''..'' # map fst es) | _ \<Rightarrow> None),
      os_fopen = (\<lambda>p. case map_of t p of
          Some (Reg_file bs) \<Rightarrow> Some \<lparr>fstat_size = Some (length bs), file_data = bs\<rparr> | _ \<Rightarrow> None)\<rparr>"

definition demo_uart :: "(string \<times> fs_node) list" where
  "demo_uart = [(''compatible'', Reg_file (map char_byte (''uart'' @ [CHR 0x00]))),
                (''reg'', Reg_file [0x44, 0xA0, 0, 0, 0, 0, 0x10, 0])]"

definition demo_soc :: "(string \<times> fs_node) list" where
  "demo_soc = [(''uart'', Dir_node demo_uart), (''mem'', Dir_node [(''reg'', Reg_file [0x10, 0, 0, 0, 0, 1, 0, 0])])]"

definition demo_root :: "(string \<times> fs_node) list" where
  "demo_root = [(''model'', Reg_file []), (''soc'', Dir_node demo_soc), (''link'', Other_node)]"

definition demo_fs :: os_files where
  "demo_fs = table_fs
     [(''/dt'', Dir_node demo_root), (''/dt/model'', Reg_file []), (''/dt/link'', Other_node),
      (''/dt/soc'', Dir_node demo_soc),
      (''/dt/soc/uart'', Dir_node demo_uart), (''/dt/soc/uart/compatible'', snd (demo_uart ! 0)),
      (''/dt/soc/uart/reg'', snd (demo_uart ! 1)),
      (''/dt/soc/mem'', Dir_node [(''reg'', Reg_file [0x10, 0, 0, 0, 0, 1, 0, 0])]),
      (''/dt/soc/mem/reg'', Reg_file [0x10, 0, 0, 0, 0, 1, 0, 0])]"

lemma demo_fs_holds: "fs_holds demo_fs ''/dt'' (Dir_node demo_root)"
  by (simp add: demo_fs_def table_fs_def demo_root_def demo_soc_def demo_uart_def)

lemma demo_tree_ok: "file_of demo_root ''reg'' = None" "compat_parses (Dir_node demo_root)"
proof -
  show "file_of demo_root ''reg'' = None" by (simp add: demo_root_def file_of_def)
  have "compat_strings demo_uart = [''uart'']"
    using compat_loop_join [of "[''uart'']"] by (simp add: compat_strings_def demo_uart_def file_of_def no_nul_def)
  moreover have "hwio_comp_spec_parse ''uart'' = Inr (hwio_comp_spec_default\<lparr>spec_type := ''uart''\<rparr>)"
    by (simp add: hwio_comp_spec_parse_def)
  ultimately show "compat_parses (Dir_node demo_root)"
    by (simp add: demo_root_def demo_soc_def) (simp add: file_of_def compat_strings_def demo_uart_def)
qed



text \<open>The reference on the example: two devices, one inside the other's sibling directory.\<close>

lemma demo_tree_devices:
  "map on_bus_base_addr (tree_devices 4096 ''/dev/mem'' demo_root) = [0x44A00000, 0x10000000]"
  "map M_name (tree_devices 4096 ''/dev/mem'' demo_root) = [''uart'', ''mem'']"
  by (simp_all add: tree_devices_def demo_root_def demo_soc_def demo_uart_def dir_device_def file_of_def
      mmap_name_set_def hwio_device_mmap_ctor_def Let_def be_dec_def)

section \<open>From the device tree to memory\<close>

lemma tree_devices_ctor:
  assumes "dv \<in> set (node_devices pg mem n c)"
  shows "\<exists>m specs base sz. dv = mmap_name_set m (hwio_device_mmap_ctor pg specs base sz mem)"
  using assms
proof (induction c arbitrary: n)
  case (Dir_node es)
  then consider "dv \<in> set (dir_device pg mem n es)"
    | e where "e \<in> set es" "dv \<in> set (node_devices pg mem (fst e) (snd e))" by auto
  then show ?case
  proof cases
    case 1
    then show ?thesis by (auto simp: dir_device_def split: option.splits if_splits)
  next
    case 2
    then show ?thesis using Dir_node.IH [of e "snd e" "fst e"] by (cases e) (auto simp: snds.simps)
  qed
qed simp_all

lemma tree_device_fields:
  assumes "dv \<in> set (tree_devices pg mem es)" "pg = 2 ^ k" "k < 32"
  shows "mm_fd dv = - 1" "mem_file_name dv = mem" "unat (page_addr dv) + unat (page_offset dv) = unat (on_bus_base_addr dv)"
    "unat (page_offset dv) + unat (on_bus_size dv) \<le> addr_space_size dv"
proof -
  obtain e where "dv \<in> set (node_devices pg mem (fst e) (snd e))" using assms(1) by (auto simp: tree_devices_def)
  then obtain m specs base sz where ctor: "dv = mmap_name_set m (hwio_device_mmap_ctor pg specs base sz mem)"
    using tree_devices_ctor by blast
  show fields: "mm_fd dv = - 1" "mem_file_name dv = mem"
    by (simp_all add: ctor mmap_name_set_def hwio_device_mmap_ctor_def Let_def)
  have "on_bus_base_addr dv = base" by (simp add: ctor mmap_name_set_def hwio_device_mmap_ctor_def Let_def)
  then show "unat (page_addr dv) + unat (page_offset dv) = unat (on_bus_base_addr dv)"
      "unat (page_offset dv) + unat (on_bus_size dv) \<le> addr_space_size dv"
    using ctor_window [OF assms(2,3) refl, of specs base sz mem] by (simp_all add: ctor mmap_name_set_def)
qed

lemma tree_device_read:
  assumes "dv \<in> set (tree_devices pg mem es)" "dev_heap w d = Some dv" "pg = 2 ^ k" "k < 32"
    and "0 < os_open w mem" "os_mmap w mem = (\<lambda>_ _. True)"
    and "unat off + n \<le> unat (on_bus_size dv)" "n \<le> acap dst"
  shows "\<exists>w' dst'. mmap_attach d w = (Inr (), w') \<and> dev_read mmap_ops d off dst 0 n w' = (Inr (), dst', w') \<and>
    abytes dst' 0 n = mem_range (mem_files w mem) (unat (on_bus_base_addr dv) + unat off) n"
proof -
  let ?bs = "mem_range (mem_files w mem) (unat (on_bus_base_addr dv) + unat off) n"
  note dv = tree_device_fields [OF assms(1,3,4)]
  have os: "0 < os_open w (mem_file_name dv)" "os_mmap w (mem_file_name dv) (addr_space_size dv) (unat (page_addr dv))"
    "0 + n \<le> acap dst"
    using assms(5,6,8) dv(2) by simp_all
  obtain w' where "mmap_attach d w = (Inr (), w')"
      "dev_read mmap_ops d off dst 0 n w' = (Inr (), dst\<lparr>aget := mem_store (aget dst) 0 ?bs\<rparr>, w')"
    using mmap_fresh_read [OF assms(2) dv(1,4) os(1,2) dv(3) assms(7) os(3)] dv(2) by auto
  moreover have "abytes (dst\<lparr>aget := mem_store (aget dst) 0 ?bs\<rparr>) 0 n = ?bs" using abytes_stored [of dst 0 ?bs] by simp
  ultimately show ?thesis by blast
qed

text \<open>
  C17: a device found in a device tree, attached and read, delivers the bytes of the memory file at
  the base address its file \<open>reg\<close> gives, for every range inside the size given there.
\<close>

theorem devicetree_device_reads_memory:
  assumes "sorts srt" "fs_holds fs path (Dir_node es)" "file_of es ''reg'' = None" "compat_parses (Dir_node es)"
    and "pg = 2 ^ k" "k < 32" "0 < os_open w mem" "os_mmap w mem = (\<lambda>_ _. True)"
  shows "\<exists>b. hwio_bus_devicetree_ctor srt fs pg path mem w nx = Some (Inr (), b) \<and>
    length (all_devices b) = length (tree_devices pg mem es) \<and>
    list_all (\<lambda>d. \<exists>dv. dev_heap (dt_world b) d = Some dv \<and> dv \<in> set (tree_devices pg mem es) \<and>
      (\<forall>off n dst. unat off + n \<le> unat (on_bus_size dv) \<and> n \<le> acap dst \<longrightarrow>
        (\<exists>w' dst'. mmap_attach d (dt_world b) = (Inr (), w') \<and>
          dev_read mmap_ops d off dst 0 n w' = (Inr (), dst', w') \<and>
          abytes dst' 0 n = mem_range (mem_files w mem) (unat (on_bus_base_addr dv) + unat off) n))) (all_devices b)"
proof -
  let ?dvs = "tree_devices pg mem es"
  obtain b where b: "hwio_bus_devicetree_ctor srt fs pg path mem w nx = Some (Inr (), b)"
      "mset (map (dev_heap (dt_world b)) (all_devices b)) = mset (map Some ?dvs)" "same_memory w (dt_world b)"
    using devicetree_ctor_ok [OF assms(1-4)] by blast
  have os: "0 < os_open (dt_world b) mem" "os_mmap (dt_world b) mem = (\<lambda>_ _. True)" "mem_files (dt_world b) = mem_files w"
    using b(3) assms(7,8) by (simp_all add: same_memory_def)
  have "dev_heap (dt_world b) d \<in> set (map Some ?dvs)" if "d \<in> set (all_devices b)" for d
    using that arg_cong [OF b(2), of set_mset] by auto
  moreover have "length (all_devices b) = length ?dvs"
    using arg_cong [OF b(2), of size] by simp
  ultimately show ?thesis
    using b(1) tree_device_read [OF _ _ assms(5,6) os(1,2)] unfolding os(3) by (fastforce simp: list_all_iff)
qed

theorem devicetree_device_reads_memory_witness:
  "\<exists>b. hwio_bus_devicetree_ctor sort_key demo_fs 4096 ''/dt'' ''/dev/mem'' (demo_world demo_dev True) 1 = Some (Inr (), b) \<and>
    length (all_devices b) = 2 \<and>
    list_all (\<lambda>d. \<exists>w' dst'. mmap_attach d (dt_world b) = (Inr (), w') \<and>
      dev_read mmap_ops d 8 \<lparr>acap = 4, aget = (\<lambda>_. 7)\<rparr> 0 4 w' = (Inr (), dst', w') \<and>
      abytes dst' 0 4 = mem_range (\<lambda>_. 0) 0 4) (all_devices b)"
proof -
  let ?w = "demo_world demo_dev True" and ?dst = "\<lparr>acap = 4, aget = (\<lambda>_. 7)\<rparr> :: carray"
  have os: "sorts sort_key" "(4096 :: u32) = 2 ^ 12" "(12 :: nat) < 32" "0 < os_open ?w ''/dev/mem''"
      "os_mmap ?w ''/dev/mem'' = (\<lambda>_ _. True)" "mem_files ?w ''/dev/mem'' = (\<lambda>_. 0)"
    by (simp_all add: sorts_def demo_world_def fun_eq_iff)
  obtain b where b: "hwio_bus_devicetree_ctor sort_key demo_fs 4096 ''/dt'' ''/dev/mem'' ?w 1 = Some (Inr (), b)"
      "length (all_devices b) = length (tree_devices 4096 ''/dev/mem'' demo_root)"
      "list_all (\<lambda>d. \<exists>dv. dev_heap (dt_world b) d = Some dv \<and> dv \<in> set (tree_devices 4096 ''/dev/mem'' demo_root) \<and>
        (\<forall>off n dst. unat off + n \<le> unat (on_bus_size dv) \<and> n \<le> acap dst \<longrightarrow>
          (\<exists>w' dst'. mmap_attach d (dt_world b) = (Inr (), w') \<and>
            dev_read mmap_ops d off dst 0 n w' = (Inr (), dst', w') \<and>
            abytes dst' 0 n = mem_range (mem_files ?w ''/dev/mem'') (unat (on_bus_base_addr dv) + unat off) n))) (all_devices b)"
    using devicetree_device_reads_memory [OF os(1) demo_fs_holds demo_tree_ok os(2-5)] by blast
  have sizes: "map (unat \<circ> on_bus_size) (tree_devices 4096 ''/dev/mem'' demo_root) = [0x1000, 0x10000]"
    by (simp add: tree_devices_def demo_root_def demo_soc_def demo_uart_def dir_device_def file_of_def
        mmap_name_set_def hwio_device_mmap_ctor_def Let_def be_dec_def)
  have big: "12 \<le> unat (on_bus_size dv)" if "dv \<in> set (tree_devices 4096 ''/dev/mem'' demo_root)" for dv
  proof -
    have "unat (on_bus_size dv) \<in> set (map (unat \<circ> on_bus_size) (tree_devices 4096 ''/dev/mem'' demo_root))"
      using that by simp
    then show ?thesis unfolding sizes by auto
  qed
  have "mem_range (\<lambda>_. 0 :: byte) i n = mem_range (\<lambda>_. 0) 0 n" for i n
    by (simp add: mem_range_def map_replicate_const)
  then have "\<exists>w' dst'. mmap_attach d (dt_world b) = (Inr (), w') \<and>
      dev_read mmap_ops d 8 ?dst 0 4 w' = (Inr (), dst', w') \<and> abytes dst' 0 4 = mem_range (\<lambda>_. 0) 0 4"
    if d: "d \<in> set (all_devices b)" for d
  proof -
    obtain dv where dv: "dv \<in> set (tree_devices 4096 ''/dev/mem'' demo_root)"
        "\<forall>off n dst. unat off + n \<le> unat (on_bus_size dv) \<and> n \<le> acap dst \<longrightarrow>
          (\<exists>w' dst'. mmap_attach d (dt_world b) = (Inr (), w') \<and>
            dev_read mmap_ops d off dst 0 n w' = (Inr (), dst', w') \<and>
            abytes dst' 0 n = mem_range (mem_files ?w ''/dev/mem'') (unat (on_bus_base_addr dv) + unat off) n)"
      using b(3) d by (auto simp: list_all_iff)
    have "unat (8 :: u32) + 4 \<le> unat (on_bus_size dv)" "4 \<le> acap ?dst" using big [OF dv(1)] by simp_all
    then obtain w' dst' where "mmap_attach d (dt_world b) = (Inr (), w')"
        "dev_read mmap_ops d 8 ?dst 0 4 w' = (Inr (), dst', w')"
        "abytes dst' 0 4 = mem_range (mem_files ?w ''/dev/mem'') (unat (on_bus_base_addr dv) + unat (8 :: u32)) 4"
      using dv(2) by blast
    then show ?thesis
      using os(6) \<open>\<And>n i. mem_range (\<lambda>_. 0 :: byte) i n = mem_range (\<lambda>_. 0) 0 n\<close> by metis
  qed
  moreover have "length (all_devices b) = 2"
    using b(2) arg_cong [OF sizes, of length] by simp
  ultimately show ?thesis using b(1) by (auto simp: list_all_iff)
qed

section \<open>The files of a device, written and read back\<close>

lemma be_dec_rev_enc32: "be_dec (rev (enc32 x)) = unat x"
  using unat_less_pow [of x] by (simp add: be_dec_rev enc32_def le_dec_le_enc)

text \<open>
  C23: a file \<open>reg\<close> with a base and a size in big-endian order and a file \<open>compatible\<close> with
  NUL-terminated strings, as the kernel presents them, are read back exactly; any other length of
  \<open>reg\<close> is a format error.
\<close>

theorem device_files_roundtrip:
  assumes "ps \<noteq> []" "n \<noteq> []" "os_fopen fs (stack_path ps @ ''/'' @ n) = Some \<lparr>fstat_size = Some (length bs), file_data = bs\<rparr>"
  shows "(bs = rev (enc32 base) @ rev (enc32 sz) \<longrightarrow> dev_parse_reg fs ps n = Inr (base, sz)) \<and>
    (length bs \<noteq> 8 \<longrightarrow> dev_parse_reg fs ps n = Inl (Throw Device_tree_format_err)) \<and>
    (list_all no_nul css \<and> bs = map char_byte (concat (map (\<lambda>c. c @ [CHR 0x00]) css)) \<longrightarrow>
       dev_parse_compat fs ps n = Inr css)"
proof -
  have opened: "path_fopen fs ps n = Inr \<lparr>fstat_size = Some (length bs), file_data = bs\<rparr>"
    using assms by (simp add: path_fopen_def)
  have rev: "reverse_endianity (dec32 (rev (enc32 x) @ cs)) = x" for x cs
    using reverse_endianity_le [of "rev (enc32 x) @ cs"] by (simp add: be_dec_rev_enc32 word_unat_eq_iff)
  have "dev_parse_reg fs ps n = Inr (base, sz)" if "bs = rev (enc32 base) @ rev (enc32 sz)"
    using rev [of base "rev (enc32 sz)"] rev [of sz "[]"] that
    by (simp add: dev_parse_reg_def opened read_and_close_def file_read_def)
  moreover have "dev_parse_reg fs ps n = Inl (Throw Device_tree_format_err)" if "length bs \<noteq> 8"
    using that by (simp add: dev_parse_reg_def opened read_and_close_def file_read_def)
  moreover have "dev_parse_compat fs ps n = Inr css"
    if "list_all no_nul css" "bs = map char_byte (concat (map (\<lambda>c. c @ [CHR 0x00]) css))"
    using compat_loop_join [OF that(1)] that(2)
    by (simp add: dev_parse_compat_def opened read_and_close_def file_read_def map_concat comp_def)
  ultimately show ?thesis by blast
qed

theorem device_files_roundtrip_witness:
  "dev_parse_reg demo_fs [''/dt'', ''soc'', ''uart''] ''reg'' = Inr (0x44A00000, 0x1000) \<and>
   dev_parse_compat demo_fs [''/dt'', ''soc'', ''uart''] ''compatible'' = Inr [''uart'']"
proof
  have enc: "[0x44, 0xA0, 0, 0, 0, 0, 0x10, 0] = rev (enc32 0x44A00000) @ rev (enc32 0x1000)"
    by (simp add: enc32_def le_enc_2_4)
  show "dev_parse_reg demo_fs [''/dt'', ''soc'', ''uart''] ''reg'' = Inr (0x44A00000, 0x1000)"
    using device_files_roundtrip [of "[''/dt'', ''soc'', ''uart'']" "''reg''" demo_fs
        "[0x44, 0xA0, 0, 0, 0, 0, 0x10, 0]" "0x44A00000" "0x1000" "[]"] enc
    by (simp add: demo_fs_def table_fs_def demo_uart_def stack_path_def)
  show "dev_parse_compat demo_fs [''/dt'', ''soc'', ''uart''] ''compatible'' = Inr [''uart'']"
    using device_files_roundtrip [of "[''/dt'', ''soc'', ''uart'']" "''compatible''" demo_fs
        "map char_byte (''uart'' @ [CHR 0x00])" 0 0 "[''uart'']"]
    by (simp add: demo_fs_def table_fs_def demo_uart_def stack_path_def no_nul_def)
qed

end
