(* ===== verification/Hwio_Cli_Laws.thy ===== *)
theory Hwio_Cli_Laws
  imports Hwio_Cli Hwio_Devicetree_Laws
begin

text \<open>What the initialisation of a program needs to succeed, and what it does to the command line.\<close>

section \<open>The copies of the arguments\<close>

lemma copy_argv_blocks:
  "copy_argv argv h = (to_free, h') \<Longrightarrow> length to_free = length argv \<and> dom (str_block h') = dom (str_block h) \<union> set to_free"
  by (induction argv h arbitrary: to_free h' rule: copy_argv.induct) (fastforce simp: strdup_def split: prod.splits)+

lemma free_argv_blocks: "str_block (free_argv to_free h) p = (if p \<in> set to_free then None else str_block h p)"
  unfolding free_argv_def by (induction to_free arbitrary: h) (auto simp: str_free_def)

text \<open>After the copies were freed no pointer into the arguments can be followed.\<close>

lemma freed_argv_dangles:
  assumes "copy_argv argv no_strings = (to_free, h)"
  shows "with_str (free_argv to_free h) p f s = Some (Inl (Undefined Use_after_free), s)"
proof -
  have "str_block (free_argv to_free h) q = None" for q
    using copy_argv_blocks [OF assms] by (auto simp: free_argv_blocks no_strings_def)
  then show ?thesis by (simp add: with_str_def str_at_def split: prod.split)
qed

lemma init_leftover_freed:
  assumes "copy_argv argv no_strings = (to_free, h)" "in_devicetree i \<noteq> None"
  shows "init_leftover env (free_argv to_free h) i s = Some (Inl (Undefined Use_after_free), s)"
  using assms(2) by (auto simp: init_leftover_def push_devicetree_def freed_argv_dangles [OF assms(1)])

section \<open>The option loop\<close>

lemma with_str_Inr: "with_str h p f s = Some (Inr x, s') \<Longrightarrow> \<exists>a. f a s = Some (Inr x, s')"
  by (auto simp: with_str_def split: sum.splits)

lemma init_push_Inr:
  "init_push new i s = Some (Inr i', s') \<Longrightarrow> \<exists>b. i' = i\<lparr>in_buses := in_buses i @ [b]\<rparr>"
  by (auto simp: init_push_def split: option.splits sum.splits prod.splits)

lemma push_devicetree_Inr:
  "push_devicetree env h p i s = Some (Inr i', s') \<Longrightarrow> \<exists>b. i' = i\<lparr>in_buses := in_buses i @ [b]\<rparr>"
  by (auto simp: push_devicetree_def dest!: with_str_Inr init_push_Inr split: option.splits)

lemma init_option_devicetree:
  assumes "init_option env h opt optarg i s = Some (Inr i', s')" "in_devicetree i \<noteq> None \<or> opt = CHR ''d''"
  shows "in_devicetree i' \<noteq> None"
  using assms
  by (auto simp: init_option_def dest!: init_push_Inr push_devicetree_Inr split: if_splits option.splits sum.splits prod.splits)

lemma init_loop_devicetree:
  "init_loop env h opts i s = Some (Inr i', s') \<Longrightarrow> in_devicetree i \<noteq> None \<or> CHR ''d'' \<in> fst ` set opts \<Longrightarrow>
   in_devicetree i' \<noteq> None"
proof (induction env h opts i s rule: init_loop.induct)
  case (2 env h opt optarg opts i s)
  then obtain i1 s1 where step: "init_option env h opt optarg i s = Some (Inr i1, s1)"
      "init_loop env h opts i1 s1 = Some (Inr i', s')"
    by (auto split: option.splits sum.splits prod.splits)
  have "in_devicetree i1 \<noteq> None \<or> CHR ''d'' \<in> fst ` set opts"
    using init_option_devicetree [OF step(1)] "2.prems"(2) by auto
  then show ?case using "2.IH" [OF step(1) refl refl step(2)] by blast
qed auto

text \<open>Without a configuration and a device tree each bus option adds one bus.\<close>

definition bus_options :: "(char \<times> str_ptr) list \<Rightarrow> nat" where
  "bus_options opts = length (filter (\<lambda>o'. fst o' = CHR ''r'' \<or> fst o' = CHR ''j'') opts)"

lemma init_option_buses:
  assumes "init_option env h opt optarg i s = Some (Inr i', s')" "opt \<noteq> CHR ''c''" "opt \<noteq> CHR ''d''"
  shows "config_specified i' = config_specified i" "length (in_buses i') = length (in_buses i) + bus_options [(opt, optarg)]"
  using assms
  by (auto simp: init_option_def bus_options_def dest!: init_push_Inr split: if_splits option.splits sum.splits prod.splits)

lemma init_loop_buses:
  "init_loop env h opts i s = Some (Inr i', s') \<Longrightarrow> CHR ''c'' \<notin> fst ` set opts \<Longrightarrow> CHR ''d'' \<notin> fst ` set opts \<Longrightarrow>
   config_specified i' = config_specified i \<and> length (in_buses i') = length (in_buses i) + bus_options opts"
proof (induction env h opts i s rule: init_loop.induct)
  case (2 env h opt optarg opts i s)
  then obtain i1 s1 where step: "init_option env h opt optarg i s = Some (Inr i1, s1)"
      "init_loop env h opts i1 s1 = Some (Inr i', s')"
    by (auto split: option.splits sum.splits prod.splits)
  have opt: "opt \<noteq> CHR ''c''" "opt \<noteq> CHR ''d''" using "2.prems"(2,3) by auto
  show ?case
    using "2.IH" [OF step(1) refl refl step(2)] "2.prems"(2,3) init_option_buses [OF step(1) opt]
    by (simp add: bus_options_def)
qed (simp add: bus_options_def)

text \<open>
  C26: the initialisation returns a bus only if no device tree was named on the command line; and
  unless a configuration file was named, only if a default configuration was loaded as well, with
  exactly one bus in it and on the command line together. So \<open>--hwio_devicetree\<close> never works, and
  \<open>--hwio_remote\<close> or \<open>--hwio_json\<close> alone work only with a default configuration without buses.
\<close>

theorem hwio_init_success:
  assumes "hwio_init env getopt_long argv s = Some (Inr b, args, s')"
    and "opts = getopt_long (zip (fst (copy_argv argv no_strings)) argv)"
  shows "CHR ''d'' \<notin> fst ` set opts \<and>
    (CHR ''c'' \<notin> fst ` set opts \<longrightarrow>
      (\<exists>s1 bs. hwio_load_default_config env s1 = Some (Inr bs, s') \<and> bus_options opts + length bs = 1))"
proof -
  let ?start = "\<lparr>in_buses = [], in_devicetree = None, in_device_mem = None, config_specified = False\<rparr>"
  obtain to_free h where copy: "copy_argv argv no_strings = (to_free, h)" by fastforce
  obtain i s1 where i: "init_loop env h opts ?start s = Some (Inr i, s1)"
    using assms copy by (auto simp: hwio_init_def Let_def split: option.splits sum.splits prod.splits)
  have tree: "in_devicetree i = None"
  proof (rule ccontr)
    assume "in_devicetree i \<noteq> None"
    then show False using assms copy i init_leftover_freed [OF copy] by (auto simp: hwio_init_def Let_def)
  qed
  then have left: "init_leftover env (free_argv to_free h) i s1 = Some (Inr i, s1)" by (simp add: init_leftover_def)
  have d: "CHR ''d'' \<notin> fst ` set opts" using init_loop_devicetree [OF i] tree by auto
  moreover have "\<exists>s1 bs. hwio_load_default_config env s1 = Some (Inr bs, s') \<and> bus_options opts + length bs = 1"
    if c: "CHR ''c'' \<notin> fst ` set opts"
  proof -
    have loop: "\<not> config_specified i" "length (in_buses i) = bus_options opts"
      using init_loop_buses [OF i c d] by simp_all
    then obtain bs where bs: "hwio_load_default_config env s1 = Some (Inr bs, s')"
        "in_buses i @ bs \<noteq> []" "\<not> 1 < length (in_buses i @ bs)"
      using assms copy i left by (auto simp: hwio_init_def Let_def split: option.splits sum.splits prod.splits if_splits)
    have "length (in_buses i @ bs) = 1" using bs(2,3) by (cases "in_buses i @ bs") simp_all
    then have "bus_options opts + length bs = 1" using loop(2) by simp
    with bs(1) show ?thesis by blast
  qed
  ultimately show ?thesis by blast
qed

text \<open>A program started with a JSON file of no devices, and a default configuration of no buses.\<close>

definition demo_cli_env :: cli_env where
  "demo_cli_env = \<lparr>env_fs = table_fs [(''/root/.hwio/config.json'', Reg_file [])],
     env_json = \<lparr>file_access = (\<lambda>_. True), read_json = (\<lambda>f. Inr (
       if f = ''devs.json'' then PTree [] [(''devices'', PTree [] [])] else PTree [] [(''buses'', PTree [] [])]))\<rparr>,
     env_home = ''/root'', env_sort = sort_key, env_page_size = 4096, env_busy = False,
     env_getaddrinfo = (\<lambda>_ _. (1, None)),
     env_connect = (\<lambda>h. (3, 0, \<lparr>sockfd = 0, orig_addr = h, con_rx = \<lparr>acap = 2048, aget = (\<lambda>_. 0)\<rparr>,
       con_tx = \<lparr>acap = 2048, aget = (\<lambda>_. 0)\<rparr>,
       con_socks = \<lparr>rx_events = (\<lambda>_. []), tx_events = (\<lambda>_. []), tx_data = (\<lambda>_. []), closed_fds = []\<rparr>\<rparr>))\<rparr>"

definition demo_argv :: "string list" where
  "demo_argv = [''prog'', ''--hwio_json'', ''devs.json'']"

text \<open>What \<open>getopt_long\<close> returns for it: the option and a pointer to the copy of its argument.\<close>

definition demo_getopt :: "(nat \<times> string) list \<Rightarrow> (char \<times> str_ptr) list" where
  "demo_getopt args = map (\<lambda>(p, s). (CHR ''j'', p, 0)) (drop 2 args)"

lemma demo_init:
  "\<exists>args. hwio_init demo_cli_env demo_getopt demo_argv (demo_world demo_dev True, 1) =
     Some (Inr (Json_bus []), args, demo_world demo_dev True, 1)"
proof -
  have zero: "stoul16 ''0'' = Inr 0" "cstr ''0'' = ''0''"
    by (simp_all add: stoul16_def hex_val_def hex_digit_def char_class_defs Let_def cstr_def)
  show ?thesis
    by (simp add: hwio_init_def demo_argv_def demo_getopt_def no_strings_def strdup_def with_str_def str_at_def init_leftover_def
        demo_cli_env_def init_option_def init_push_def new_bus_json_def hwio_bus_json_file_def
        load_devices_def pt_get_default_def pt_get_child_def zero hwio_load_default_config_def table_fs_def
        hwio_config_load_def hwio_config_load_tree_def Let_def)
qed

theorem hwio_init_success_witness:
  "\<exists>s1 bs args. hwio_init demo_cli_env demo_getopt demo_argv (demo_world demo_dev True, 1) =
       Some (Inr (Json_bus []), args, demo_world demo_dev True, 1) \<and>
     hwio_load_default_config demo_cli_env s1 = Some (Inr bs, demo_world demo_dev True, 1) \<and>
     bus_options [(CHR ''j'', 2, 0)] + length bs = 1"
proof -
  obtain args where init: "hwio_init demo_cli_env demo_getopt demo_argv (demo_world demo_dev True, 1) =
      Some (Inr (Json_bus []), args, demo_world demo_dev True, 1)"
    using demo_init by blast
  have "[(CHR ''j'', 2, 0)] = demo_getopt (zip (fst (copy_argv demo_argv no_strings)) demo_argv)"
    by (simp add: demo_argv_def demo_getopt_def no_strings_def strdup_def)
  from hwio_init_success [OF init this] init show ?thesis by auto
qed

section \<open>The command line\<close>

lemma consumed_bounds:
  "j \<in> set (consumed_args opts argv i) \<Longrightarrow> i \<le> j \<and> j \<le> length argv"
proof (induction opts argv i rule: consumed_args.induct)
  case (1 opts argv i)
  from "1.prems" show ?case
    by (subst (asm) consumed_args.simps) (use "1.IH" in \<open>force split: if_splits\<close>)
qed

lemma consumed_head:
  "consumed_args opts argv i \<noteq> [] \<Longrightarrow> hd (consumed_args opts argv i) < length argv \<and>
   argv ! hd (consumed_args opts argv i) \<in> set opts"
proof (induction opts argv i rule: consumed_args.induct)
  case (1 opts argv i)
  from "1.prems" show ?case
    by (subst (asm) consumed_args.simps, subst (1 2) consumed_args.simps)
      (use "1.IH" in \<open>simp split: if_splits\<close>)
qed

lemma consumed_sorted: "sorted (consumed_args opts argv i) \<and> distinct (consumed_args opts argv i)"
proof (induction opts argv i rule: consumed_args.induct)
  case (1 opts argv i)
  have "\<forall>j \<in> set (consumed_args opts argv (i + 2)). i + 2 \<le> j"
    using consumed_bounds [of _ opts argv "i + 2"] by blast
  then show ?case
    by (subst (1 2) consumed_args.simps) (use "1.IH" in \<open>force split: if_splits\<close>)
qed


lemma filter_positions:
  assumes "sorted ks" "distinct ks" "list_all (\<lambda>j. j < n) ks"
  shows "filter (\<lambda>i. i \<in> set ks) [0..<n] = ks"
proof (rule sorted_distinct_set_unique)
  show "set (filter (\<lambda>i. i \<in> set ks) [0..<n]) = set ks" using assms(3) by (auto simp: list_all_iff)
qed (use assms(1,2) in \<open>simp_all add: sorted_wrt_filter\<close>)

text \<open>
  C36: the predicate of \<open>remove_if\<close> is inverted: the options of the library and their arguments are
  moved to the front of the command line instead of being removed, and as many arguments are cut off
  its end. As soon as one option was used, the name of the program is replaced by an option.
\<close>

theorem rm_comsumed_args_keeps_options:
  assumes "consumed = consumed_args (reducible_args opts) argv 1" "list_all (\<lambda>j. j < length argv) consumed"
  shows "rm_comsumed_args opts argv = (int (length argv) - int (length consumed),
      map (\<lambda>j. argv ! j) consumed @ drop (length consumed) argv) \<and>
    (consumed \<noteq> [] \<longrightarrow> hd (snd (rm_comsumed_args opts argv)) \<in> set (reducible_args opts))"
proof -
  have "filter (\<lambda>i. i \<in> set consumed) [0..<length argv] = consumed"
    using filter_positions [of consumed "length argv"] consumed_sorted [of "reducible_args opts" argv 1] assms by simp
  then have rm: "rm_comsumed_args opts argv = (int (length argv) - int (length consumed),
      map (\<lambda>j. argv ! j) consumed @ drop (length consumed) argv)"
    unfolding rm_comsumed_args_def std_remove_if_def Let_def assms(1) [symmetric] not_not by simp
  moreover have "hd (map (\<lambda>j. argv ! j) consumed @ zs) \<in> set (reducible_args opts)" if "consumed \<noteq> []" for zs
    using consumed_head [of "reducible_args opts" argv 1] that by (cases consumed) (simp_all add: assms(1))
  ultimately show ?thesis by simp
qed

theorem rm_comsumed_args_keeps_options_witness:
  "rm_comsumed_args long_opts [''prog'', ''--hwio_json'', ''devs.json'', ''-v''] =
    (2, [''--hwio_json'', ''devs.json'', ''devs.json'', ''-v''])"
proof -
  have red: "reducible_args long_opts =
      [''--hwio_config'', ''--hwio_devicetree'', ''--hwio_device_mem'', ''--hwio_remote'', ''--hwio_json'']"
    by (simp add: reducible_args_def long_opts_def)
  have consumed: "consumed_args (reducible_args long_opts) [''prog'', ''--hwio_json'', ''devs.json'', ''-v''] 1 = [1, 2]"
    unfolding red by (simp add: consumed_args.simps)
  show ?thesis
    using rm_comsumed_args_keeps_options [OF consumed [symmetric]] by simp
qed

section \<open>Choosing a device\<close>

lemma select_devs_single:
  "hwio_select_devs_from_vector devices index = Inr ds \<Longrightarrow>
   \<exists>i < length devices. ds = [devices ! i] \<and> (index < 0 \<longrightarrow> length devices = 1) \<and> (0 \<le> index \<longrightarrow> int i = index)"
proof (cases "index < 0")
  case True
  then show "hwio_select_devs_from_vector devices index = Inr ds \<Longrightarrow> ?thesis"
    by (cases devices) (auto simp: hwio_select_devs_from_vector_def split: if_splits)
next
  case False
  then show "hwio_select_devs_from_vector devices index = Inr ds \<Longrightarrow> ?thesis"
    by (intro exI [of _ "nat index"]) (auto simp: hwio_select_devs_from_vector_def split: if_splits)
qed

end
