(* ===== verification/Hwio_Round.thy ===== *)
theory Hwio_Round
  imports Hwio_Framing
begin

text \<open>
  One round of the poll loop over many connections: every client whose socket is readable has its
  complete requests carried out and answered, in the order of the poll descriptors, and the other
  clients are left alone. The proof is in the locale \<open>memory_device\<close>; the property is its instance
  for mapped devices.
\<close>

section \<open>What waits on the connections\<close>

text \<open>
  A job of a descriptor: the client at an address, the piece that has arrived, and what the operating
  system will answer after it.
\<close>

type_synonym 'd job = "nat \<times> 'd ClientInfo \<times> piece \<times> recv_event list"

definition piece_arrives :: "'d ClientInfo \<Rightarrow> piece \<Rightarrow> bool" where
  "piece_arrives c = (\<lambda>(pre, bs, rs, rest).
     pending c @ bs = concat (map enc_req rs) @ rest \<and> bs \<noteq> [] \<and> incomplete rest \<and> list_all is_retry pre \<and>
     length (pending c) + length bs \<le> RX_BUFFER_SIZE)"

definition job_ready :: "('d \<Rightarrow> 'w \<Rightarrow> nat) \<Rightarrow> ('w, 'd) Server \<Rightarrow> int \<Rightarrow> 'd job \<Rightarrow> bool" where
  "job_ready limit s fd = (\<lambda>(a, c, p, es).
     map_of (fd_to_client s) fd = Some a \<and> client_heap s a = Some c \<and> ci_fd c = fd \<and> rx_wf c \<and> no_overlap c \<and>
     piece_arrives c p \<and> rx_events (socks s) fd = piece_events p @ es \<and>
     list_all (req_ok limit (client_get_dev c) (world (core s))) (piece_reqs p) \<and>
     sum_list (map answer_len (piece_reqs p)) \<le> send_room (tx_events (socks s) fd))"

text \<open>The meaning of a round: the answers by descriptor, and the world afterwards.\<close>

fun exec_jobs :: "('w, 'd) mem_sem \<Rightarrow> (int \<Rightarrow> 'd job option) \<Rightarrow> int list \<Rightarrow> 'w \<Rightarrow> (int \<times> byte list) list \<times> 'w" where
  "exec_jobs m jobs [] w = ([], w)"
| "exec_jobs m jobs (fd # fds) w =
     (case jobs fd of
        None \<Rightarrow> exec_jobs m jobs fds w
      | Some (a, c, p, es) \<Rightarrow>
          (case exec_reqs m (client_get_dev c) (piece_reqs p) w of (out, w') \<Rightarrow>
             case exec_jobs m jobs fds w' of (outs, w'') \<Rightarrow> ((fd, out) # outs, w'')))"

definition answer_to :: "(int \<times> byte list) list \<Rightarrow> int \<Rightarrow> byte list" where
  "answer_to outs fd = (case map_of outs fd of None \<Rightarrow> [] | Some out \<Rightarrow> out)"

lemma exec_jobs_fds: "set (map fst (fst (exec_jobs m jobs fds w))) \<subseteq> set fds"
  by (induction fds arbitrary: w) (auto simp: case_prod_unfold split: option.split)

lemma answer_to_other: "fd \<notin> set fds \<Longrightarrow> answer_to (fst (exec_jobs m jobs fds w)) fd = []"
proof -
  assume "fd \<notin> set fds"
  then have "map_of (fst (exec_jobs m jobs fds w)) fd = None"
    using exec_jobs_fds [of m jobs fds w] by (auto simp: map_of_eq_None_iff)
  then show ?thesis by (simp add: answer_to_def)
qed

text \<open>\<open>revents\<close> as \<open>ppoll\<close> fills them in: readable for a descriptor with a job, nothing for others.\<close>

definition job_revents :: "(int \<Rightarrow> 'd job option) \<Rightarrow> pollfd \<Rightarrow> u16" where
  "job_revents jobs p = (if jobs (pfd_fd p) = None then 0 else POLLIN)"

text \<open>The part of the server a round does not change.\<close>

definition tables_kept :: "('w, 'd) Server \<Rightarrow> ('w, 'd) Server \<Rightarrow> bool" where
  "tables_kept s s' \<longleftrightarrow> fd_to_client s' = fd_to_client s \<and> clients s' = clients s \<and> poll_fds s' = poll_fds s \<and>
     poll_cap s' = poll_cap s \<and> removed_poll_fds s' = removed_poll_fds s \<and> master_socket s' = master_socket s"

section \<open>The loop\<close>

context memory_device
begin

lemma serve_job:
  assumes "job_ready limit s fd (a, c, p, es)" "server_wf (core s)"
    and "exec_reqs sem (client_get_dev c) (piece_reqs p) (world (core s)) = (out, w)"
  shows "\<exists>c' s'. handle_multiple_client_requests ops fd s = Some (Inr (), s') \<and> served sem a (piece_reqs p) c s c' s' \<and>
    rx_events (socks s') fd = es"
proof -
  obtain pre bs rs rest where p: "p = (pre, bs, rs, rest)" by (cases p) auto
  have len: "length out = sum_list (map answer_len rs)"
    using length_exec_reqs [of contents poke "client_get_dev c" rs "world (core s)"] assms(3) by (simp add: p piece_reqs_def)
  have job: "map_of (fd_to_client s) (ci_fd c) = Some a" "client_heap s a = Some c" "ci_fd c = fd" "rx_wf c" "no_overlap c"
      "pending c @ bs = concat (map enc_req rs) @ rest" "bs \<noteq> []" "incomplete rest" "list_all is_retry pre"
      "length (pending c) + length bs \<le> RX_BUFFER_SIZE" "rx_events (socks s) (ci_fd c) = pre @ Recv_data bs # es"
      "list_all (req_ok limit (client_get_dev c) (world (core s))) rs"
    using assms(1) by (simp_all add: job_ready_def piece_arrives_def p piece_events_def piece_reqs_def)
  have "length (fst (exec_reqs sem (client_get_dev c) rs (world (core s)))) \<le> send_room (tx_events (socks s) (ci_fd c))"
    using assms(1,3) len by (simp add: job_ready_def p piece_reqs_def)
  from serve_piece [OF job(1,2,4,5,11,9,7,10,6,8) assms(2) job(12) this] show ?thesis
    using job(3) by (auto simp: p piece_reqs_def)
qed

lemma reqs_ok_exec_other:
  "list_all (req_ok limit tab w) qs \<Longrightarrow> list_all (req_ok limit tab (snd (exec_reqs sem tab' rs w))) qs"
proof (induction rs arbitrary: w)
  case (Cons r rs)
  have "req_ok limit tab (snd (exec_req sem tab' r w)) q" if "req_ok limit tab w q" for q
    using that by (cases r; cases q) (simp_all add: limit_poke split: option.splits)
  with Cons show ?case by (auto simp: case_prod_unfold list_all_iff)
qed simp

lemma job_ready_kept:
  assumes "job_ready limit s fd (a, c, p, es)" "served sem a' rs c1 s c1' s'" "fd \<noteq> ci_fd c1" "client_heap s a' = Some c1"
  shows "job_ready limit s' fd (a, c, p, es)"
proof -
  have "a \<noteq> a'" using assms(1,3,4) by (auto simp: job_ready_def)
  moreover have "list_all (req_ok limit (client_get_dev c) (world (core s'))) (piece_reqs p)"
    using assms(1,2) reqs_ok_exec_other [of "client_get_dev c" "world (core s)" "piece_reqs p"]
    by (auto simp: job_ready_def served_def Let_def case_prod_unfold)
  ultimately show ?thesis using assms by (auto simp: job_ready_def served_def Let_def)
qed

text \<open>An entry of the loop with a job, and what it leaves for the others.\<close>

lemma poll_entry_job:
  assumes "job_ready limit s (pfd_fd p) (a, c, q, es)" "server_wf (core s)" "0 \<le> pfd_fd p" "pfd_fd p \<noteq> master_socket s"
    and "pfd_revents p = POLLIN" "exec_reqs sem (client_get_dev c) (piece_reqs q) (world (core s)) = (out, w)"
  shows "\<exists>s'. poll_entry ops acc p s = Some (Inr (), s') \<and> world (core s') = w \<and> server_wf (core s') \<and> tables_kept s s' \<and>
    tx_data (socks s') = (tx_data (socks s))(pfd_fd p := tx_data (socks s) (pfd_fd p) @ out) \<and>
    (\<forall>fd j. fd \<noteq> pfd_fd p \<longrightarrow> job_ready limit s fd j \<longrightarrow> job_ready limit s' fd j)"
proof -
  have c: "client_heap s a = Some c" "ci_fd c = pfd_fd p" using assms(1) by (simp_all add: job_ready_def)
  obtain c1 s1 where s1: "handle_multiple_client_requests ops (pfd_fd p) s = Some (Inr (), s1)"
      "served sem a (piece_reqs q) c s c1 s1"
    using serve_job [OF assms(1,2,6)] by blast
  have "poll_entry ops acc p s = Some (Inr (), s1)"
    using assms(3-5) s1(1) by (simp add: poll_entry_def poll_failed_def)
  moreover have "world (core s1) = w" "server_wf (core s1)" "tables_kept s s1"
      "tx_data (socks s1) = (tx_data (socks s))(pfd_fd p := tx_data (socks s) (pfd_fd p) @ out)"
    using s1(2) c(2) assms(6) by (simp_all add: served_def tables_kept_def Let_def)
  moreover have "job_ready limit s1 fd j" if "fd \<noteq> pfd_fd p" "job_ready limit s fd j" for fd j
  proof -
    obtain a' c' q' es' where "j = (a', c', q', es')" by (cases j) auto
    then show ?thesis using job_ready_kept [OF _ s1(2) _ c(1)] that c(2) by simp
  qed
  ultimately show ?thesis by blast
qed

text \<open>Serving one descriptor leaves the clients behind the later ones ready.\<close>

lemma jobs_later:
  assumes "\<forall>p' \<in> set (p # ps). \<forall>j. jobs (pfd_fd p') = Some j \<longrightarrow>
      0 \<le> pfd_fd p' \<and> pfd_fd p' \<noteq> master_socket s \<and> job_ready limit s (pfd_fd p') j"
    and "distinct (map pfd_fd (p # ps))" "\<forall>fd j. fd \<noteq> pfd_fd p \<longrightarrow> job_ready limit s fd j \<longrightarrow> job_ready limit s1 fd j"
    and "master_socket s1 = master_socket s"
  shows "\<forall>p' \<in> set ps. \<forall>j. jobs (pfd_fd p') = Some j \<longrightarrow>
      0 \<le> pfd_fd p' \<and> pfd_fd p' \<noteq> master_socket s1 \<and> job_ready limit s1 (pfd_fd p') j"
proof (intro ballI allI impI)
  fix p' j assume p': "p' \<in> set ps" "jobs (pfd_fd p') = Some j"
  have "pfd_fd p' \<noteq> pfd_fd p" using assms(2) imageI [OF p'(1), of pfd_fd] by auto
  moreover have "0 \<le> pfd_fd p' \<and> pfd_fd p' \<noteq> master_socket s \<and> job_ready limit s (pfd_fd p') j"
    using assms(1) [rule_format, of p' j] p' by simp
  ultimately show "0 \<le> pfd_fd p' \<and> pfd_fd p' \<noteq> master_socket s1 \<and> job_ready limit s1 (pfd_fd p') j"
    using assms(3) [rule_format, of "pfd_fd p'" j] assms(4) by simp
qed

lemma poll_loop_jobs:
  assumes "server_wf (core s)" "distinct (map pfd_fd ps)"
    and "\<forall>p \<in> set ps. pfd_revents p = job_revents jobs p"
    and "\<forall>p \<in> set ps. \<forall>j. jobs (pfd_fd p) = Some j \<longrightarrow> 0 \<le> pfd_fd p \<and> pfd_fd p \<noteq> master_socket s \<and> job_ready limit s (pfd_fd p) j"
    and "exec_jobs sem jobs (map pfd_fd ps) (world (core s)) = (outs, w)"
  shows "\<exists>s'. poll_loop ops acc (poll_cap s) ps s = Some (Inr (), s') \<and> world (core s') = w \<and>
    tx_data (socks s') = (\<lambda>fd. tx_data (socks s) fd @ answer_to outs fd) \<and> tables_kept s s'"
  using assms
proof (induction ps arbitrary: s outs)
  case Nil
  then show ?case by (simp add: answer_to_def tables_kept_def)
next
  case (Cons p ps)
  let ?fd = "pfd_fd p"
  show ?case
  proof (cases "jobs ?fd")
    case None
    then have "poll_entry ops acc p s = Some (Inr (), s)"
      using Cons.prems(3) by (simp add: poll_entry_def job_revents_def)
    then show ?thesis using Cons None by simp
  next
    case (Some j)
    obtain a c q es where j: "j = (a, c, q, es)" by (cases j) auto
    have ready: "job_ready limit s ?fd (a, c, q, es)" "0 \<le> ?fd" "?fd \<noteq> master_socket s"
      using Cons.prems(4) [rule_format, of p "(a, c, q, es)"] Some unfolding j by simp_all
    obtain out1 w1 where ex1: "exec_reqs sem (client_get_dev c) (piece_reqs q) (world (core s)) = (out1, w1)" by fastforce
    obtain outs2 where ex2: "exec_jobs sem jobs (map pfd_fd ps) w1 = (outs2, w)" "outs = (?fd, out1) # outs2"
      using Cons.prems(5) Some ex1 by (auto simp: j split: prod.splits)
    have "pfd_revents p = POLLIN" using Cons.prems(3) Some by (simp add: job_revents_def)
    then obtain s1 where entry: "poll_entry ops acc p s = Some (Inr (), s1)"
        and kept: "world (core s1) = w1" "server_wf (core s1)" "tables_kept s s1"
          "tx_data (socks s1) = (tx_data (socks s))(?fd := tx_data (socks s) ?fd @ out1)"
        and jobs_kept: "\<forall>fd j. fd \<noteq> ?fd \<longrightarrow> job_ready limit s fd j \<longrightarrow> job_ready limit s1 fd j"
      using poll_entry_job [OF ready(1) Cons.prems(1) ready(2,3) _ ex1] by blast
    have later: "\<forall>p' \<in> set ps. \<forall>j. jobs (pfd_fd p') = Some j \<longrightarrow>
        0 \<le> pfd_fd p' \<and> pfd_fd p' \<noteq> master_socket s1 \<and> job_ready limit s1 (pfd_fd p') j"
      using jobs_later [OF Cons.prems(4,2) jobs_kept] kept(3) by (simp add: tables_kept_def)
    have rest: "distinct (map pfd_fd ps)" "\<forall>p \<in> set ps. pfd_revents p = job_revents jobs p"
        "exec_jobs sem jobs (map pfd_fd ps) (world (core s1)) = (outs2, w)"
      using Cons.prems(2,3) ex2(1) kept(1) by simp_all
    obtain s' where s': "poll_loop ops acc (poll_cap s1) ps s1 = Some (Inr (), s')" "world (core s') = w"
        "tx_data (socks s') = (\<lambda>fd. tx_data (socks s1) fd @ answer_to outs2 fd)" "tables_kept s1 s'"
      using Cons.IH [OF kept(2) rest(1,2) later rest(3)] by blast
    have "answer_to outs2 ?fd = []"
      using answer_to_other [of ?fd "map pfd_fd ps" sem jobs w1] Cons.prems(2) ex2(1) by simp
    then have "tx_data (socks s') = (\<lambda>fd. tx_data (socks s) fd @ answer_to outs fd)"
      using s'(3) kept(4) ex2(2) by (auto simp: fun_eq_iff answer_to_def)
    moreover have "poll_loop ops acc (poll_cap s) (p # ps) s = Some (Inr (), s')"
      using entry s'(1) kept(3) by (simp add: tables_kept_def)
    ultimately show ?thesis using s'(2,4) kept(3) by (auto simp: tables_kept_def)
  qed
qed

lemma pool_round:
  assumes "server_wf (core s)" "distinct (map pfd_fd (poll_fds s))" "removed_poll_fds s = []"
    and "\<forall>p \<in> set (poll_fds s). \<forall>j. jobs (pfd_fd p) = Some j \<longrightarrow>
      0 \<le> pfd_fd p \<and> pfd_fd p \<noteq> master_socket s \<and> job_ready limit s (pfd_fd p) j"
    and "exec_jobs sem jobs (map pfd_fd (poll_fds s)) (world (core s)) = (outs, w)"
  shows "\<exists>s'. pool_client_msgs ops (Poll_ready (map (job_revents jobs) (poll_fds s))) acc s = Some (Inr (), s') \<and>
    world (core s') = w \<and> tx_data (socks s') = (\<lambda>fd. tx_data (socks s) fd @ answer_to outs fd) \<and>
    fd_to_client s' = fd_to_client s \<and> clients s' = clients s \<and> map pfd_fd (poll_fds s') = map pfd_fd (poll_fds s)"
proof -
  let ?set = "\<lambda>p. p\<lparr>pfd_revents := job_revents jobs p\<rparr>"
  let ?ps = "map ?set (poll_fds s)"
  let ?s = "s\<lparr>poll_fds := ?ps\<rparr>"
  have map2: "map2 (\<lambda>p e. p\<lparr>pfd_revents := e\<rparr>) ps (map (job_revents jobs) ps) = map ?set ps" for ps
    by (induction ps) simp_all
  have fds: "map pfd_fd ?ps = map pfd_fd (poll_fds s)" by simp
  have ready: "job_ready limit ?s fd j = job_ready limit s fd j" for fd j
    by (cases j) (simp add: job_ready_def)
  have "\<exists>s'. poll_loop ops acc (poll_cap ?s) ?ps ?s = Some (Inr (), s') \<and> world (core s') = w \<and>
      tx_data (socks s') = (\<lambda>fd. tx_data (socks ?s) fd @ answer_to outs fd) \<and> tables_kept ?s s'"
  proof (rule poll_loop_jobs)
    show "\<forall>p \<in> set ?ps. \<forall>j. jobs (pfd_fd p) = Some j \<longrightarrow>
        0 \<le> pfd_fd p \<and> pfd_fd p \<noteq> master_socket ?s \<and> job_ready limit ?s (pfd_fd p) j"
      using assms(4) by (simp add: ready)
  qed (use assms fds in \<open>simp_all add: job_revents_def comp_def\<close>)
  then obtain s' where s': "poll_loop ops acc (poll_cap ?s) ?ps ?s = Some (Inr (), s')" "world (core s') = w"
      "tx_data (socks s') = (\<lambda>fd. tx_data (socks ?s) fd @ answer_to outs fd)" "tables_kept ?s s'" by blast
  have "pool_client_msgs ops (Poll_ready (map (job_revents jobs) (poll_fds s))) acc s = Some (Inr (), s')"
    using s'(1,4) assms(3) by (simp add: pool_client_msgs_def map2 clean_poll_fds_def tables_kept_def)
  then show ?thesis using s' fds by (auto simp: tables_kept_def comp_def)
qed

end


text \<open>Two clients in one round: the first writes and reads back two bytes of its device, the second one pings.\<close>

definition demo_second :: "nat ClientInfo" where
  "demo_second = demo_client []\<lparr>ci_id := 1, ci_fd := 6, ci_devices := []\<rparr>"

definition demo_two :: "(mmap_world, nat) Server" where
  "demo_two = (demo_conn (demo_client []) [])
     \<lparr>poll_fds := [\<lparr>pfd_fd = 3, pfd_revents = 0\<rparr>, \<lparr>pfd_fd = 5, pfd_revents = 0\<rparr>, \<lparr>pfd_fd = 6, pfd_revents = 0\<rparr>],
      poll_cap := 3, fd_to_client := [(5, 0), (6, 1)], clients := [Some 0, Some 1],
      client_heap := [0 \<mapsto> demo_client [], 1 \<mapsto> demo_second], heap_next := 2,
      socks := \<lparr>rx_events = (\<lambda>fd. [Recv_data (if fd = 5 then demo_stream else enc_req Ping_req)]),
        tx_events = (\<lambda>_. [Send_some 100000]), tx_data = (\<lambda>_. []), closed_fds = []\<rparr>\<rparr>"

definition demo_jobs :: "int \<Rightarrow> nat job option" where
  "demo_jobs = [5 \<mapsto> (0, demo_client [], ([], demo_stream, demo_reqs, []), []),
     6 \<mapsto> (1, demo_second, ([], enc_req Ping_req, [Ping_req], []), [])]"


end
