(* ===== verification/Hwio_Session.thy ===== *)
theory Hwio_Session
  imports Hwio_Message Hwio_Client_Laws
begin

text \<open>
  Whole sessions of a client: any sequence of accesses through remote devices gives the results the
  same accesses would give on the devices of the server. An access is one of the methods of
  \<open>ihwio_dev\<close>; it is run by \<open>hwio_device_remote\<close> on one side and \<open>hwio_device_mmap\<close> on the other.
\<close>

section \<open>Accesses\<close>

datatype access =
    Read u16 u32 nat
  | Read8 u16 u32
  | Read32 u16 u32
  | Read64 u16 u32
  | Write u16 u32 "byte list"
  | Write8 u16 u32 byte
  | Write32 u16 u32 u32
  | Write64 u16 u32 u64

datatype outcome = Bytes "byte list" | Word8 byte | Word32 u32 | Word64 u64 | Done

text \<open>The caller's buffers: one to read \<open>n\<close> bytes into, one that holds the bytes to write.\<close>

definition fresh_array :: "nat \<Rightarrow> carray" where
  "fresh_array n = \<lparr>acap = n, aget = (\<lambda>_. 0)\<rparr>"

definition array_of :: "byte list \<Rightarrow> carray" where
  "array_of bs = \<lparr>acap = length bs, aget = (\<lambda>i. if i < length bs then bs ! i else 0)\<rparr>"

definition remote_result :: "('a \<Rightarrow> outcome) \<Rightarrow> 'a remote \<Rightarrow> outcome remote" where
  "remote_result f r c = map_option (\<lambda>(q, c'). (map_sum id f q, c')) (r c)"

fun remote_access :: "bool \<Rightarrow> access \<Rightarrow> outcome remote" where
  "remote_access busy (Read dev off n) = (\<lambda>c. map_option (\<lambda>(q, dst, c'). (map_sum id (\<lambda>_. Bytes (abytes dst 0 n)) q, c'))
     (remote_read busy dev off (fresh_array n) 0 n c))"
| "remote_access busy (Read8 dev off) = remote_result Word8 (remote_read8 busy dev off)"
| "remote_access busy (Read32 dev off) = remote_result Word32 (remote_read32 busy dev off)"
| "remote_access busy (Read64 dev off) = remote_result Word64 (remote_read64 busy dev off)"
| "remote_access busy (Write dev off bs) = remote_result (\<lambda>_. Done) (remote_write busy dev off (array_of bs) 0 (length bs))"
| "remote_access busy (Write8 dev off v) = remote_result (\<lambda>_. Done) (remote_write8 busy dev off v)"
| "remote_access busy (Write32 dev off v) = remote_result (\<lambda>_. Done) (remote_write32 busy dev off v)"
| "remote_access busy (Write64 dev off v) = remote_result (\<lambda>_. Done) (remote_write64 busy dev off v)"

fun remote_session :: "bool \<Rightarrow> access list \<Rightarrow> outcome list remote" where
  "remote_session busy [] c = Some (Inr [], c)"
| "remote_session busy (a # as) c =
     (case remote_access busy a c of
        None \<Rightarrow> None
      | Some (Inl e, c') \<Rightarrow> Some (Inl e, c')
      | Some (Inr x, c') \<Rightarrow>
          map_option (\<lambda>(q, c''). (map_sum id (\<lambda>xs. x # xs) q, c'')) (remote_session busy as c'))"

text \<open>The same access on a device of the server, and a session on the devices \<open>tab\<close>.\<close>

fun acc_dev :: "access \<Rightarrow> u16" where
  "acc_dev (Read dev off n) = dev" | "acc_dev (Read8 dev off) = dev"
| "acc_dev (Read32 dev off) = dev" | "acc_dev (Read64 dev off) = dev"
| "acc_dev (Write dev off bs) = dev" | "acc_dev (Write8 dev off v8) = dev"
| "acc_dev (Write32 dev off v32) = dev" | "acc_dev (Write64 dev off v64) = dev"

fun local_access :: "nat \<Rightarrow> access \<Rightarrow> mmap_world \<Rightarrow> outcome res \<times> mmap_world" where
  "local_access d (Read dev off n) w = (case dev_read mmap_ops d off (fresh_array n) 0 n w of
     (q, dst, w') \<Rightarrow> (map_sum id (\<lambda>_. Bytes (abytes dst 0 n)) q, w'))"
| "local_access d (Read8 dev off) w = apfst (map_sum id Word8) (mmap_read8 d off w)"
| "local_access d (Read32 dev off) w = apfst (map_sum id Word32) (mmap_read32 d off w)"
| "local_access d (Read64 dev off) w = apfst (map_sum id Word64) (mmap_read64 d off w)"
| "local_access d (Write dev off bs) w =
     apfst (map_sum id (\<lambda>_. Done)) (dev_write mmap_ops d off (array_of bs) 0 (length bs) w)"
| "local_access d (Write8 dev off v8) w = apfst (map_sum id (\<lambda>_. Done)) (mmap_write8 d off v8 w)"
| "local_access d (Write32 dev off v32) w = apfst (map_sum id (\<lambda>_. Done)) (mmap_write32 d off v32 w)"
| "local_access d (Write64 dev off v64) w = apfst (map_sum id (\<lambda>_. Done)) (mmap_write64 d off v64 w)"

fun local_session :: "(u16 \<Rightarrow> nat option) \<Rightarrow> access list \<Rightarrow> mmap_world \<Rightarrow> outcome list res \<times> mmap_world" where
  "local_session tab [] w = (Inr [], w)"
| "local_session tab (a # as) w =
     (case tab (acc_dev a) of
        None \<Rightarrow> (Inl (Throw Runtime_error), w)
      | Some d \<Rightarrow>
          (case local_access d a w of
             (Inl e, w') \<Rightarrow> (Inl e, w')
           | (Inr x, w') \<Rightarrow> apfst (map_sum id (\<lambda>xs. x # xs)) (local_session tab as w')))"

section \<open>The request an access is sent as\<close>

fun acc_req :: "access \<Rightarrow> mem_req" where
  "acc_req (Read dev off n) = Read_req dev off (word_of_nat n)"
| "acc_req (Read8 dev off) = Read_req dev off 1"
| "acc_req (Read32 dev off) = Read_req dev off 4"
| "acc_req (Read64 dev off) = Read_req dev off 8"
| "acc_req (Write dev off bs) = Write_req dev off bs"
| "acc_req (Write8 dev off v8) = Write_req dev off [v8]"
| "acc_req (Write32 dev off v32) = Write_req dev off (enc32 v32)"
| "acc_req (Write64 dev off v64) = Write_req dev off (enc64 v64)"

text \<open>What the buffers of the connection carry: 2045 bytes read, 2037 written at once.\<close>

fun acc_fits :: "access \<Rightarrow> bool" where
  "acc_fits (Read dev off n) \<longleftrightarrow> n \<le> 2045"
| "acc_fits (Write dev off bs) \<longleftrightarrow> length bs \<le> 2037"
| "acc_fits _ \<longleftrightarrow> True"

text \<open>The outcome of an access whose answer carries the bytes \<open>bs\<close>.\<close>

fun outcome_of :: "access \<Rightarrow> byte list \<Rightarrow> outcome" where
  "outcome_of (Read dev off n) bs = Bytes bs"
| "outcome_of (Read8 dev off) bs = Word8 (hd bs)"
| "outcome_of (Read32 dev off) bs = Word32 (dec32 bs)"
| "outcome_of (Read64 dev off) bs = Word64 (dec64 bs)"
| "outcome_of _ bs = Done"

abbreviation acc_exec :: "(u16 \<Rightarrow> nat option) \<Rightarrow> access \<Rightarrow> mmap_world \<Rightarrow> byte list \<times> mmap_world" where
  "acc_exec tab a w \<equiv> exec_req mmap_sem tab (acc_req a) w"

lemma array_of_bytes [simp]: "abytes (array_of bs) 0 (length bs) = bs" "acap (array_of bs) = length bs"
  by (auto simp: array_of_def abytes_nth intro: nth_equalityI)

lemma fresh_array_cap [simp]: "acap (fresh_array n) = n"
  by (simp add: fresh_array_def)

lemma local_access_ok:
  assumes "req_ok mmap_limit tab w (acc_req a)" "acc_fits a" "tab (acc_dev a) = Some d"
  shows "local_access d a w = (Inr (outcome_of a (drop 3 (fst (acc_exec tab a w)))), snd (acc_exec tab a w))"
proof (cases a)
  case (Read dev off n)
  have n: "unat (word_of_nat n :: u16) = n" using assms(2) Read by (simp add: unat_of_nat)
  let ?bs = "mem_range (mmap_contents d w) (unat off) n"
  have "dev_read mmap_ops d off (fresh_array n) 0 n w =
      (Inr (), (fresh_array n)\<lparr>aget := mem_store (aget (fresh_array n)) 0 ?bs\<rparr>, w)"
    using assms Read n by (intro mmap_dev.dev_read_ok) simp_all
  moreover have "length ?bs = n" by simp
  ultimately show ?thesis
    using assms(3) Read n abytes_stored [of "fresh_array n" 0 ?bs] by simp
next
  case (Write dev off bs)
  have "dev_write mmap_ops d off (array_of bs) 0 (length bs) w = (Inr (), mmap_poke d (unat off) bs w)"
    using assms Write mmap_dev.dev_write_ok [of off "length bs" d w 0 "array_of bs"] by simp
  then show ?thesis using assms(3) Write by simp
next
  case (Read8 dev off)
  then show ?thesis using assms mmap_read_ok(1) [of off 1 d w] by simp
next
  case (Write8 dev off v)
  then show ?thesis using assms mmap_write_ok(1) [of off "[v]" d w v] by simp
next
  case (Write32 dev off v)
  then show ?thesis using assms mmap_write_ok(2) [of off "enc32 v" d w v] by simp
next
  case (Write64 dev off v)
  then show ?thesis using assms mmap_write_ok(3) [of off "enc64 v" d w v] by simp
qed (use assms in \<open>simp_all add: mmap_read_ok\<close>)

section \<open>The client's side of an access\<close>

text \<open>Words in memory and in the variables of the caller.\<close>

lemma word_of_le:
  "length bs = 1 \<Longrightarrow> (word_of_nat (le_dec bs) :: byte) = hd bs"
  "length bs = 4 \<Longrightarrow> word_of_nat (le_dec bs) = dec32 bs"
  "length bs = 8 \<Longrightarrow> word_of_nat (le_dec bs) = dec64 bs"
  by (cases bs; simp add: dec32_def dec64_def)+

lemma le_of_word:
  "le_enc 1 (unat v8) = [v8 :: byte]" "le_enc 4 (unat v32) = enc32 v32" "le_enc 8 (unat v64) = enc64 v64"
  by (simp_all add: enc32_def enc64_def)

lemma remote_read_int_ready:
  assumes "client_ready busy m (enc_header \<lparr>command = HWIO_CMD_READ_RESP, body_len = word_of_nat n\<rparr> @ data @ rest) c"
    and "11 \<le> m" "n \<le> 8" "length data = n"
  shows "\<exists>c'. remote_read_int busy dev off n c = Some (Inr (word_of_nat (le_dec data)), c') \<and>
    con_sent c' = con_sent c @ enc_req (Read_req dev off (word_of_nat n)) \<and> client_ready busy (m - 11) rest c'"
proof -
  obtain dst c' where "remote_read busy dev off \<lparr>acap = n, aget = (\<lambda>_. 0)\<rparr> 0 n c = Some (Inr (), dst, c')" "abytes dst 0 n = data"
      "con_sent c' = con_sent c @ enc_req (Read_req dev off (word_of_nat n))" "client_ready busy (m - 11) rest c'"
    using remote_read_ready [OF assms(1,2) _ _ assms(4), of 0 "\<lparr>acap = n, aget = (\<lambda>_. 0)\<rparr>" dev off] assms(3) by auto
  then show ?thesis by (simp add: remote_read_int_def)
qed

lemma remote_write_int_ready:
  assumes "client_ready busy m bs c" "11 + n \<le> m" "n \<le> 8"
  shows "\<exists>c'. remote_write_int busy dev off n v c = Some (Inr (), c') \<and>
    con_sent c' = con_sent c @ enc_req (Write_req dev off (le_enc n v)) \<and> client_ready busy (m - (11 + n)) bs c'"
proof -
  let ?a = "\<lparr>acap = n, aget = (\<lambda>i. if i < n then le_enc n v ! i else 0)\<rparr>"
  have "abytes ?a 0 n = le_enc n v" by (auto simp: abytes_nth intro: nth_equalityI)
  then show ?thesis
    using remote_write_ready [OF assms(1,2), of 0 ?a dev off] assms(3) by (simp add: remote_write_int_def)
qed

lemma remote_access_ok:
  assumes "req_ok mmap_limit tab w (acc_req a)" "acc_fits a"
    and "client_ready busy m (fst (acc_exec tab a w) @ rest) c" "length (enc_req (acc_req a)) \<le> m"
  shows "\<exists>c'. remote_access busy a c = Some (Inr (outcome_of a (drop 3 (fst (acc_exec tab a w)))), c') \<and>
    con_sent c' = con_sent c @ enc_req (acc_req a) \<and> client_ready busy (m - length (enc_req (acc_req a))) rest c'"
proof (cases a)
  case (Read dev off n)
  have n: "n \<le> 2045" "unat (word_of_nat n :: u16) = n" using assms(2) Read by (simp_all add: unat_of_nat)
  then show ?thesis
    using remote_read_ready [of busy m n "mem_range (mmap_contents (the (tab dev)) w) (unat off) n" rest c 0 "fresh_array n" dev off]
      assms(3,4) Read by (auto simp: length_enc_req)
next
  case (Read8 dev off)
  then show ?thesis
    using remote_read_int_ready [where 'a = 8, of busy m 1 "mem_range (mmap_contents (the (tab dev)) w) (unat off) 1" rest c dev off] assms(3,4)
    by (auto simp: length_enc_req remote_result_def remote_read8_def word_of_le)
next
  case (Read32 dev off)
  then show ?thesis
    using remote_read_int_ready [where 'a = 32, of busy m 4 "mem_range (mmap_contents (the (tab dev)) w) (unat off) 4" rest c dev off] assms(3,4)
    by (auto simp: length_enc_req remote_result_def remote_read32_def word_of_le)
next
  case (Read64 dev off)
  then show ?thesis
    using remote_read_int_ready [where 'a = 64, of busy m 8 "mem_range (mmap_contents (the (tab dev)) w) (unat off) 8" rest c dev off] assms(3,4)
    by (auto simp: length_enc_req remote_result_def remote_read64_def word_of_le)
next
  case (Write dev off bs)
  then show ?thesis
    using remote_write_ready [of busy m rest c "length bs" 0 "array_of bs" dev off] assms(2-4)
    by (auto simp: length_enc_req remote_result_def)
next
  case (Write8 dev off v)
  then show ?thesis
    using remote_write_int_ready [of busy m rest c 1 dev off "unat v", unfolded le_of_word] assms(3,4)
    by (auto simp: length_enc_req remote_result_def remote_write8_def)
next
  case (Write32 dev off v)
  then show ?thesis
    using remote_write_int_ready [of busy m rest c 4 dev off "unat v", unfolded le_of_word] assms(3,4)
    by (auto simp: length_enc_req remote_result_def remote_write32_def)
next
  case (Write64 dev off v)
  then show ?thesis
    using remote_write_int_ready [of busy m rest c 8 dev off "unat v", unfolded le_of_word] assms(3,4)
    by (auto simp: length_enc_req remote_result_def remote_write64_def)
qed

section \<open>Sessions\<close>

text \<open>The outcomes of a session by the meaning of its requests.\<close>

fun session_outcomes :: "(u16 \<Rightarrow> nat option) \<Rightarrow> access list \<Rightarrow> mmap_world \<Rightarrow> outcome list" where
  "session_outcomes tab [] w = []"
| "session_outcomes tab (a # as) w =
     (case acc_exec tab a w of (out, w') \<Rightarrow> outcome_of a (drop 3 out) # session_outcomes tab as w')"

abbreviation session_ok :: "(u16 \<Rightarrow> nat option) \<Rightarrow> mmap_world \<Rightarrow> access list \<Rightarrow> bool" where
  "session_ok tab w as \<equiv> list_all (req_ok mmap_limit tab w) (map acc_req as) \<and> list_all acc_fits as"

lemma session_ok_step: "session_ok tab w (a # as) \<Longrightarrow> session_ok tab (snd (acc_exec tab a w)) as"
  using mmap_dev.req_ok_exec [of tab w _ "acc_req a"] by (auto simp: list_all_iff)

lemma req_ok_owned: "req_ok mmap_limit tab w (acc_req a) \<Longrightarrow> tab (acc_dev a) \<noteq> None"
  by (cases a) (auto split: option.splits)

lemma local_session_ok:
  "session_ok tab w as \<Longrightarrow>
   local_session tab as w = (Inr (session_outcomes tab as w), snd (exec_reqs mmap_sem tab (map acc_req as) w))"
proof (induction as arbitrary: w)
  case (Cons a as)
  obtain d where d: "tab (acc_dev a) = Some d" using req_ok_owned [of tab w a] Cons.prems by auto
  have "local_access d a w = (Inr (outcome_of a (drop 3 (fst (acc_exec tab a w)))), snd (acc_exec tab a w))"
    using local_access_ok d Cons.prems by simp
  then show ?case using d Cons.IH [OF session_ok_step [OF Cons.prems]] by (simp add: case_prod_unfold)
qed simp

lemma remote_session_ok:
  "session_ok tab w as \<Longrightarrow> client_ready busy m (fst (exec_reqs mmap_sem tab (map acc_req as) w)) c \<Longrightarrow>
   length (concat (map enc_req (map acc_req as))) \<le> m \<Longrightarrow>
   \<exists>c'. remote_session busy as c = Some (Inr (session_outcomes tab as w), c') \<and>
     con_sent c' = con_sent c @ concat (map enc_req (map acc_req as))"
proof (induction as arbitrary: w m c)
  case (Cons a as)
  let ?n = "length (enc_req (acc_req a))" and ?w = "snd (acc_exec tab a w)"
  obtain c1 where c1: "remote_access busy a c = Some (Inr (outcome_of a (drop 3 (fst (acc_exec tab a w)))), c1)"
      "con_sent c1 = con_sent c @ enc_req (acc_req a)"
      "client_ready busy (m - ?n) (fst (exec_reqs mmap_sem tab (map acc_req as) ?w)) c1"
    using remote_access_ok [of tab w a busy m "fst (exec_reqs mmap_sem tab (map acc_req as) ?w)" c] Cons.prems
    by (auto simp: case_prod_unfold)
  have "length (concat (map enc_req (map acc_req as))) \<le> m - ?n" using Cons.prems(3) by simp
  then obtain c2 where "remote_session busy as c1 = Some (Inr (session_outcomes tab as ?w), c2)"
      "con_sent c2 = con_sent c1 @ concat (map enc_req (map acc_req as))"
    using Cons.IH [OF session_ok_step [OF Cons.prems(1)] c1(3)] by blast
  with c1 show ?case by (simp add: case_prod_unfold)
qed simp


text \<open>A word is written, then read back in parts; the stream is cut inside the second request.\<close>

definition demo_accs :: "access list" where
  "demo_accs = [Write32 0 16 0x01020304, Read8 0 17, Read32 0 16, Read 0 18 2]"

definition demo_acc_stream :: "byte list" where
  "demo_acc_stream = concat (map enc_req (map acc_req demo_accs))"

definition demo_acc_pieces :: "piece list" where
  "demo_acc_pieces =
     [([Recv_again], take 20 demo_acc_stream, [Write_req 0 16 (enc32 0x01020304)], take 5 (drop 15 demo_acc_stream)),
      ([], drop 20 demo_acc_stream, [Read_req 0 17 1, Read_req 0 16 4, Read_req 0 18 2], [])]"

lemma demo_acc_stream_bytes:
  "demo_acc_stream = [3, 12, 0, 0, 0, 16, 0, 0, 0, 4, 0, 4, 3, 2, 1] @ [1, 8, 0, 0, 0, 17, 0, 0, 0, 1, 0] @
     [1, 8, 0, 0, 0, 16, 0, 0, 0, 4, 0] @ [1, 8, 0, 0, 0, 18, 0, 0, 0, 2, 0]"
  by (simp add: demo_acc_stream_def demo_accs_def enc_req_def enc_header_def enc_RdReq_def enc16_def enc32_def le_enc_2_4)

lemma demo_acc_segmented: "segmented [] demo_acc_pieces"
proof -
  have "enc_req (Write_req 0 16 (enc32 0x01020304)) = take 15 demo_acc_stream"
      "concat (map enc_req [Read_req 0 17 1, Read_req 0 16 4, Read_req 0 18 2]) = drop 15 demo_acc_stream"
    by (simp_all add: demo_acc_stream_bytes enc_req_def enc_header_def enc_RdReq_def enc16_def enc32_def le_enc_2_4)
  then show ?thesis
    by (simp add: demo_acc_pieces_def is_retry_def) (simp add: demo_acc_stream_bytes incomplete_def dec_header_def dec16_def)
qed

lemma demo_outcomes:
  "session_outcomes (client_get_dev (demo_client [])) demo_accs demo_attached =
     [Done, Word8 3, Word32 0x01020304, Bytes [2, 1]]"
proof -
  let ?w = "mmap_poke 0 16 (enc32 0x01020304) demo_attached"
  have bytes: "enc32 0x01020304 = [4, 3, 2, 1]" by (simp add: enc32_def le_enc_2_4)
  have "mmap_contents 0 ?w = mem_store (mmap_contents 0 demo_attached) 16 (enc32 0x01020304)"
    by (rule mmap_contents_poke) (simp add: demo_attached_limit)
  then have mem: "mmap_contents 0 ?w = mem_store (mmap_contents 0 demo_attached) 16 [4, 3, 2, 1]" by (simp only: bytes)
  have "mem_range (mmap_contents 0 ?w) 17 1 = [3]" "mem_range (mmap_contents 0 ?w) 16 4 = [4, 3, 2, 1]"
      "mem_range (mmap_contents 0 ?w) 18 2 = [2, 1]"
    unfolding mem by (simp_all add: mem_range_def mem_store_def upt_rec numeral_eq_Suc)
  moreover have "dec32 [4, 3, 2, 1] = 0x01020304" by (simp add: dec32_def)
  moreover have "client_get_dev (demo_client []) 0 = Some 0" by (simp add: demo_client_at_def client_get_dev_def)
  ultimately show ?thesis by (simp add: demo_accs_def)
qed


end
