(* ===== verification/Hwio_Buffers.thy ===== *)
theory Hwio_Buffers
  imports Hwio_Framing
begin

text \<open>
  Well-formed buffers: the transmit buffer of the server keeps its size, and the position and length
  of the unprocessed bytes of every client stay inside its receive buffer. Every operation keeps
  this, whatever arrives and also when it fails, so it holds in every state of a running server. A
  device is only asked not to resize the array it reads into, which is the locale \<open>sized_reads\<close>.
\<close>

section \<open>Devices that keep arrays\<close>

locale sized_reads =
  fixes ops :: "('w, 'd) dev_ops"
  assumes read_size: "acap (fst (snd (dev_read ops d off dst i n w))) = acap dst"

lemma ihwio_read_bytes_size: "acap (fst (snd (ihwio_read_bytes read8 off dst i n w))) = acap dst"
  by (induction read8 off dst i n w rule: ihwio_read_bytes.induct)
    (auto simp: astore_acap split: sum.split prod.split)

lemma ihwio_read_size: "acap (fst (snd (ihwio_read read8 read32 off dst i n w))) = acap dst"
proof (induction read8 read32 off dst i n w rule: ihwio_read.induct)
  case (1 read8 read32 off dst i n w)
  show ?case
    by (subst ihwio_read.simps) (auto simp: 1 ihwio_read_bytes_size astore_acap split: sum.split prod.split)
qed

interpretation mmap_sized: sized_reads mmap_ops
  by unfold_locales (simp add: mmap_ops_def ihwio_read_size)

section \<open>The handlers\<close>

definition plugins_sized :: "('w, 'd) HwioServer \<Rightarrow> bool" where
  "plugins_sized k \<longleftrightarrow> list_all plugin_sized (plugins_fast k) \<and> list_all plugin_sized (map snd (plugins k))"

lemma update_sized: "list_all plugin_sized (map snd xs) \<Longrightarrow> plugin_sized p \<Longrightarrow>
    list_all plugin_sized (map snd (AList.update fn_name p xs))"
  by (induction xs) auto

lemma install_sized: "plugins_sized k \<Longrightarrow> plugin_sized p \<Longrightarrow> plugins_sized (install_plugin_fn fn_name p k)"
  by (simp add: plugins_sized_def install_plugin_fn_def update_sized)

text \<open>A handler leaves the size of the transmit buffer and the tables of the server alone.\<close>

definition core_kept :: "('w, 'd) HwioServer \<Rightarrow> ('w, 'd) HwioServer \<Rightarrow> bool" where
  "core_kept k k' \<longleftrightarrow> acap (tx_buffer k') = acap (tx_buffer k) \<and> plugins k' = plugins k \<and>
     plugins_fast k' = plugins_fast k \<and> plugins_fast_names k' = plugins_fast_names k \<and> buses k' = buses k \<and>
     rx_pos k' = rx_pos k"

lemma core_kept_refl [simp]: "core_kept k k"
  by (simp add: core_kept_def)

lemma core_kept_tx [simp]:
  "core_kept k (k\<lparr>world := w\<rparr>)" "core_kept k (k\<lparr>tx_buffer := t\<rparr>) = (acap t = acap (tx_buffer k))"
  "core_kept k (k\<lparr>tx_buffer := t, world := w\<rparr>) = (acap t = acap (tx_buffer k))"
  by (simp_all add: core_kept_def)

lemma core_kept_trans: "core_kept k k1 \<Longrightarrow> core_kept k1 k2 \<Longrightarrow> core_kept k k2"
  by (simp add: core_kept_def)

lemma send_err_kept: "core_kept k (snd (snd (send_err ec msg c k)))"
  by (auto simp: send_err_def send_err_tx_def bind_res_def astore_acap split: sum.split sum.split_asm)

lemma send_err_kept_trans: "core_kept k k1 \<Longrightarrow> core_kept k (snd (snd (send_err ec msg c k1)))"
  using core_kept_trans send_err_kept by blast

lemma call_plugin_kept:
  assumes "plugin_sized p"
  shows "core_kept k (snd (snd (call_plugin p d i c k)))"
proof -
  have size: "acap t' = acap t" if "pl_fn p d rx i t j w = (r, t', w')" for rx i t j w r t' w'
    using assms that unfolding plugin_sized_def by (metis fst_conv snd_conv)
  show ?thesis
    by (auto simp: call_plugin_def Let_def astore_acap dest!: size intro!: send_err_kept_trans
        split: sum.split prod.split fault.split)
qed

lemma handle_rpc_kept:
  assumes "plugins_sized k"
  shows "core_kept k (snd (snd (handle_remote_call c h k)))" "core_kept k (snd (snd (handle_fast_remote_call c h k)))"
    "core_kept k (snd (snd (handle_get_rpc_fn_id c h k)))"
proof -
  have "plugin_sized p" if "map_of (plugins k) n = Some p" for n p
    using assms map_of_SomeD [OF that] by (auto simp: plugins_sized_def list_all_iff)
  then show "core_kept k (snd (snd (handle_remote_call c h k)))"
    by (auto simp: handle_remote_call_def Let_def send_err_kept call_plugin_kept split: sum.split option.split)
  have "plugin_sized (plugins_fast k ! i)" if "i < length (plugins_fast k)" for i
    using assms that by (auto simp: plugins_sized_def list_all_length)
  then show "core_kept k (snd (snd (handle_fast_remote_call c h k)))"
    by (auto simp: handle_fast_remote_call_def Let_def send_err_kept call_plugin_kept split: sum.split option.split)
  show "core_kept k (snd (snd (handle_get_rpc_fn_id c h k)))"
    by (auto simp: handle_get_rpc_fn_id_def Let_def send_err_kept astore_acap intro!: send_err_kept_trans
        split: sum.split option.split)
qed

lemma lookup_loop_size: "acap (fst (snd (snd (lookup_loop ops ds i len devs tx w)))) = acap tx"
  by (induction ops ds i len devs tx w rule: lookup_loop.induct)
    (auto simp: bind_res_def astore_acap split: sum.split sum.split_asm prod.split)

lemma lookup_loop_sizeD: "lookup_loop ops ds i len devs tx w = (r, devs', t, w') \<Longrightarrow> acap t = acap tx"
  using lookup_loop_size [of ops ds i len devs tx w] by simp

lemma handle_query_core_kept: "core_kept k (snd (snd (handle_query ops c h k)))"
  by (auto simp: handle_query_def device_lookup_resp_def Let_def send_err_kept astore_acap
      dest!: lookup_loop_sizeD split: sum.split prod.split)

lemma handle_small_kept:
  "core_kept k (snd (snd (handle_ping c h k)))" "core_kept k (snd (snd (handle_client_msg c h k)))"
  by (auto simp: handle_ping_def handle_client_msg_def send_err_kept astore_acap split: sum.split)

lemma handle_write_kept: "core_kept k (snd (snd (handle_write ops c h k)))"
  by (auto simp: handle_write_def Let_def send_err_kept split: sum.split prod.split option.split)

context sized_reads
begin

lemma dev_read_sizeD: "dev_read ops d off dst i n w = (r, t, w') \<Longrightarrow> acap t = acap dst"
  using read_size [of d off dst i n w] by simp

lemma handle_read_kept: "core_kept k (snd (snd (handle_read ops c h k)))"
  by (auto simp: handle_read_def Let_def send_err_kept astore_acap dest!: dev_read_sizeD intro!: send_err_kept_trans
      split: sum.split prod.split option.split fault.split)

lemma handle_msg_core_kept:
  assumes "plugins_sized k"
  shows "core_kept k (snd (snd (handle_msg ops c h k)))"
  using handle_rpc_kept [OF assms] by (simp add: handle_msg_def Let_def handle_read_kept handle_write_kept
      handle_query_core_kept handle_small_kept send_err_kept)

end

section \<open>The connections\<close>

definition bufs_wf :: "('w, 'd) Server \<Rightarrow> bool" where
  "bufs_wf s \<longleftrightarrow> server_wf (core s) \<and> plugins_sized (core s) \<and> (\<forall>a c. client_heap s a = Some c \<longrightarrow> rx_wf c)"

lemma bufs_wf_put: "bufs_wf s \<Longrightarrow> rx_wf c \<Longrightarrow> bufs_wf (put_client a c s)"
  by (simp add: bufs_wf_def)

lemma bufs_wf_put_socks: "bufs_wf s \<Longrightarrow> rx_wf c \<Longrightarrow> bufs_wf (s\<lparr>socks := n, client_heap := (client_heap s)(a \<mapsto> c)\<rparr>)"
  by (simp add: bufs_wf_def)

lemma bufs_wf_cong: "bufs_wf s \<Longrightarrow> core s' = core s \<Longrightarrow> client_heap s' = client_heap s \<Longrightarrow> bufs_wf s'"
  by (simp add: bufs_wf_def)

lemma bufs_wf_core: "bufs_wf s \<Longrightarrow> core_kept (core s) k \<Longrightarrow> bufs_wf (s\<lparr>core := k\<rparr>)"
  by (simp add: bufs_wf_def server_wf_def plugins_sized_def core_kept_def)

lemma rx_wf_kept: "rx_wf c \<Longrightarrow> rx_kept c c' \<Longrightarrow> rx_wf c'"
  by (simp add: rx_wf_def rx_kept_def)

lemma add_new_client_bufs: "bufs_wf s \<Longrightarrow> bufs_wf (snd (add_new_client fd s))"
  by (auto simp: add_new_client_def Let_def bufs_wf_def push_poll_fd_def ClientInfo_ctor_def rx_wf_def)

lemma remove_client_bufs: "bufs_wf s \<Longrightarrow> bufs_wf (snd (remove_client fd s))"
  by (auto simp: remove_client_def bufs_wf_def delete_client_def split: option.split)

lemma drop_client_bufs:
  assumes "bufs_wf s"
  shows "bufs_wf (snd (drop_client a s))"
proof -
  have "bufs_wf (snd (remove_client fd s))" for fd using remove_client_bufs [OF assms] .
  then show ?thesis
    using assms by (auto simp: drop_client_def bufs_wf_def split: option.split sum.split prod.split) (metis snd_conv)+
qed

lemma compact_rx_bufs:
  "compact_rx rx = Inr rx' \<Longrightarrow> curr_ptr rx' = 0 \<and> curr_len rx' = curr_len rx \<and> acap (rx_array rx') = acap (rx_array rx)"
  by (auto simp: compact_rx_def bind_res_def astore_acap split: if_splits sum.splits)

lemma rx_filled_bufs:
  assumes "rx_wf c" "compact_rx (ci_rx c) = Inr rx"
  shows "rx_wf (c\<lparr>ci_rx := rx\<rparr>)"
    "astore (rx_array rx) (curr_len rx) bs = Inr arr \<Longrightarrow>
     rx_wf (c\<lparr>ci_rx := rx\<lparr>rx_array := arr, curr_len := curr_len rx + length bs\<rparr>\<rparr>)"
  using assms compact_rx_bufs [OF assms(2)] astore_acap [of "rx_array rx" "curr_len rx" bs arr]
    astore_Inr_iff [of "rx_array rx" "curr_len rx" bs]
  by (auto simp: rx_wf_def)

lemma read_from_socket_bufs:
  assumes "bufs_wf s" "read_from_socket a s = Some (r, s')"
  shows "bufs_wf s'"
proof (cases "client_heap s a")
  case (Some c)
  then have c: "rx_wf c" using assms(1) by (simp add: bufs_wf_def)
  have socks: "bufs_wf (s\<lparr>socks := n\<rparr>)" for n using assms(1) by (simp add: bufs_wf_def)
  show ?thesis
    using assms Some c
    by (auto simp: read_from_socket_def Let_def rx_filled_bufs intro!: bufs_wf_put_socks socks
        split: sum.splits option.splits recv_result.splits)
qed (use assms in \<open>simp add: read_from_socket_def\<close>)

lemma send_response_bufs: "bufs_wf s \<Longrightarrow> send_response fd r s = Some (q, s') \<Longrightarrow> bufs_wf s'"
  by (auto simp: send_response_def bufs_wf_def split: sum.splits option.splits)

lemma advance_rx_wf: "rx_wf c \<Longrightarrow> n \<le> curr_len (ci_rx c) \<Longrightarrow> rx_wf (advance_rx n c)"
  by (simp add: rx_wf_def advance_rx_def)

lemma client_of_fd_bufs: "bufs_wf s \<Longrightarrow> bufs_wf (snd (client_of_fd fd s))"
  by (simp add: client_of_fd_def add_new_client_bufs split: option.split)

lemma remove_clientD: "remove_client fd s = (r, s') \<Longrightarrow> bufs_wf s \<Longrightarrow> bufs_wf s'"
  using remove_client_bufs [of s fd] by simp

lemma add_new_clientD: "add_new_client fd s = (r, s') \<Longrightarrow> bufs_wf s \<Longrightarrow> bufs_wf s'"
  using add_new_client_bufs [of s fd] by simp

lemma parse_msgs_step:
  assumes "parse_msgs ops a s = Some (r, s')" "client_heap s a = Some c" "s' \<noteq> s"
  obtains hb p c1 k where
    "3 + unat (body_len (dec_header hb)) \<le> curr_len (ci_rx c)"
    "handle_msg ops c (dec_header hb) ((core s)\<lparr>rx_pos := curr_ptr (ci_rx c) + 3\<rparr>) = (p, c1, k)"
    "(case p of Inl e \<Rightarrow> s' = put_client a c1 (s\<lparr>core := k\<rparr>)
      | Inr q \<Rightarrow> (\<exists>p2 s2. send_response (ci_fd c1) q (put_client a c1 (s\<lparr>core := k\<rparr>)) = Some (p2, s2) \<and>
          (s' = s2 \<or> parse_msgs ops a (put_client a (advance_rx (3 + unat (body_len (dec_header hb))) c1) s2) = Some (r, s') \<or>
           drop_client a (put_client a (advance_rx (3 + unat (body_len (dec_header hb))) c1) s2) = (r, s'))))"
proof -
  have "\<not> curr_len (ci_rx c) < 3" using assms by (subst (asm) parse_msgs.simps) (auto split: if_splits)
  moreover obtain hb where hb: "aload (rx_mem c) (curr_ptr (ci_rx c)) 3 = Inr hb"
    using assms calculation by (subst (asm) parse_msgs.simps) (auto split: sum.splits)
  moreover let ?n = "3 + unat (body_len (dec_header hb))"
  have n: "?n \<le> curr_len (ci_rx c)"
    using assms calculation by (subst (asm) parse_msgs.simps) (auto simp: Let_def split: if_splits)
  obtain p c1 k where h: "handle_msg ops c (dec_header hb) ((core s)\<lparr>rx_pos := curr_ptr (ci_rx c) + 3\<rparr>) = (p, c1, k)"
    by (cases "handle_msg ops c (dec_header hb) ((core s)\<lparr>rx_pos := curr_ptr (ci_rx c) + 3\<rparr>)") auto
  show thesis
  proof (rule that [OF n h], cases p)
    case (Inl e)
    then show "case p of Inl e \<Rightarrow> s' = put_client a c1 (s\<lparr>core := k\<rparr>)
      | Inr q \<Rightarrow> (\<exists>p2 s2. send_response (ci_fd c1) q (put_client a c1 (s\<lparr>core := k\<rparr>)) = Some (p2, s2) \<and>
          (s' = s2 \<or> parse_msgs ops a (put_client a (advance_rx ?n c1) s2) = Some (r, s') \<or>
           drop_client a (put_client a (advance_rx ?n c1) s2) = (r, s')))"
      using assms(1,2) h n hb calculation(1) by (subst (asm) parse_msgs.simps) simp
  next
    case (Inr q)
    obtain p2 s2 where r2: "send_response (ci_fd c1) q (put_client a c1 (s\<lparr>core := k\<rparr>)) = Some (p2, s2)"
      using assms(1,2) h n hb calculation(1) Inr by (subst (asm) parse_msgs.simps) (auto split: option.splits)
    then have "s' = s2 \<or> parse_msgs ops a (put_client a (advance_rx ?n c1) s2) = Some (r, s') \<or>
        drop_client a (put_client a (advance_rx ?n c1) s2) = (r, s')"
      using assms(1,2) h n hb calculation(1) Inr
      by (subst (asm) parse_msgs.simps) (simp add: Let_def split: sum.splits if_splits)
    with r2 Inr show "case p of Inl e \<Rightarrow> s' = put_client a c1 (s\<lparr>core := k\<rparr>)
      | Inr q \<Rightarrow> (\<exists>p2 s2. send_response (ci_fd c1) q (put_client a c1 (s\<lparr>core := k\<rparr>)) = Some (p2, s2) \<and>
          (s' = s2 \<or> parse_msgs ops a (put_client a (advance_rx ?n c1) s2) = Some (r, s') \<or>
           drop_client a (put_client a (advance_rx ?n c1) s2) = (r, s')))" by auto
  qed
qed

text \<open>
  Reasoning about all messages of a buffer: a relation between states holds if each step - a handler
  that fails, a message that is answered, a client that is dropped - keeps it, given a condition \<open>I\<close>
  that each answered message keeps.
\<close>

lemma parse_msgs_rel:
  assumes "parse_msgs ops a s = Some (r, s')" "client_heap s a = Some c" "I s c" "R s s"
    and fails: "\<And>t c h p e c1 k. I t c \<Longrightarrow> R s t \<Longrightarrow> client_heap t a = Some c \<Longrightarrow>
      handle_msg ops c h ((core t)\<lparr>rx_pos := p\<rparr>) = (Inl e, c1, k) \<Longrightarrow> R s (put_client a c1 (t\<lparr>core := k\<rparr>))"
    and answers: "\<And>t c h p q c1 k p2 t2. I t c \<Longrightarrow> R s t \<Longrightarrow> client_heap t a = Some c \<Longrightarrow>
      3 + unat (body_len h) \<le> curr_len (ci_rx c) \<Longrightarrow>
      handle_msg ops c h ((core t)\<lparr>rx_pos := p\<rparr>) = (Inr q, c1, k) \<Longrightarrow>
      send_response (ci_fd c1) q (put_client a c1 (t\<lparr>core := k\<rparr>)) = Some (p2, t2) \<Longrightarrow>
      R s t2 \<and> R s (put_client a (advance_rx (3 + unat (body_len h)) c1) t2) \<and>
      I (put_client a (advance_rx (3 + unat (body_len h)) c1) t2) (advance_rx (3 + unat (body_len h)) c1)"
    and drops: "\<And>t c q t'. I t c \<Longrightarrow> R s t \<Longrightarrow> client_heap t a = Some c \<Longrightarrow> drop_client a t = (q, t') \<Longrightarrow> R s t'"
  shows "R s s'"
proof -
  have "R s s'" if "parse_msgs ops a t = Some (r, s')" "client_heap t a = Some c" "I t c" "R s t" for t c
    using that
  proof (induction "curr_len (ci_rx c)" arbitrary: t c rule: less_induct)
    case less
    show ?case
    proof (cases "s' = t")
      case False
      obtain hb p c1 k where step: "3 + unat (body_len (dec_header hb)) \<le> curr_len (ci_rx c)"
          "handle_msg ops c (dec_header hb) ((core t)\<lparr>rx_pos := curr_ptr (ci_rx c) + 3\<rparr>) = (p, c1, k)"
          "case p of Inl e \<Rightarrow> s' = put_client a c1 (t\<lparr>core := k\<rparr>)
            | Inr q \<Rightarrow> (\<exists>p2 s2. send_response (ci_fd c1) q (put_client a c1 (t\<lparr>core := k\<rparr>)) = Some (p2, s2) \<and>
                (s' = s2 \<or> parse_msgs ops a (put_client a (advance_rx (3 + unat (body_len (dec_header hb))) c1) s2) = Some (r, s') \<or>
                 drop_client a (put_client a (advance_rx (3 + unat (body_len (dec_header hb))) c1) s2) = (r, s')))"
        using parse_msgs_step [OF less.prems(1,2) False] .
      let ?c = "advance_rx (3 + unat (body_len (dec_header hb))) c1"
      have len: "curr_len (ci_rx ?c) < curr_len (ci_rx c)"
        using handle_msg_kept [of c ops "dec_header hb" "(core t)\<lparr>rx_pos := curr_ptr (ci_rx c) + 3\<rparr>"] step(1,2)
        by (simp add: advance_rx_def rx_kept_def)
      show ?thesis
      proof (cases p)
        case (Inr q)
        then obtain p2 s2 where s2: "send_response (ci_fd c1) q (put_client a c1 (t\<lparr>core := k\<rparr>)) = Some (p2, s2)"
            "s' = s2 \<or> parse_msgs ops a (put_client a ?c s2) = Some (r, s') \<or> drop_client a (put_client a ?c s2) = (r, s')"
          using step(3) by auto
        have ok: "R s s2" "R s (put_client a ?c s2)" "I (put_client a ?c s2) ?c"
          using answers [OF less.prems(3,4,2) step(1) _ s2(1)] step(2) Inr by simp_all
        have heap: "client_heap (put_client a ?c s2) a = Some ?c" by simp
        from s2(2) show ?thesis
          using ok(1) less.hyps [OF len _ heap ok(3,2)] drops [OF ok(3,2) heap] by blast
      qed (use step(2,3) fails [OF less.prems(3,4,2)] in simp)
    qed (use less.prems(4) in simp)
  qed
  then show ?thesis using assms(1-4) by blast
qed

context sized_reads
begin

lemma handle_msg_bufs:
  assumes "bufs_wf s" "client_heap s a = Some c" "handle_msg ops c h ((core s)\<lparr>rx_pos := p\<rparr>) = (r, c', k)"
  shows "bufs_wf (put_client a c' (s\<lparr>core := k\<rparr>))" "rx_wf c'" "curr_len (ci_rx c') = curr_len (ci_rx c)"
proof -
  have kept: "rx_kept c c'" using handle_msg_kept [of c ops h "(core s)\<lparr>rx_pos := p\<rparr>"] assms(3) by simp
  then show wf: "rx_wf c'" "curr_len (ci_rx c') = curr_len (ci_rx c)"
    using rx_wf_kept assms(1,2) by (auto simp: bufs_wf_def rx_kept_def)
  have "plugins_sized ((core s)\<lparr>rx_pos := p\<rparr>)" using assms(1) by (simp add: bufs_wf_def plugins_sized_def)
  from handle_msg_core_kept [OF this, of c h] have "core_kept ((core s)\<lparr>rx_pos := p\<rparr>) k" using assms(3) by simp
  moreover have "bufs_wf (s\<lparr>core := (core s)\<lparr>rx_pos := p\<rparr>\<rparr>)"
    using assms(1) by (simp add: bufs_wf_def server_wf_def plugins_sized_def)
  ultimately have "bufs_wf (s\<lparr>core := k\<rparr>)"
    using bufs_wf_core [of "s\<lparr>core := (core s)\<lparr>rx_pos := p\<rparr>\<rparr>" k] by simp
  then show "bufs_wf (put_client a c' (s\<lparr>core := k\<rparr>))" using wf(1) by (rule bufs_wf_put)
qed

lemma parse_msgs_bufs:
  assumes "bufs_wf s" "parse_msgs ops a s = Some (r, s')"
  shows "bufs_wf s'"
proof (cases "client_heap s a")
  case (Some c)
  show ?thesis
  proof (rule parse_msgs_rel [OF assms(2) Some, where I = "\<lambda>t d. True" and R = "\<lambda>s t. bufs_wf t"], goal_cases)
    case (3 t c h p e c1 k)
    then show ?case using handle_msg_bufs(1) by blast
  next
    case (4 t c h p q c1 k p2 t2)
    note c1 = handle_msg_bufs [OF 4(2,3,5)]
    have t2: "bufs_wf t2" by (rule send_response_bufs [OF c1(1) 4(6)])
    have "rx_wf (advance_rx (3 + unat (body_len h)) c1)" by (rule advance_rx_wf) (simp_all add: c1(2,3) 4(4))
    with t2 show ?case by (simp add: bufs_wf_put)
  next
    case (5 t c q t')
    then show ?case using drop_client_bufs [of t a] by simp
  qed (use assms(1) in simp_all)
qed (use assms in \<open>simp add: parse_msgs.simps\<close>)

lemma handle_multiple_bufs:
  assumes "bufs_wf s" "handle_multiple_client_requests ops sd s = Some (r, s')"
  shows "bufs_wf s'"
proof -
  obtain q s1 where s1: "client_of_fd sd s = (q, s1)" by fastforce
  have wf1: "bufs_wf s1" using client_of_fd_bufs [OF assms(1), of sd] by (simp add: s1)
  show ?thesis
    using assms(2) wf1
    by (auto simp: handle_multiple_client_requests_def s1 dest: read_from_socket_bufs parse_msgs_bufs
        dest!: remove_clientD intro: bufs_wf_cong split: sum.splits option.splits prod.splits bool.splits if_splits)
qed

lemma poll_entry_bufs:
  assumes "bufs_wf s" "poll_entry ops acc p s = Some (r, s')"
  shows "bufs_wf s'"
  using assms(2) assms(1)
  by (auto simp: poll_entry_def dest: handle_multiple_bufs add_new_clientD dest!: remove_clientD intro: bufs_wf_cong
      split: sum.splits prod.splits if_splits)

lemma poll_loop_bufs: "bufs_wf s \<Longrightarrow> poll_loop ops acc cap ps s = Some (r, s') \<Longrightarrow> bufs_wf s'"
  by (induction ps arbitrary: s) (auto dest: poll_entry_bufs split: if_splits option.splits prod.splits sum.splits)

lemma pool_client_msgs_bufs:
  assumes "bufs_wf s" "pool_client_msgs ops ans acc s = Some (r, s')"
  shows "bufs_wf s'"
proof -
  have "bufs_wf (s\<lparr>poll_fds := ps\<rparr>)" for ps using assms(1) by (simp add: bufs_wf_def)
  moreover have "bufs_wf t \<Longrightarrow> bufs_wf (clean_poll_fds t)" for t :: "('a, 'b) Server"
    by (simp add: clean_poll_fds_def bufs_wf_def Let_def)
  ultimately show ?thesis
    using assms by (auto simp: pool_client_msgs_def Let_def dest!: poll_loop_bufs [rotated]
        split: poll_answer.splits option.splits prod.splits sum.splits)
qed

lemma server_run_bufs: "server_run ops s \<Longrightarrow> bufs_wf s"
proof (induction rule: server_run.induct)
  case (start la junk bs w tx pos mem grow n s)
  then show ?case
    by (auto simp: prepare_server_socket_def HwioServer_ctor_def push_poll_fd_def Let_def bufs_wf_def server_wf_def
        plugins_sized_def split: if_splits)
next
  case (install s p fn_name)
  then show ?case by (simp add: bufs_wf_def server_wf_def install_sized)
    (simp add: install_plugin_fn_def)
next
  case (round s acc ans s')
  then show ?case using pool_client_msgs_bufs by blast
qed

end

text \<open>
  C7: whatever has happened to a running server that serves mapped devices, and whatever the next
  round of the poll loop does, the transmit buffer has its size and the unprocessed bytes of every
  client lie inside its receive buffer. This also holds when the round fails, so the faults of the
  model are accesses outside a buffer and never a buffer of the wrong shape.
\<close>

theorem running_server_buffers:
  assumes "server_run mmap_ops s" "pool_client_msgs mmap_ops ans acc s = Some (r, s')"
  shows "acap (tx_buffer (core s')) = BUFFER_SIZE \<and>
    (\<forall>a. pred_option (\<lambda>c. acap (rx_mem c) = RX_BUFFER_SIZE \<and>
       curr_ptr (ci_rx c) + curr_len (ci_rx c) \<le> RX_BUFFER_SIZE) (client_heap s' a))"
proof -
  have "bufs_wf s'"
    by (rule mmap_sized.pool_client_msgs_bufs [OF mmap_sized.server_run_bufs [OF assms(1)] assms(2)])
  then show ?thesis by (auto simp: bufs_wf_def server_wf_def rx_wf_def pred_option_def elem_set)
qed

text \<open>The second round of the run: a second connection is accepted.\<close>

definition demo_two_conns :: "(mmap_world, nat) Server" where
  "demo_two_conns = snd (the (pool_client_msgs mmap_ops (Poll_ready [POLLIN, 0]) 6 demo_accepted))"

theorem running_server_buffers_witness:
  "acap (tx_buffer (core demo_two_conns)) = BUFFER_SIZE \<and>
   (\<forall>a. pred_option (\<lambda>c. acap (rx_mem c) = RX_BUFFER_SIZE \<and>
      curr_ptr (ci_rx c) + curr_len (ci_rx c) \<le> RX_BUFFER_SIZE) (client_heap demo_two_conns a)) \<and>
   client_heap demo_two_conns 0 \<noteq> None \<and> client_heap demo_two_conns 1 \<noteq> None"
proof -
  have run: "pool_client_msgs mmap_ops (Poll_ready [POLLIN, 0]) 6 demo_accepted = Some (Inr (), demo_two_conns)"
    "client_heap demo_two_conns 0 \<noteq> None \<and> client_heap demo_two_conns 1 \<noteq> None"
    by (simp_all add: demo_two_conns_def demo_accepted_def demo_start_def prepare_server_socket_def HwioServer_ctor_def
        push_poll_fd_def pool_client_msgs_def poll_entry_def poll_failed_def add_new_client_def clean_poll_fds_def Let_def)
  show ?thesis using running_server_buffers [OF demo_run run(1)] run(2) by blast
qed

end
