(* ===== verification/Hwio_Progress.thy ===== *)
theory Hwio_Progress
  imports Hwio_Buffers
begin

text \<open>
  When a round of the poll loop ends. The server retries \<open>recv\<close> and \<open>send\<close> in loops of its own, so a
  single connection can keep it busy for ever. What the operating system has to answer on the
  connections \<open>ppoll\<close> reports for a round to end, whatever bytes the clients send, is stated and
  proved sufficient here: no other loop of the server depends on anything outside.
\<close>

section \<open>Answers that end the retry loops\<close>

definition recv_ready :: "recv_event list \<Rightarrow> bool" where
  "recv_ready es \<longleftrightarrow> \<not> list_all is_retry es"

lemma recv_loop_None_iff: "recv_loop n es = None \<longleftrightarrow> \<not> recv_ready es"
  by (induction n es rule: recv_loop.induct) (auto simp: recv_ready_def is_retry_def)

text \<open>Room for \<open>n\<close> bytes, or an error at some time.\<close>

definition send_ready :: "nat \<Rightarrow> send_event list \<Rightarrow> bool" where
  "send_ready n es \<longleftrightarrow> Send_error \<in> set es \<or> n \<le> send_room es"

lemma send_ready_mono: "send_ready n es \<Longrightarrow> m \<le> n \<Longrightarrow> send_ready m es"
  by (auto simp: send_ready_def)

lemma send_loop_returns:
  "send_ready n es \<Longrightarrow> length bs \<le> n \<Longrightarrow>
   \<exists>ok sent es'. send_loop es bs = Some (ok, sent, es') \<and> (ok \<longrightarrow> send_ready (n - length bs) es')"
proof (induction es bs arbitrary: n rule: send_loop.induct)
  case (3 es b bs)
  then show ?case using "3.IH" [of n] by (simp add: send_ready_def)
next
  case (4 es b bs)
  then show ?case using "4.IH" [of n] by (simp add: send_ready_def)
next
  case (6 k es b bs)
  show ?case
  proof (cases "length (b # bs) < k")
    case True
    then have "send_ready (n - length (b # bs)) (Send_some (k - length (b # bs)) # es)"
      using "6.prems" by (simp add: send_ready_def) linarith
    then show ?thesis using True by auto
  next
    case False
    have "send_ready (n - k) es" using "6.prems"(1) by (auto simp: send_ready_def)
    then obtain ok sent es' where "send_loop es (drop k (b # bs)) = Some (ok, sent, es')"
        "ok \<longrightarrow> send_ready (n - k - length (drop k (b # bs))) es'"
      using "6.IH" [OF False, of "n - k"] "6.prems"(2) by (metis diff_le_mono length_drop)
    then show ?thesis using False by simp
  qed
qed (auto simp: send_ready_def)

lemma sock_send_returns:
  assumes "send_ready n (tx_events k fd)" "length bs \<le> n"
  shows "\<exists>ok k'. sock_send fd bs k = Some (ok, k') \<and> (ok \<longrightarrow> send_ready (n - length bs) (tx_events k' fd))"
  using send_loop_returns [OF assms] by (auto simp: sock_send_def)

text \<open>A response is at most the transmit buffer.\<close>

lemma send_response_returns:
  assumes "acap (tx_buffer (core s)) = BUFFER_SIZE" "send_ready (BUFFER_SIZE + m) (tx_events (socks s) fd)"
  shows "\<exists>q s'. send_response fd r s = Some (q, s') \<and>
    (\<forall>r'. q = Inr r' \<longrightarrow> \<not> disconnect r' \<longrightarrow> send_ready m (tx_events (socks s') fd))"
proof (cases "tx_size r \<le> BUFFER_SIZE")
  case True
  then have bs: "aload (tx_buffer (core s)) 0 (tx_size r) = Inr (abytes (tx_buffer (core s)) 0 (tx_size r))"
    using assms(1) by (simp add: aload_ok)
  obtain ok n where n: "sock_send fd (abytes (tx_buffer (core s)) 0 (tx_size r)) (socks s) = Some (ok, n)"
      "ok \<longrightarrow> send_ready (BUFFER_SIZE + m - tx_size r) (tx_events n fd)"
    using sock_send_returns [OF assms(2), of "abytes (tx_buffer (core s)) 0 (tx_size r)"] True by auto
  have "ok \<longrightarrow> send_ready m (tx_events n fd)" using send_ready_mono [OF n(2) [rule_format], of m] True by simp
  then show ?thesis using bs n(1) by (simp add: send_response_def)
qed (use assms(1) in \<open>simp add: send_response_def aload_fault\<close>)

section \<open>One connection\<close>

text \<open>The answers on the other connections are not used up, and the listening socket stays.\<close>

definition events_kept :: "int \<Rightarrow> ('w, 'd) Server \<Rightarrow> ('w, 'd) Server \<Rightarrow> bool" where
  "events_kept fd s s' \<longleftrightarrow> master_socket s' = master_socket s \<and> (\<forall>n. n \<noteq> fd \<longrightarrow>
     rx_events (socks s') n = rx_events (socks s) n \<and> tx_events (socks s') n = tx_events (socks s) n)"

lemma events_kept_trans: "events_kept fd s s1 \<Longrightarrow> events_kept fd s1 s' \<Longrightarrow> events_kept fd s s'"
  by (simp add: events_kept_def)

lemma events_kept_same: "rx_events (socks s') = rx_events (socks s) \<Longrightarrow> tx_events (socks s') = tx_events (socks s) \<Longrightarrow>
   master_socket s' = master_socket s \<Longrightarrow> events_kept fd s s'"
  by (simp add: events_kept_def)

lemma remove_client_events:
  "remove_client fd s = (r, s') \<Longrightarrow> rx_events (socks s') = rx_events (socks s) \<and> tx_events (socks s') = tx_events (socks s) \<and>
   master_socket s' = master_socket s"
  by (auto simp: remove_client_def delete_client_def sock_close_def split: option.splits if_splits)

lemma add_new_client_events: "add_new_client fd s = (r, s') \<Longrightarrow> socks s' = socks s \<and> master_socket s' = master_socket s"
  by (auto simp: add_new_client_def push_poll_fd_def Let_def split: if_splits)

lemma client_of_fd_events: "client_of_fd fd s = (r, s') \<Longrightarrow> socks s' = socks s \<and> master_socket s' = master_socket s"
  by (auto simp: client_of_fd_def dest: add_new_client_events split: option.splits)

lemma drop_client_events:
  assumes "drop_client a s = (r, s')"
  shows "events_kept fd s s'"
proof (rule events_kept_same)
  show "rx_events (socks s') = rx_events (socks s)" "tx_events (socks s') = tx_events (socks s)"
      "master_socket s' = master_socket s"
    using assms by (auto simp: drop_client_def dest: remove_client_events split: option.splits prod.splits sum.splits)
qed

lemma send_response_events: "send_response fd q s = Some (r, s') \<Longrightarrow> events_kept fd s s'"
  by (auto simp: send_response_def sock_send_def events_kept_def split: sum.splits option.splits)

lemma read_from_socket_returns:
  assumes "client_heap s a = Some c" "recv_ready (rx_events (socks s) (ci_fd c))"
  obtains q s' where "read_from_socket a s = Some (q, s')" "events_kept (ci_fd c) s s'"
    "tx_events (socks s') = tx_events (socks s)" "\<exists>c'. client_heap s' a = Some c' \<and> ci_fd c' = ci_fd c"
proof -
  have some: "(recv_loop n (rx_events (socks s) (ci_fd c)) = None) = False" for n using assms(2) by (simp add: recv_loop_None_iff)
  then have "\<exists>q s'. read_from_socket a s = Some (q, s') \<and> events_kept (ci_fd c) s s' \<and>
      tx_events (socks s') = tx_events (socks s) \<and> (\<exists>c'. client_heap s' a = Some c' \<and> ci_fd c' = ci_fd c)"
    using assms(1) by (auto simp: read_from_socket_def events_kept_def Let_def some split: sum.splits option.splits recv_result.splits)
  then show thesis using that by blast
qed

text \<open>The most a server sends to one client in a round.\<close>

definition round_bytes :: nat where "round_bytes = BUFFER_SIZE * (RX_BUFFER_SIZE div 3)"

text \<open>The operating system answers on a descriptor that \<open>ppoll\<close> reports as readable.\<close>

definition entry_ready :: "('w, 'd) Server \<Rightarrow> pollfd \<Rightarrow> bool" where
  "entry_ready s p \<longleftrightarrow> pfd_revents p = 0 \<or> poll_failed (pfd_revents p) \<or> pfd_fd p = master_socket s \<or>
     recv_ready (rx_events (socks s) (pfd_fd p)) \<and> send_ready round_bytes (tx_events (socks s) (pfd_fd p))"

text \<open>
  Every message is at least a header, so a buffer of \<open>n\<close> bytes gets at most \<open>n div 3\<close> responses.
\<close>

context sized_reads
begin

lemma answer_returns:
  assumes "bufs_wf s" "client_heap s a = Some c" "handle_msg ops c h ((core s)\<lparr>rx_pos := x\<rparr>) = (p, c1, k)"
    and "n = 3 + unat (body_len h)" "n \<le> curr_len (ci_rx c)"
    and "send_ready (BUFFER_SIZE * (curr_len (ci_rx c) div 3)) (tx_events (socks s) (ci_fd c))"
  obtains q s2 where "send_response (ci_fd c1) r (put_client a c1 (s\<lparr>core := k\<rparr>)) = Some (q, s2)"
    "bufs_wf (put_client a (advance_rx n c1) s2)" "ci_fd c1 = ci_fd c"
    "curr_len (ci_rx (advance_rx n c1)) < curr_len (ci_rx c)"
    "\<And>r'. q = Inr r' \<Longrightarrow> \<not> disconnect r' \<Longrightarrow>
      send_ready (BUFFER_SIZE * (curr_len (ci_rx (advance_rx n c1)) div 3)) (tx_events (socks s2) (ci_fd c))"
proof -
  let ?s = "put_client a c1 (s\<lparr>core := k\<rparr>)" and ?m = "BUFFER_SIZE * ((curr_len (ci_rx c) - n) div 3)"
  note c1 = handle_msg_bufs [OF assms(1-3)]
  have fd: "ci_fd c1 = ci_fd c"
    using handle_msg_kept [of c ops h "(core s)\<lparr>rx_pos := x\<rparr>"] assms(3) by (simp add: rx_kept_def)
  have len: "curr_len (ci_rx (advance_rx n c1)) = curr_len (ci_rx c) - n" using c1(3) by (simp add: advance_rx_def)
  have "(curr_len (ci_rx c) - n) div 3 + 1 \<le> curr_len (ci_rx c) div 3" using assms(4,5) by linarith
  then have "BUFFER_SIZE + ?m \<le> BUFFER_SIZE * (curr_len (ci_rx c) div 3)" using mult_le_mono2 [of _ _ BUFFER_SIZE] by fastforce
  then have "send_ready (BUFFER_SIZE + ?m) (tx_events (socks ?s) (ci_fd c))" using send_ready_mono [OF assms(6)] by simp
  moreover have "acap (tx_buffer (core ?s)) = BUFFER_SIZE" using c1(1) by (simp add: bufs_wf_def server_wf_def)
  ultimately obtain q s2 where q: "send_response (ci_fd c) r ?s = Some (q, s2)"
      "\<forall>r'. q = Inr r' \<longrightarrow> \<not> disconnect r' \<longrightarrow> send_ready ?m (tx_events (socks s2) (ci_fd c))"
    using send_response_returns by blast
  have "bufs_wf (put_client a (advance_rx n c1) s2)"
    using q(1) fd send_response_bufs [OF c1(1)] advance_rx_wf [OF c1(2), of n] c1(3) assms(5) by (simp add: bufs_wf_put)
  then show thesis using that [of q s2] q fd len assms(4,5) by simp
qed

lemma parse_msgs_returns:
  assumes "bufs_wf s" "client_heap s a = Some c"
    and "send_ready (BUFFER_SIZE * (curr_len (ci_rx c) div 3)) (tx_events (socks s) (ci_fd c))"
  shows "parse_msgs ops a s \<noteq> None"
  using assms
proof (induction "curr_len (ci_rx c)" arbitrary: s c rule: less_induct)
  case less
  note step = parse_msgs.simps [of ops a s]
  show ?case
  proof (cases "curr_len (ci_rx c) < 3")
    case False
    have rx: "rx_wf c" using less.prems(1,2) by (simp add: bufs_wf_def)
    then have head: "aload (rx_mem c) (curr_ptr (ci_rx c)) 3 = Inr (abytes (rx_mem c) (curr_ptr (ci_rx c)) 3)"
      using False by (simp add: rx_wf_def aload_ok)
    define h where "h = dec_header (abytes (rx_mem c) (curr_ptr (ci_rx c)) 3)"
    define n where "n = 3 + unat (body_len h)"
    obtain p c1 k where msg: "handle_msg ops c h ((core s)\<lparr>rx_pos := curr_ptr (ci_rx c) + 3\<rparr>) = (p, c1, k)"
      by (cases "handle_msg ops c h ((core s)\<lparr>rx_pos := curr_ptr (ci_rx c) + 3\<rparr>)") auto
    show ?thesis
    proof (cases "n \<le> curr_len (ci_rx c)")
      case True
      show ?thesis
      proof (cases p)
        case (Inr r)
        obtain q s2 where q: "send_response (ci_fd c1) r (put_client a c1 (s\<lparr>core := k\<rparr>)) = Some (q, s2)"
            "bufs_wf (put_client a (advance_rx n c1) s2)" "ci_fd c1 = ci_fd c" "curr_len (ci_rx (advance_rx n c1)) < curr_len (ci_rx c)"
            "\<And>r'. q = Inr r' \<Longrightarrow> \<not> disconnect r' \<Longrightarrow>
              send_ready (BUFFER_SIZE * (curr_len (ci_rx (advance_rx n c1)) div 3)) (tx_events (socks s2) (ci_fd c))"
          using answer_returns [OF less.prems(1,2) msg n_def True less.prems(3), of r] by blast
        have "ci_fd (advance_rx n c1) = ci_fd c" using q(3) by (simp add: advance_rx_def)
        then have "parse_msgs ops a (put_client a (advance_rx n c1) s2) \<noteq> None" if "q = Inr r'" "\<not> disconnect r'" for r'
          using less.hyps [OF q(4,2)] q(5) [OF that] by simp
        then show ?thesis
          unfolding step using less.prems(2) False True Inr head msg q(1) by (cases q) (simp_all add: Let_def flip: h_def n_def)
      qed (use less.prems(2) False True head msg in \<open>simp add: step flip: h_def n_def\<close>)
    qed (use less.prems(2) False head in \<open>simp add: step flip: h_def n_def\<close>)
  qed (use less.prems(2) in \<open>simp add: step\<close>)
qed

lemma parse_msgs_events:
  assumes "parse_msgs ops a s = Some (r, s')" "client_heap s a = Some c" "ci_fd c = fd"
  shows "events_kept fd s s'"
proof (rule parse_msgs_rel [OF assms(1,2), where I = "\<lambda>t d. ci_fd d = fd" and R = "events_kept fd"], goal_cases)
  case (3 t d h p e c1 k)
  then show ?case by (simp add: events_kept_def)
next
  case (4 t d h p q c1 k p2 t2)
  have "ci_fd c1 = fd" using handle_msg_kept [of d ops h "(core t)\<lparr>rx_pos := p\<rparr>"] 4(1,5) by (simp add: rx_kept_def)
  then show ?case
    using 4(2) send_response_events [OF 4(6)] by (auto simp: events_kept_def advance_rx_def)
next
  case (5 t d q t')
  then show ?case using drop_client_events events_kept_trans by blast
qed (simp_all add: events_kept_def assms(3))

lemma handle_multiple_returns:
  assumes "bufs_wf s" "recv_ready (rx_events (socks s) fd)" "send_ready round_bytes (tx_events (socks s) fd)"
  shows "\<exists>r s'. handle_multiple_client_requests ops fd s = Some (r, s') \<and> events_kept fd s s'"
proof -
  obtain q s1 where s1: "client_of_fd fd s = (q, s1)" by fastforce
  have wf1: "bufs_wf s1" "socks s1 = socks s" "master_socket s1 = master_socket s"
    using client_of_fd_bufs [OF assms(1), of fd] client_of_fd_events [OF s1] by (simp_all add: s1)
  consider (fails) e where "q = Inl e" | (gone) a where "q = Inr a" "client_heap s1 a = None"
    | (other) a c where "q = Inr a" "client_heap s1 a = Some c" "ci_fd c \<noteq> fd"
    | (serve) a c where "q = Inr a" "client_heap s1 a = Some c" "ci_fd c = fd"
    by (cases q; metis not_None_eq)
  then show ?thesis
  proof cases
    case (serve a c)
    have ready: "recv_ready (rx_events (socks s1) (ci_fd c))" using assms(2) serve(3) wf1(2) by simp
    obtain p s2 where s2: "read_from_socket a s1 = Some (p, s2)" "events_kept fd s1 s2" "tx_events (socks s2) = tx_events (socks s1)"
        "\<exists>c'. client_heap s2 a = Some c' \<and> ci_fd c' = fd"
      using read_from_socket_returns [OF serve(2) ready] serve(3) by metis
    then obtain c2 where c2: "client_heap s2 a = Some c2" "ci_fd c2 = fd" by blast
    have wf2: "bufs_wf s2" by (rule read_from_socket_bufs [OF wf1(1) s2(1)])
    then have "rx_wf c2" using c2(1) by (simp add: bufs_wf_def)
    then have "curr_len (ci_rx c2) \<le> RX_BUFFER_SIZE" by (simp add: rx_wf_def)
    then have "BUFFER_SIZE * (curr_len (ci_rx c2) div 3) \<le> round_bytes"
      unfolding round_bytes_def by (intro mult_le_mono2 div_le_mono)
    then have "send_ready (BUFFER_SIZE * (curr_len (ci_rx c2) div 3)) (tx_events (socks s2) (ci_fd c2))"
      using assms(3) s2(3) wf1(2) c2(2) send_ready_mono by simp
    then obtain r s' where parse: "parse_msgs ops a s2 = Some (r, s')"
      using parse_msgs_returns [OF wf2 c2(1)] by auto
    have "events_kept fd s2 s'" by (rule parse_msgs_events [OF parse c2])
    moreover obtain r3 s3 where s3: "remove_client fd s2 = (r3, s3)" by fastforce
    then have "events_kept fd s2 s3" using remove_client_events events_kept_same by blast
    moreover have "events_kept fd s s2" using s2(2) wf1(2,3) by (simp add: events_kept_def)
    ultimately show ?thesis
      using s1 serve s2(1) parse s3
      by (auto simp: handle_multiple_client_requests_def events_kept_def split: sum.split bool.split)
  qed (use s1 wf1(2,3) in \<open>simp_all add: handle_multiple_client_requests_def events_kept_def\<close>)
qed

lemma poll_entry_returns:
  assumes "bufs_wf s" "entry_ready s p"
  shows "\<exists>r s'. poll_entry ops acc p s = Some (r, s') \<and> events_kept (pfd_fd p) s s'"
proof -
  obtain q1 s1 where rm: "remove_client (pfd_fd p) s = (q1, s1)" by fastforce
  obtain q2 s2 where add: "add_new_client acc s = (q2, s2)" by fastforce
  have s1: "events_kept (pfd_fd p) s s1" using remove_client_events [OF rm] events_kept_same by blast
  have s2: "events_kept (pfd_fd p) s s2" using add_new_client_events [OF add] by (simp add: events_kept_def)
  consider "pfd_revents p = 0 \<or> pfd_fd p < 0 \<or> poll_failed (pfd_revents p) \<or> pfd_fd p = master_socket s"
    | (serve) "pfd_revents p \<noteq> 0" "\<not> pfd_fd p < 0" "\<not> poll_failed (pfd_revents p)" "pfd_fd p \<noteq> master_socket s" by blast
  then show ?thesis
  proof cases
    case 1
    then show ?thesis using rm add s1 s2 by (auto simp: poll_entry_def events_kept_def split: sum.split prod.split)
  next
    case serve
    then have "recv_ready (rx_events (socks s) (pfd_fd p))" "send_ready round_bytes (tx_events (socks s) (pfd_fd p))"
      using assms(2) by (simp_all add: entry_ready_def)
    then show ?thesis using handle_multiple_returns [OF assms(1)] serve by (simp add: poll_entry_def)
  qed
qed

lemma poll_loop_returns:
  assumes "bufs_wf s" "distinct (map pfd_fd ps)" "list_all (entry_ready s) ps"
  shows "poll_loop ops acc cap ps s \<noteq> None"
  using assms
proof (induction ps arbitrary: s)
  case (Cons p ps)
  have p: "entry_ready s p" using Cons.prems(3) by simp
  obtain r s1 where s1: "poll_entry ops acc p s = Some (r, s1)" "events_kept (pfd_fd p) s s1"
    using poll_entry_returns [OF Cons.prems(1) p] by blast
  have "entry_ready s1 p'" if "p' \<in> set ps" for p'
  proof -
    have "pfd_fd p' \<noteq> pfd_fd p" using Cons.prems(2) that by (auto simp: image_iff)
    then show ?thesis using Cons.prems(3) that s1(2) by (auto simp: entry_ready_def events_kept_def list_all_iff)
  qed
  then have "poll_loop ops acc cap ps s1 \<noteq> None"
    using Cons.prems(2) poll_entry_bufs [OF Cons.prems(1) s1(1)] by (intro Cons.IH) (simp_all add: list_all_iff)
  then show ?case using s1(1) by (auto split: sum.split)
qed simp

end

text \<open>A known client whose descriptor only answers with \<open>EAGAIN\<close> or \<open>EINTR\<close> keeps the server busy for ever.\<close>

lemma unready_client_spins:
  assumes "map_of (fd_to_client s) fd = Some a" "client_heap s a = Some c" "ci_fd c = fd" "no_overlap c" "rx_wf c"
    and "\<not> recv_ready (rx_events (socks s) fd)"
  shows "handle_multiple_client_requests ops fd s = None"
proof -
  obtain rx where "compact_rx (ci_rx c) = Inr rx" using compact_rx_ok [OF assms(5,4)] .
  moreover have "recv_loop n (rx_events (socks s) fd) = None" for n using assms(6) by (simp add: recv_loop_None_iff)
  ultimately show ?thesis
    using assms(1-3) by (simp add: handle_multiple_client_requests_def client_of_fd_def read_from_socket_def)
qed

section \<open>The poll loop returns\<close>

text \<open>
  C10: in every state of a running server a round of the poll loop ends, normally or with a fault,
  whatever bytes the clients have sent: it is enough that each connection that \<open>ppoll\<close> reports as
  readable answers \<open>recv\<close> with something else than a retry, and that its peer takes the at most
  44738560 bytes of responses to a full receive buffer, or fails.
\<close>

theorem round_returns:
  assumes "server_run mmap_ops s" "list_all2 (\<lambda>p e. entry_ready s (p\<lparr>pfd_revents := e\<rparr>)) (poll_fds s) revs"
  shows "\<exists>r s'. pool_client_msgs mmap_ops (Poll_ready revs) acc s = Some (r, s')"
proof -
  let ?ps = "map2 (\<lambda>p e. p\<lparr>pfd_revents := e\<rparr>) (poll_fds s) revs"
  let ?s = "s\<lparr>poll_fds := ?ps\<rparr>"
  have len: "length revs = length (poll_fds s)" using list_all2_lengthD [OF assms(2)] by simp
  then have "map pfd_fd ?ps = map pfd_fd (poll_fds s)" by (auto simp: list_eq_iff_nth_eq)
  then have distinct: "distinct (map pfd_fd ?ps)"
    using server_run_inv [OF assms(1)] by (simp add: server_inv_def poll_wf_def)
  have "list_all (entry_ready s) ?ps" using assms(2) by (simp add: list_all2_conv_all_nth list_all_length)
  then have ready: "list_all (entry_ready ?s) ?ps" by (simp add: entry_ready_def [abs_def])
  have "bufs_wf ?s" using mmap_sized.server_run_bufs [OF assms(1)] by (simp add: bufs_wf_def)
  then have "poll_loop mmap_ops acc (poll_cap ?s) ?ps ?s \<noteq> None" by (rule mmap_sized.poll_loop_returns [OF _ distinct ready])
  then show ?thesis by (auto simp: pool_client_msgs_def Let_def split: sum.split)
qed

text \<open>A server with a connection whose answers are a retry, a request and an error on sending.\<close>

definition demo_reading_start :: "(mmap_world, nat) Server" where
  "demo_reading_start = snd (prepare_server_socket \<lparr>la_socket = 3, la_reuseaddr = 0, la_keepalive = 0, la_bind = 0, la_listen = 0\<rparr> 0
     (HwioServer_ctor [] demo_attached (\<lambda>_. 0) 0 (\<lambda>_ _. 0) (\<lambda>n. 2 * n + 1)
       \<lparr>rx_events = (\<lambda>_. [Recv_again, Recv_data [1, 0, 0]]), tx_events = (\<lambda>_. [Send_error]), tx_data = (\<lambda>_. []), closed_fds = []\<rparr>))"

definition demo_reading :: "(mmap_world, nat) Server" where
  "demo_reading = snd (the (pool_client_msgs mmap_ops (Poll_ready [POLLIN]) 5 demo_reading_start))"

lemma demo_reading_run: "server_run mmap_ops demo_reading"
proof (rule server_run.round [where s = demo_reading_start and acc = 5 and ans = "Poll_ready [POLLIN]"])
  show "server_run mmap_ops demo_reading_start"
    by (rule server_run.start [where la = "\<lparr>la_socket = 3, la_reuseaddr = 0, la_keepalive = 0, la_bind = 0, la_listen = 0\<rparr>"
          and junk = 0]) (simp add: demo_reading_start_def prepare_server_socket_def)
  show "pool_client_msgs mmap_ops (Poll_ready [POLLIN]) 5 demo_reading_start = Some (Inr (), demo_reading)"
    by (simp add: demo_reading_def demo_reading_start_def prepare_server_socket_def HwioServer_ctor_def push_poll_fd_def
        pool_client_msgs_def poll_entry_def poll_failed_def add_new_client_def Let_def)
qed (simp_all add: demo_reading_start_def prepare_server_socket_def HwioServer_ctor_def push_poll_fd_def)

theorem round_returns_witness:
  "\<exists>r s'. pool_client_msgs mmap_ops (Poll_ready [0, POLLIN]) 6 demo_reading = Some (r, s')"
proof (rule round_returns [OF demo_reading_run])
  have "poll_fds demo_reading = [\<lparr>pfd_fd = 3, pfd_revents = 1\<rparr>, \<lparr>pfd_fd = 5, pfd_revents = 0\<rparr>]"
      "rx_events (socks demo_reading) 5 = [Recv_again, Recv_data [1, 0, 0]]" "tx_events (socks demo_reading) 5 = [Send_error]"
    by (simp_all add: demo_reading_def demo_reading_start_def prepare_server_socket_def HwioServer_ctor_def push_poll_fd_def
        pool_client_msgs_def poll_entry_def poll_failed_def add_new_client_def clean_poll_fds_def Let_def)
  then show "list_all2 (\<lambda>p e. entry_ready demo_reading (p\<lparr>pfd_revents := e\<rparr>)) (poll_fds demo_reading) [0, POLLIN]"
    by (simp add: entry_ready_def recv_ready_def is_retry_def send_ready_def)
qed

end
