(* ===== verification/Hwio_Isolation.thy ===== *)
theory Hwio_Isolation
  imports Hwio_Buffers
begin

text \<open>
  Isolation of clients: whatever bytes a client sends, the server changes memory only in the windows
  of the devices this client owns, or could have got by a query in the same bytes, and it touches no
  other client and no other connection. What a change of the world may affect is a relation, given
  by the locale \<open>confined_device\<close>; the bus objects and the plugin functions of the server are asked to
  respect it.
\<close>

section \<open>Confined changes\<close>

text \<open>\<open>changes D w w'\<close>: the step from \<open>w\<close> to \<open>w'\<close> affects at most the devices \<open>D\<close>.\<close>

locale confined_device = sized_reads ops for ops :: "('w, 'd) dev_ops" +
  fixes changes :: "'d set \<Rightarrow> 'w \<Rightarrow> 'w \<Rightarrow> bool"
  assumes changes_refl: "changes D w w"
    and changes_trans: "changes D w w1 \<Longrightarrow> changes D w1 w2 \<Longrightarrow> changes D w w2"
    and changes_mono: "changes D w w' \<Longrightarrow> D \<subseteq> D' \<Longrightarrow> changes D' w w'"
    and read_changes: "changes {} w (snd (snd (dev_read ops d off dst i n w)))"
    and write_changes: "changes {d} w (snd (dev_write ops d off src i n w))"
    and attach_changes: "changes {} w (snd (attach ops d w))"

definition owned_by :: "'d ClientInfo \<Rightarrow> 'd set" where
  "owned_by c = {d. Some d \<in> set (ci_devices c)}"

text \<open>The devices some query can find on a bus, and on the buses of the server.\<close>

definition found_on :: "('w, 'd) bus \<Rightarrow> 'd set" where
  "found_on b = {d. \<exists>spec w ds. fst (b spec w) = Inr ds \<and> d \<in> set ds}"

definition findable :: "('w, 'd) HwioServer \<Rightarrow> 'd set" where
  "findable k = \<Union> (found_on ` set (buses k))"

definition bus_confined :: "('d set \<Rightarrow> 'w \<Rightarrow> 'w \<Rightarrow> bool) \<Rightarrow> ('w, 'd) bus \<Rightarrow> bool" where
  "bus_confined changes b \<longleftrightarrow> (\<forall>spec w. changes {} w (snd (b spec w)))"

definition plugin_confined :: "('d set \<Rightarrow> 'w \<Rightarrow> 'w \<Rightarrow> bool) \<Rightarrow> ('w, 'd) plugin_info \<Rightarrow> bool" where
  "plugin_confined changes p \<longleftrightarrow> (\<forall>d rx i tx j w. changes {d} w (snd (snd (pl_fn p d rx i tx j w))))"

definition env_confined :: "('d set \<Rightarrow> 'w \<Rightarrow> 'w \<Rightarrow> bool) \<Rightarrow> ('w, 'd) HwioServer \<Rightarrow> bool" where
  "env_confined changes k \<longleftrightarrow> list_all (bus_confined changes) (buses k) \<and>
     list_all (plugin_confined changes) (plugins_fast k) \<and> list_all (plugin_confined changes) (map snd (plugins k))"

lemma env_confined_kept: "core_kept k k' \<Longrightarrow> env_confined changes k' = env_confined changes k \<and> findable k' = findable k"
  by (simp add: core_kept_def env_confined_def findable_def)

lemma send_err_world [simp]: "world (snd (snd (send_err ec msg c k))) = world k"
  by (auto simp: send_err_def split: sum.split)

lemma get_dev_owned_by: "client_get_dev c i = Some d \<Longrightarrow> d \<in> owned_by c"
  by (auto simp: client_get_dev_def owned_by_def split: if_splits) (metis nth_mem)

section \<open>The handlers\<close>

context confined_device
begin

lemma changes_empty: "changes {} w w' \<Longrightarrow> changes D w w'"
  by (erule changes_mono) simp

lemma dev_changesD:
  "dev_read ops d off dst i n w = (r, t, w') \<Longrightarrow> changes D w w'"
  "dev_write ops d off src i n w = (q, w') \<Longrightarrow> d \<in> D \<Longrightarrow> changes D w w'"
  "attach ops d w = (q, w') \<Longrightarrow> changes D w w'"
  using changes_empty [OF read_changes [of w d off dst i n]] changes_mono [OF write_changes [of d w off src i n], of D]
    changes_empty [OF attach_changes [of w d]] by auto

lemma call_plugin_changes:
  assumes "plugin_confined changes p" "d \<in> D"
  shows "changes D (world k) (world (snd (snd (call_plugin p d i c k))))"
proof -
  have "changes D w w'" if "pl_fn p d rx i t j w = (r, t', w')" for rx i t j w r t' w'
    using assms that changes_mono [of "{d}" w w' D] unfolding plugin_confined_def by (metis empty_subsetI insert_subset snd_conv)
  then show ?thesis
    by (auto simp: call_plugin_def Let_def changes_refl split: sum.split prod.split fault.split)
qed

lemma handle_rpc_changes:
  assumes "env_confined changes k"
  shows "changes (owned_by c) (world k) (world (snd (snd (handle_remote_call c h k))))"
    "changes (owned_by c) (world k) (world (snd (snd (handle_fast_remote_call c h k))))"
    "changes (owned_by c) (world k) (world (snd (snd (handle_get_rpc_fn_id c h k))))"
proof -
  have "plugin_confined changes p" if "map_of (plugins k) n = Some p" for n p
    using assms map_of_SomeD [OF that] by (auto simp: env_confined_def list_all_iff)
  then show "changes (owned_by c) (world k) (world (snd (snd (handle_remote_call c h k))))"
    by (auto simp: handle_remote_call_def Let_def changes_refl get_dev_owned_by intro!: call_plugin_changes
        split: sum.split option.split)
  have "plugin_confined changes (plugins_fast k ! i)" if "i < length (plugins_fast k)" for i
    using assms that by (auto simp: env_confined_def list_all_length)
  then show "changes (owned_by c) (world k) (world (snd (snd (handle_fast_remote_call c h k))))"
    by (auto simp: handle_fast_remote_call_def Let_def changes_refl get_dev_owned_by intro!: call_plugin_changes
        split: sum.split option.split)
  show "changes (owned_by c) (world k) (world (snd (snd (handle_get_rpc_fn_id c h k))))"
    by (auto simp: handle_get_rpc_fn_id_def Let_def changes_refl split: sum.split option.split)
qed

lemma handle_rw_changes:
  "changes (owned_by c) (world k) (world (snd (snd (handle_read ops c h k))))"
  "changes (owned_by c) (world k) (world (snd (snd (handle_write ops c h k))))"
  by (auto simp: handle_read_def handle_write_def Let_def changes_refl get_dev_owned_by
      dest: dev_changesD(1) intro: dev_changesD(2) split: sum.split prod.split fault.split option.split)

text \<open>A query adds devices of the buses to the table of the client, and attaches them.\<close>

lemma register_dev_changes:
  assumes "register_dev ops d ds w = (r, ds', w')"
  shows "changes D w w'" "set ds' \<subseteq> insert (Some d) (set ds)"
  using assms set_update_subset_insert [of ds _ "Some d"]
  by (auto simp: register_dev_def changes_refl dest: dev_changesD(3) split: prod.splits option.splits bool.splits if_splits sum.splits)

lemma lookup_loop_changes:
  "lookup_loop ops ds i len devs tx w = (r, devs', tx', w') \<Longrightarrow>
   changes D w w' \<and> set devs' \<subseteq> set devs \<union> Some ` set ds"
proof (induction ds arbitrary: i len devs tx w)
  case (Cons d ds)
  obtain q devs1 w1 where reg: "register_dev ops d devs w = (q, devs1, w1)" by (cases "register_dev ops d devs w")
  note r = register_dev_changes(1) [OF reg, of D] register_dev_changes(2) [OF reg]
  have step: "changes D w1 w' \<and> set devs' \<subseteq> set devs1 \<union> Some ` set ds"
    if "lookup_loop ops ds (Suc i) (len + 2) devs1 t w1 = (r, devs', tx', w')" for t
    using Cons.IH [OF that] .
  show ?case
    using Cons.prems reg r by (auto split: sum.splits dest!: step intro: changes_trans)
qed (simp add: changes_refl)

lemma composite_loop_changes:
  "list_all (bus_confined changes) bs \<Longrightarrow> composite_loop bs spec res w = (r, w') \<Longrightarrow>
   changes {} w w' \<and> (\<forall>ds. r = Inr ds \<longrightarrow> set ds \<subseteq> set res \<union> \<Union> (found_on ` set bs))"
proof (induction bs arbitrary: res w)
  case (Cons b bs)
  obtain q w1 where q: "b spec w = (q, w1)" by fastforce
  have w1: "changes {} w w1"
    using Cons.prems(1) q by (simp add: bus_confined_def) (metis snd_conv)
  show ?case
  proof (cases q)
    case (Inr ds)
    have "changes {} w1 w' \<and> (\<forall>ds'. r = Inr ds' \<longrightarrow> set ds' \<subseteq> set (res @ ds) \<union> \<Union> (found_on ` set bs))"
      using Cons.prems q Inr by (intro Cons.IH) simp_all
    moreover have "set ds \<subseteq> found_on b"
      using q Inr by (auto simp: found_on_def intro!: exI [of _ spec] exI [of _ w])
    ultimately show ?thesis using changes_trans [OF w1] by simp blast
  qed (use Cons.prems q w1 in auto)
qed (auto simp: changes_refl)

lemma device_lookup_changes:
  assumes "env_confined changes k" "device_lookup_resp ops cnt c k = (r, c', k')"
  shows "changes D (world k) (world k')" "owned_by c' \<subseteq> owned_by c \<union> findable k"
proof -
  have buses: "list_all (bus_confined changes) (buses k)" using assms(1) by (simp add: env_confined_def)
  have find: "changes D (world k) w1 \<and> (\<forall>ds. q = Inr ds \<longrightarrow> set ds \<subseteq> findable k)"
    if "composite_find_devices (buses k) spec (world k) = (q, w1)" for spec q w1
    using composite_loop_changes [OF buses that [unfolded composite_find_devices_def]]
    by (auto simp: changes_empty findable_def)
  have loop: "changes D w1 w2 \<and> {d. Some d \<in> set devs} \<subseteq> owned_by c \<union> set ds"
    if "lookup_loop ops ds 0 0 (ci_devices c) t w1 = (p, devs, t', w2)" for w1 ds t p devs t' w2
    using lookup_loop_changes [OF that, of D] by (auto simp: owned_by_def)
  have "changes D (world k) (world k') \<and> owned_by c' \<subseteq> owned_by c \<union> findable k"
  proof (cases "extractSpecFromClientQuery (rx_mem c) (rx_pos k) cnt")
    case (Inr spec)
    obtain q w1 where q: "composite_find_devices (buses k) spec (world k) = (q, w1)" by fastforce
    show ?thesis
      using assms(2) find [OF q] Inr q
      by (auto simp: device_lookup_resp_def changes_refl owned_by_def dest!: loop intro: changes_trans
          split: sum.splits prod.splits)
  qed (use assms(2) in \<open>simp add: device_lookup_resp_def changes_refl\<close>)
  then show "changes D (world k) (world k')" "owned_by c' \<subseteq> owned_by c \<union> findable k" by simp_all
qed

lemma handle_msg_changes:
  assumes "env_confined changes k" "handle_msg ops c h k = (r, c', k')"
  shows "changes (owned_by c) (world k) (world k')" "owned_by c' \<subseteq> owned_by c \<union> findable k"
    "command h \<noteq> HWIO_CMD_QUERY \<Longrightarrow> ci_devices c' = ci_devices c"
proof -
  have small: "world (snd (snd (handle_ping c h k))) = world k" "world (snd (snd (handle_client_msg c h k))) = world k"
      "ci_devices (fst (snd (handle_client_msg c h k))) = ci_devices c"
    by (auto simp: handle_ping_def handle_client_msg_def split: sum.split)
  have lookup: "changes (owned_by c) (world k) (world (snd (snd (device_lookup_resp ops n c k)))) \<and>
      owned_by (fst (snd (device_lookup_resp ops n c k))) \<subseteq> owned_by c \<union> findable k" for n
    using device_lookup_changes [OF assms(1), of n c] by (cases "device_lookup_resp ops n c k") auto
  have query: "changes (owned_by c) (world k) (world (snd (snd (handle_query ops c h k)))) \<and>
      owned_by (fst (snd (handle_query ops c h k))) \<subseteq> owned_by c \<union> findable k"
    by (simp add: handle_query_def Let_def changes_refl lookup)
  show "command h \<noteq> HWIO_CMD_QUERY \<Longrightarrow> ci_devices c' = ci_devices c"
    using arg_cong [OF assms(2), of "\<lambda>x. ci_devices (fst (snd x))"] by (simp add: handle_msg_def Let_def small split: if_splits)
  show "changes (owned_by c) (world k) (world k')"
    using arg_cong [OF assms(2), of "\<lambda>x. world (snd (snd x))"] handle_rpc_changes [OF assms(1), of c h] handle_rw_changes [of c k h]
      changes_refl query
    by (simp add: handle_msg_def Let_def small split: if_splits)
  have "owned_by (fst (snd (handle_client_msg c h k))) = owned_by c" by (simp add: owned_by_def small)
  then show "owned_by c' \<subseteq> owned_by c \<union> findable k"
    using arg_cong [OF assms(2), of "\<lambda>x. owned_by (fst (snd x))"] query by (simp add: handle_msg_def Let_def split: if_splits)
qed

end

section \<open>A connection\<close>

text \<open>No client but the one at \<open>a\<close> and no connection but \<open>fd\<close> is touched.\<close>

definition conn_kept :: "nat \<Rightarrow> int \<Rightarrow> ('w, 'd) Server \<Rightarrow> ('w, 'd) Server \<Rightarrow> bool" where
  "conn_kept a fd s s' \<longleftrightarrow> (\<forall>b. b \<noteq> a \<longrightarrow> client_heap s' b = client_heap s b) \<and>
     (\<forall>n. n \<noteq> fd \<longrightarrow> tx_data (socks s') n = tx_data (socks s) n \<and> rx_events (socks s') n = rx_events (socks s) n)"

lemma conn_kept_trans: "conn_kept a fd s s1 \<Longrightarrow> conn_kept a fd s1 s' \<Longrightarrow> conn_kept a fd s s'"
  by (simp add: conn_kept_def)

lemma conn_kept_simps [simp]:
  "conn_kept a fd s s" "conn_kept a fd s (put_client a c s)" "conn_kept a fd s (put_client a c (s\<lparr>core := k\<rparr>))"
  by (simp_all add: conn_kept_def)

lemma remove_client_conn:
  assumes "remove_client fd s = (r, s')" "map_of (fd_to_client s) fd = Some a"
  shows "conn_kept a fd s s'" "core s' = core s"
  using assms by (auto simp: remove_client_def delete_client_def conn_kept_def sock_close_def split: option.splits if_splits)

lemma drop_client_conn:
  assumes "drop_client a s = (r, s')" "client_heap s a = Some c" "ci_fd c = fd" "map_of (fd_to_client s) fd = Some a"
  shows "conn_kept a fd s s'" "core s' = core s"
proof -
  obtain q s1 where q: "remove_client fd s = (q, s1)" by fastforce
  show "conn_kept a fd s s'" "core s' = core s"
    using remove_client_conn [OF q assms(4)] assms(1-3) q
    by (auto simp: drop_client_def conn_kept_def split: sum.splits option.splits)
qed

lemma send_response_conn:
  assumes "send_response fd q s = Some (r, s')"
  shows "conn_kept a fd s s'" "core s' = core s" "fd_to_client s' = fd_to_client s" "client_heap s' = client_heap s"
  using assms by (auto simp: send_response_def sock_send_def conn_kept_def split: sum.splits option.splits)

lemma read_from_socket_conn:
  assumes "read_from_socket a s = Some (r, s')" "client_heap s a = Some c" "ci_fd c = fd"
  shows "conn_kept a fd s s'" "core s' = core s" "fd_to_client s' = fd_to_client s"
    "\<exists>c'. client_heap s' a = Some c' \<and> ci_fd c' = fd \<and> ci_devices c' = ci_devices c"
  using assms by (auto simp: read_from_socket_def Let_def conn_kept_def split: sum.splits option.splits recv_result.splits)

context confined_device
begin

text \<open>What serving the client \<open>c\<close> at \<open>a\<close> may do.\<close>

lemma handle_msg_conn:
  assumes "env_confined changes (core s)" "plugins_sized (core s)"
    and "handle_msg ops c h ((core s)\<lparr>rx_pos := p\<rparr>) = (r, c', k)"
  shows "changes (owned_by c \<union> findable (core s)) (world (core s)) (world k)"
    "owned_by c' \<union> findable k \<subseteq> owned_by c \<union> findable (core s)" "env_confined changes k" "plugins_sized k"
    "ci_fd c' = ci_fd c" "curr_len (ci_rx c') = curr_len (ci_rx c)"
proof -
  let ?k = "(core s)\<lparr>rx_pos := p\<rparr>"
  have k: "env_confined changes ?k" "plugins_sized ?k" "findable ?k = findable (core s)"
    using assms(1,2) by (simp_all add: env_confined_def plugins_sized_def findable_def)
  have kept: "core_kept ?k k" using handle_msg_core_kept [OF k(2), of c h] assms(3) by simp
  show "env_confined changes k" using env_confined_kept [OF kept] k(1) by simp
  show "plugins_sized k" using kept k(2) by (simp add: core_kept_def plugins_sized_def)
  note m = handle_msg_changes(1,2) [OF k(1) assms(3)]
  show "owned_by c' \<union> findable k \<subseteq> owned_by c \<union> findable (core s)"
    using m(2) env_confined_kept [OF kept] k(3) by auto
  show "changes (owned_by c \<union> findable (core s)) (world (core s)) (world k)"
    using changes_mono [OF m(1)] by simp
  show "ci_fd c' = ci_fd c" "curr_len (ci_rx c') = curr_len (ci_rx c)"
    using handle_msg_kept [of c ops h ?k] assms(3) by (simp_all add: rx_kept_def)
qed

lemma parse_msgs_conn:
  assumes "parse_msgs ops a s = Some (r, s')" "client_heap s a = Some c" "map_of (fd_to_client s) (ci_fd c) = Some a"
    and "env_confined changes (core s)" "plugins_sized (core s)"
  shows "conn_kept a (ci_fd c) s s' \<and> changes (owned_by c \<union> findable (core s)) (world (core s)) (world (core s'))"
proof (rule parse_msgs_rel [OF assms(1,2), where
      I = "\<lambda>t d. ci_fd d = ci_fd c \<and> map_of (fd_to_client t) (ci_fd c) = Some a \<and> env_confined changes (core t) \<and>
        plugins_sized (core t) \<and> owned_by d \<union> findable (core t) \<subseteq> owned_by c \<union> findable (core s)" and
      R = "\<lambda>s t. conn_kept a (ci_fd c) s t \<and> changes (owned_by c \<union> findable (core s)) (world (core s)) (world (core t))"],
    goal_cases)
  case (3 t d h p e c1 k)
  then have msg: "changes (owned_by c \<union> findable (core s)) (world (core t)) (world k)"
    using handle_msg_conn(1) changes_mono by blast
  with 3 show ?case using changes_trans by (auto simp: conn_kept_def)
next
  case (4 t d h p q c1 k p2 t2)
  have t: "env_confined changes (core t)" "plugins_sized (core t)" using 4(1) by simp_all
  note msg = handle_msg_conn [OF t 4(5)]
  note r = send_response_conn [OF 4(6)]
  have "changes (owned_by c \<union> findable (core s)) (world (core t)) (world k)"
    using msg(1) changes_mono 4(1) by blast
  then have "changes (owned_by c \<union> findable (core s)) (world (core s)) (world k)" using changes_trans 4(2) by blast
  then show ?case
    using 4(1,2) msg r by (auto simp: conn_kept_def advance_rx_def owned_by_def)
next
  case (5 t d q t')
  then show ?case using drop_client_conn [OF 5(4,3)] conn_kept_trans by auto
qed (use assms in \<open>simp_all add: changes_refl\<close>)

lemma handle_multiple_conn:
  assumes "handle_multiple_client_requests ops fd s = Some (r, s')" "map_of (fd_to_client s) fd = Some a"
    and "client_heap s a = Some c" "ci_fd c = fd" "env_confined changes (core s)" "plugins_sized (core s)"
  shows "conn_kept a fd s s' \<and> changes (owned_by c \<union> findable (core s)) (world (core s)) (world (core s'))"
proof -
  obtain q s1 where s1: "read_from_socket a s = Some (q, s1)"
    using assms by (auto simp: handle_multiple_client_requests_def client_of_fd_def split: option.splits)
  note r = read_from_socket_conn [OF s1 assms(3,4)]
  obtain c1 where c1: "client_heap s1 a = Some c1" "ci_fd c1 = fd" "ci_devices c1 = ci_devices c" using r(4) by blast
  then have owned: "owned_by c1 = owned_by c" by (simp add: owned_by_def)
  have parse: "conn_kept a fd s1 s' \<and> changes (owned_by c \<union> findable (core s)) (world (core s)) (world (core s'))"
    if "parse_msgs ops a s1 = Some (r, s')"
    using parse_msgs_conn [OF that c1(1)] c1(2) r(2,3) assms(2,5,6) owned by simp
  show ?thesis
  proof (cases "q = Inr True")
    case True
    then have "parse_msgs ops a s1 = Some (r, s')"
      using assms s1 by (simp add: handle_multiple_client_requests_def client_of_fd_def)
    from parse [OF this] show ?thesis using conn_kept_trans [OF r(1)] by blast
  next
    case False
    obtain p s2 where s2: "remove_client fd s1 = (p, s2)" by fastforce
    have "map_of (fd_to_client s1) fd = Some a" using r(3) assms(2) by simp
    note rm = remove_client_conn [OF s2 this]
    have "s' = s1 \<or> s' = s2 \<or> s' = s2\<lparr>removed_poll_fds := removed_poll_fds s2 @ [fd]\<rparr>"
      using assms s1 s2 False
      by (auto simp: handle_multiple_client_requests_def client_of_fd_def split: sum.splits bool.splits)
    moreover have "conn_kept a fd s s2" by (rule conn_kept_trans [OF r(1) rm(1)])
    ultimately show ?thesis using r(1,2) rm(2) changes_refl by (auto simp: conn_kept_def)
  qed
qed

end

section \<open>Mapped devices\<close>

text \<open>
  The part of the memory file a mapped device reaches: from its first register to the end of the
  mapping, which is rounded up to whole pages.
\<close>

definition mmap_window :: "hwio_device_mmap \<Rightarrow> string \<times> nat \<times> nat" where
  "mmap_window dv = (mem_file_name dv, mmap_pos dv, unat (page_addr dv) + addr_space_size dv)"

definition in_window :: "mmap_world \<Rightarrow> nat \<Rightarrow> string \<Rightarrow> nat \<Rightarrow> bool" where
  "in_window w d f x \<longleftrightarrow>
     (case map_option mmap_window (dev_heap w d) of None \<Rightarrow> False | Some (g, lo, hi) \<Rightarrow> f = g \<and> lo \<le> x \<and> x < hi)"

definition mmap_changes :: "nat set \<Rightarrow> mmap_world \<Rightarrow> mmap_world \<Rightarrow> bool" where
  "mmap_changes D w w' \<longleftrightarrow> (\<forall>d. map_option mmap_window (dev_heap w' d) = map_option mmap_window (dev_heap w d)) \<and>
     (\<forall>f x. mem_files w' f x \<noteq> mem_files w f x \<longrightarrow> (\<exists>d \<in> D. in_window w d f x))"

lemma in_window_cong:
  "map_option mmap_window (dev_heap w' d) = map_option mmap_window (dev_heap w d) \<Longrightarrow> in_window w' d f x = in_window w d f x"
  by (simp add: in_window_def)

lemma mmap_changes_trans: "mmap_changes D w w1 \<Longrightarrow> mmap_changes D w1 w2 \<Longrightarrow> mmap_changes D w w2"
  using in_window_cong [of w1 _ w] unfolding mmap_changes_def by metis

lemma mmap_store_changes: "mmap_changes {d} w (snd (mmap_store d off bs w))"
  by (auto simp: mmap_store_def mmap_poke_def mmap_changes_def mem_store_def in_window_def mmap_window_def mmap_pos_def
      split: option.split if_splits)

text \<open>The default loops do to the world what their accesses do.\<close>

lemma ihwio_write_bytes_rel:
  assumes "\<And>w. R w w" "\<And>w w1 w2. R w w1 \<Longrightarrow> R w1 w2 \<Longrightarrow> R w w2" "\<And>off v w. R w (snd (write8 off v w))"
  shows "R w (snd (ihwio_write_bytes write8 off src i n w))"
proof (induction n arbitrary: off i w)
  case (Suc n)
  have "R w w1" if "write8 o1 v w = (q, w1)" for o1 v q w1 using assms(3) [of w o1 v] that by simp
  then show ?case using Suc assms(1,2) by (auto split: sum.split prod.split) metis
qed (simp add: assms(1))

lemma ihwio_write_rel:
  assumes "\<And>w. R w w" "\<And>w w1 w2. R w w1 \<Longrightarrow> R w1 w2 \<Longrightarrow> R w w2" "\<And>off v w. R w (snd (write8 off v w))"
    and "\<And>off v w. R w (snd (write32 off v w))"
  shows "R w (snd (ihwio_write write8 write32 off src i n w))"
proof (induction n arbitrary: off i w rule: less_induct)
  case (less n)
  show ?case
  proof (cases "4 \<le> n")
    case True
    have word: "R w w1" if "write32 off v w = (q, w1)" for v q w1 using assms(4) [of w off v] that by simp
    have rest: "R w (snd (ihwio_write write8 write32 (off + 4) src (i + 4) (n - 4) w1))" if "R w w1" for w1
      using assms(2) [OF that less.IH [of "n - 4"]] True by simp
    show ?thesis
      using True assms(1) word rest
      by (simp add: ihwio_write.simps [of write8 write32 off] split: sum.split prod.split)
  next
    case False
    then show ?thesis
      using ihwio_write_bytes_rel [of R write8 w, OF assms(1-3)]
      by (simp add: ihwio_write.simps [of write8 write32 off])
  qed
qed

lemma ihwio_read_bytes_world:
  assumes "\<And>off. snd (read8 off w) = w"
  shows "snd (snd (ihwio_read_bytes read8 off dst i n w)) = w"
proof (induction n arbitrary: off dst i)
  case (Suc n)
  obtain q where "read8 off w = (q, w)" using assms [of off] by (metis prod.collapse)
  then show ?case by (simp add: Suc split: sum.split)
qed simp

lemma ihwio_read_world:
  assumes "\<And>off. snd (read8 off w) = w" "\<And>off. snd (read32 off w) = w"
  shows "snd (snd (ihwio_read read8 read32 off dst i n w)) = w"
proof (induction n arbitrary: off dst i rule: less_induct)
  case (less n)
  obtain q where "read32 off w = (q, w)" using assms(2) [of off] by (metis prod.collapse)
  then show ?case
    using less ihwio_read_bytes_world [of read8 w, OF assms(1)]
    by (simp add: ihwio_read.simps [of read8 read32 off dst i n w] split: sum.split)
qed

lemma mmap_attach_changes: "mmap_changes {} w (snd (mmap_attach d w))"
  by (auto simp: mmap_attach_def mmap_changes_def put_dev_def mmap_window_def mmap_pos_def Let_def split: option.split)

interpretation mmap_confined: confined_device mmap_ops mmap_changes
proof unfold_locales
  show "mmap_changes D w w" for D w by (simp add: mmap_changes_def)
  show "mmap_changes D w w1 \<Longrightarrow> mmap_changes D w1 w2 \<Longrightarrow> mmap_changes D w w2" for D w w1 w2 by (rule mmap_changes_trans)
  show "mmap_changes D w w' \<Longrightarrow> D \<subseteq> D' \<Longrightarrow> mmap_changes D' w w'" for D w w' D'
    unfolding mmap_changes_def by (meson subsetD)
  show "mmap_changes {} w (snd (snd (dev_read mmap_ops d off dst i n w)))" for d off dst i n w
    by (simp add: mmap_ops_def ihwio_read_world mmap_read8_def mmap_read32_def mmap_changes_def)
  have "mmap_changes {d} w w" for d w by (simp add: mmap_changes_def)
  then show "mmap_changes {d} w (snd (dev_write mmap_ops d off src i n w))" for d off src i n w
    unfolding mmap_ops_def dev_ops.simps
    by (rule ihwio_write_rel [OF _ mmap_changes_trans]) (simp_all add: mmap_write8_def mmap_write32_def mmap_store_changes)
  show "mmap_changes {} w (snd (attach mmap_ops d w))" for d w by (simp add: mmap_ops_def mmap_attach_changes)
qed

lemma primitive_bus_confined: "bus_confined mmap_changes (primitive_find_devices mmap_ops ds)"
  by (simp add: bus_confined_def primitive_find_devices_def mmap_confined.changes_refl)

section \<open>What a client can do\<close>

text \<open>The bytes of the memory files and the clients and connections that differ between two states.\<close>

definition bytes_changed :: "mmap_world \<Rightarrow> mmap_world \<Rightarrow> (string \<times> nat) set" where
  "bytes_changed w w' = {(f, x). mem_files w' f x \<noteq> mem_files w f x}"

definition bytes_of_devs :: "nat set \<Rightarrow> mmap_world \<Rightarrow> (string \<times> nat) set" where
  "bytes_of_devs D w = {(f, x). \<exists>d \<in> D. in_window w d f x}"

definition clients_changed :: "('w, 'd) Server \<Rightarrow> ('w, 'd) Server \<Rightarrow> nat set" where
  "clients_changed s s' = {b. client_heap s' b \<noteq> client_heap s b}"

definition conns_changed :: "('w, 'd) Server \<Rightarrow> ('w, 'd) Server \<Rightarrow> int set" where
  "conns_changed s s' = {n. tx_data (socks s') n \<noteq> tx_data (socks s) n \<or> rx_events (socks s') n \<noteq> rx_events (socks s) n}"

lemma mmap_changes_bytes: "mmap_changes D w w' \<Longrightarrow> bytes_changed w w' \<subseteq> bytes_of_devs D w"
  by (auto simp: mmap_changes_def bytes_changed_def bytes_of_devs_def)


lemma demo_env_confined: "env_confined mmap_changes demo_server" "plugins_sized demo_server"
  by (simp_all add: env_confined_def plugins_sized_def demo_server_def primitive_bus_confined)




end
