(* ===== verification/Hwio_Confinement.thy ===== *)
theory Hwio_Confinement
  imports Hwio_Isolation Hwio_Bus_Devicetree Hwio_Bus_Json
begin

text \<open>
  Confinement of a whole run: from the constructor on, through any number of rounds and installed
  plugin functions, nothing the clients send and no answer of the operating system makes the server
  change memory outside the windows of the devices of its buses, and no client ever gets a device
  from elsewhere. The invariant is proved in the locale \<open>confined_device\<close>, for every kind of device.
\<close>

section \<open>The steps of a server\<close>

text \<open>
  A plugin function of the kind \<open>trusted\<close> is installed, or a round of the poll loop runs. The round
  may fail, \<open>accept\<close> may return any descriptor, and \<open>ppoll\<close> may report anything on any descriptor.
\<close>

inductive server_step ::
  "('w, 'd) dev_ops \<Rightarrow> (('w, 'd) plugin_info \<Rightarrow> bool) \<Rightarrow> ('w, 'd) Server \<Rightarrow> ('w, 'd) Server \<Rightarrow> bool" for ops trusted where
  install: "trusted p \<Longrightarrow> server_step ops trusted s (s\<lparr>core := install_plugin_fn fn_name p (core s)\<rparr>)"
| round: "pool_client_msgs ops ans acc s = Some (r, s') \<Longrightarrow> server_step ops trusted s s'"

text \<open>Plugin functions that respect the size of the answer and change only the device they are called on.\<close>

definition trusted_plugin :: "('d set \<Rightarrow> 'w \<Rightarrow> 'w \<Rightarrow> bool) \<Rightarrow> ('w, 'd) plugin_info \<Rightarrow> bool" where
  "trusted_plugin changes p \<longleftrightarrow> plugin_sized p \<and> plugin_confined changes p"

inductive_cases server_stepE: "server_step ops trusted s s'"

text \<open>
  The invariant: since the world was \<open>w\<close> only the devices \<open>F\<close> were affected, no other can be found, and
  no client owns another.
\<close>

definition confined_server :: "('d set \<Rightarrow> 'w \<Rightarrow> 'w \<Rightarrow> bool) \<Rightarrow> 'd set \<Rightarrow> 'w \<Rightarrow> ('w, 'd) Server \<Rightarrow> bool" where
  "confined_server changes F w s \<longleftrightarrow> changes F w (world (core s)) \<and> env_confined changes (core s) \<and>
     plugins_sized (core s) \<and> findable (core s) \<subseteq> F \<and> (\<forall>c \<in> ran (client_heap s). owned_by c \<subseteq> F)"

lemma confined_cong:
  "confined_server changes F w s \<Longrightarrow> core s' = core s \<Longrightarrow> ran (client_heap s') \<subseteq> ran (client_heap s) \<Longrightarrow>
   confined_server changes F w s'"
  by (auto simp: confined_server_def)

lemma ran_map_upd: "ran (m(a \<mapsto> x)) \<subseteq> insert x (ran m)"
  by (auto simp: ran_def)

lemma confined_put:
  "confined_server changes F w s \<Longrightarrow> owned_by c \<subseteq> F \<Longrightarrow> confined_server changes F w (put_client a c s)"
  using ran_map_upd [of "client_heap s" a c] unfolding confined_server_def by fastforce

lemma confined_owned: "confined_server changes F w s \<Longrightarrow> client_heap s a = Some c \<Longrightarrow> owned_by c \<subseteq> F"
  by (auto simp: confined_server_def intro: ranI)

section \<open>Every operation keeps it\<close>

lemma delete_client_confined: "confined_server changes F w s \<Longrightarrow> confined_server changes F w (delete_client a c s)"
  by (erule confined_cong) (auto simp: delete_client_def ran_def)

lemma remove_client_confined:
  "confined_server changes F w s \<Longrightarrow> remove_client fd s = (r, s') \<Longrightarrow> confined_server changes F w s'"
  by (auto simp: remove_client_def intro!: delete_client_confined intro: confined_cong split: option.splits if_splits)

lemma drop_client_confined:
  "confined_server changes F w s \<Longrightarrow> drop_client a s = (r, s') \<Longrightarrow> confined_server changes F w s'"
  by (auto simp: drop_client_def intro: confined_cong dest: remove_client_confined split: option.splits prod.splits sum.splits)

lemma push_poll_fd_confined: "confined_server changes F w s \<Longrightarrow> confined_server changes F w (push_poll_fd p s)"
  by (erule confined_cong) (simp_all add: push_poll_fd_def)

lemma add_new_client_confined:
  assumes "confined_server changes F w s" "add_new_client fd s = (r, s')"
  shows "confined_server changes F w s'"
proof -
  define c :: "'a ClientInfo" where "c = ClientInfo_ctor (first_empty_slot (clients s) 0) fd (fresh_mem s (heap_next s))"
  have "owned_by c \<subseteq> F" by (simp add: c_def owned_by_def ClientInfo_ctor_def)
  then have "confined_server changes F w (put_client (heap_next s) c s)" by (rule confined_put [OF assms(1)])
  then show ?thesis
    using assms(2) by (auto simp: add_new_client_def Let_def c_def intro!: push_poll_fd_confined intro: confined_cong split: if_splits)
qed

lemma client_of_fd_confined:
  "confined_server changes F w s \<Longrightarrow> client_of_fd fd s = (r, s') \<Longrightarrow> confined_server changes F w s'"
  by (auto simp: client_of_fd_def dest: add_new_client_confined split: option.splits)

lemma send_response_confined:
  assumes "confined_server changes F w s" "send_response fd q s = Some (r, s')"
  shows "confined_server changes F w s'"
  using send_response_conn(2,4) [OF assms(2)] by (intro confined_cong [OF assms(1)]) simp_all

lemma read_from_socket_confined:
  assumes "confined_server changes F w s" "read_from_socket a s = Some (r, s')"
  shows "confined_server changes F w s'"
proof (cases "client_heap s a")
  case (Some c)
  have c: "owned_by (c\<lparr>ci_rx := rx\<rparr>) \<subseteq> F" for rx
    using confined_owned [OF assms(1) Some] by (simp add: owned_by_def)
  have net: "confined_server changes F w (s\<lparr>socks := n\<rparr>)" for n by (rule confined_cong [OF assms(1)]) simp_all
  then have "confined_server changes F w (put_client a (c\<lparr>ci_rx := rx\<rparr>) (s\<lparr>socks := n\<rparr>))" for rx n by (rule confined_put) (rule c)
  then show ?thesis
    using assms Some net by (auto simp: read_from_socket_def Let_def split: sum.splits option.splits recv_result.splits)
qed (use assms in \<open>simp add: read_from_socket_def\<close>)

context confined_device
begin

lemma handle_msg_confined:
  assumes "confined_server changes F w s" "client_heap s a = Some c"
    and "handle_msg ops c h ((core s)\<lparr>rx_pos := p\<rparr>) = (r, c', k)"
  shows "confined_server changes F w (put_client a c' (s\<lparr>core := k\<rparr>))" "owned_by c' \<subseteq> F"
proof -
  have s: "env_confined changes (core s)" "plugins_sized (core s)" "findable (core s) \<subseteq> F" "changes F w (world (core s))"
    using assms(1) by (simp_all add: confined_server_def)
  note msg = handle_msg_conn [OF s(1,2) assms(3)]
  have owned: "owned_by c \<union> findable (core s) \<subseteq> F" using confined_owned [OF assms(1,2)] s(3) by simp
  then show c': "owned_by c' \<subseteq> F" using msg(2) by blast
  have "changes F w (world k)" using changes_trans [OF s(4) changes_mono [OF msg(1) owned]] .
  moreover have "findable k \<subseteq> F" using msg(2) owned by blast
  ultimately have "confined_server changes F w (s\<lparr>core := k\<rparr>)" using assms(1) msg(3,4) by (simp add: confined_server_def)
  then show "confined_server changes F w (put_client a c' (s\<lparr>core := k\<rparr>))" using c' by (rule confined_put)
qed

lemma parse_msgs_confined:
  assumes "confined_server changes F w s" "parse_msgs ops a s = Some (r, s')"
  shows "confined_server changes F w s'"
proof (cases "client_heap s a")
  case (Some c)
  show ?thesis
  proof (rule parse_msgs_rel [OF assms(2) Some, where I = "\<lambda>t d. True" and R = "\<lambda>s t. confined_server changes F w t"], goal_cases)
    case (3 t d h p e c1 k)
    then show ?case using handle_msg_confined(1) by blast
  next
    case (4 t d h p q c1 k p2 t2)
    note msg = handle_msg_confined [OF 4(2,3,5)]
    have t2: "confined_server changes F w t2" by (rule send_response_confined [OF msg(1) 4(6)])
    have "owned_by (advance_rx (3 + unat (body_len h)) c1) \<subseteq> F" using msg(2) by (simp add: advance_rx_def owned_by_def)
    with t2 show ?case by (simp add: confined_put)
  next
    case (5 t d q t')
    then show ?case by (intro drop_client_confined [of changes F w t a q t'])
  qed (use assms(1) in simp_all)
qed (use assms in \<open>simp add: parse_msgs.simps\<close>)

lemma handle_multiple_confined:
  assumes "confined_server changes F w s" "handle_multiple_client_requests ops fd s = Some (r, s')"
  shows "confined_server changes F w s'"
proof -
  obtain q s1 where s1: "client_of_fd fd s = (q, s1)" by fastforce
  have "confined_server changes F w s1" by (rule client_of_fd_confined [OF assms(1) s1])
  then show ?thesis
    using assms(2)
    by (auto simp: handle_multiple_client_requests_def s1 dest: read_from_socket_confined parse_msgs_confined
        dest!: remove_client_confined [rotated] intro: confined_cong split: sum.splits option.splits prod.splits bool.splits if_splits)
qed

lemma poll_entry_confined:
  "confined_server changes F w s \<Longrightarrow> poll_entry ops acc p s = Some (r, s') \<Longrightarrow> confined_server changes F w s'"
  by (auto simp: poll_entry_def dest: handle_multiple_confined add_new_client_confined remove_client_confined intro: confined_cong
      split: sum.splits prod.splits if_splits)

lemma poll_loop_confined:
  "confined_server changes F w s \<Longrightarrow> poll_loop ops acc cap ps s = Some (r, s') \<Longrightarrow> confined_server changes F w s'"
  by (induction ps arbitrary: s) (auto dest: poll_entry_confined split: if_splits option.splits prod.splits sum.splits)

lemma round_confined:
  assumes "confined_server changes F w s" "pool_client_msgs ops ans acc s = Some (r, s')"
  shows "confined_server changes F w s'"
proof -
  have "confined_server changes F w (s\<lparr>poll_fds := ps\<rparr>)" for ps by (rule confined_cong [OF assms(1)]) simp_all
  moreover have "confined_server changes F w t \<Longrightarrow> confined_server changes F w (clean_poll_fds t)" for t
    by (erule confined_cong) (simp_all add: clean_poll_fds_def Let_def)
  ultimately show ?thesis
    using assms by (auto simp: pool_client_msgs_def Let_def dest!: poll_loop_confined [rotated]
        split: poll_answer.splits option.splits prod.splits sum.splits)
qed

lemma start_confined:
  assumes "prepare_server_socket la junk (HwioServer_ctor bs w tx pos mem grow n) = (r, s)" "list_all (bus_confined changes) bs"
  shows "confined_server changes (\<Union> (found_on ` set bs)) w s"
proof -
  have "confined_server changes (\<Union> (found_on ` set bs)) w (HwioServer_ctor bs w tx pos mem grow n)"
    using assms(2) by (simp add: confined_server_def HwioServer_ctor_def env_confined_def plugins_sized_def findable_def changes_refl)
  then have "confined_server changes (\<Union> (found_on ` set bs)) w ((HwioServer_ctor bs w tx pos mem grow n)\<lparr>master_socket := m\<rparr>)" for m
    by (rule confined_cong) simp_all
  then show ?thesis
    using assms(1) by (auto simp: prepare_server_socket_def Let_def intro!: push_poll_fd_confined split: if_splits)
qed

lemma install_confined:
  assumes "confined_server changes F w s" "plugin_sized p" "plugin_confined changes p"
  shows "confined_server changes F w (s\<lparr>core := install_plugin_fn fn_name p (core s)\<rparr>)"
proof -
  have "list_all (plugin_confined changes) (map snd (AList.update fn_name p ps))"
    if "list_all (plugin_confined changes) (map snd ps)" for ps
    using that assms(3) by (induction ps) auto
  then have "env_confined changes (install_plugin_fn fn_name p (core s))"
    using assms(1,3) by (simp add: confined_server_def env_confined_def install_plugin_fn_def)
  moreover have "plugins_sized (install_plugin_fn fn_name p (core s))"
    using assms(1,2) by (simp add: confined_server_def install_sized)
  ultimately show ?thesis
    using assms(1) by (simp add: confined_server_def findable_def install_plugin_fn_def)
qed

lemma steps_confined:
  assumes "(server_step ops (trusted_plugin changes))\<^sup>*\<^sup>* s s'" "confined_server changes F w s"
  shows "confined_server changes F w s'"
  using assms by (induction rule: rtranclp_induct) (auto elim!: server_stepE simp: trusted_plugin_def intro: install_confined dest: round_confined)

end

section \<open>What a server can do to the memory\<close>

text \<open>The buses of local devices change nothing and find their own devices only.\<close>

lemma found_on_local:
  "found_on (primitive_find_devices ops ds) \<subseteq> set ds" "found_on (devicetree_find_devices b) \<subseteq> set (all_devices b)"
  "found_on (json_find_devices ds') \<subseteq> set ds'"
  by (auto simp: found_on_def primitive_find_devices_def devicetree_find_devices_def json_find_devices_def filter_device_eq)

lemma local_buses_confined: "bus_confined mmap_changes (devicetree_find_devices b)" "bus_confined mmap_changes (json_find_devices ds)"
  by (simp_all add: bus_confined_def devicetree_find_devices_def json_find_devices_def mmap_confined.changes_refl)


text \<open>A server with one bus, a plugin function that clears the first byte of a device, and a connection.\<close>

definition demo_clear :: "(mmap_world, nat) plugin_info" where
  "demo_clear = \<lparr>pl_fn = (\<lambda>dev args i ret j w. (Inr (), ret, snd (mmap_store dev 0 [0] w))),
     pl_what = (\<lambda>_. []), pl_args_size = 0, pl_ret_size = 0\<rparr>"

lemma demo_clear_trusted: "trusted_plugin mmap_changes demo_clear"
  by (simp add: trusted_plugin_def plugin_sized_def plugin_confined_def demo_clear_def mmap_store_changes)

definition demo_bus_start :: "(mmap_world, nat) Server" where
  "demo_bus_start = snd (prepare_server_socket \<lparr>la_socket = 3, la_reuseaddr = 0, la_keepalive = 0, la_bind = 0, la_listen = 0\<rparr> 0
     (HwioServer_ctor [primitive_find_devices mmap_ops [0]] demo_attached (\<lambda>_. 0) 0 (\<lambda>_ _. 0) (\<lambda>n. 2 * n + 1)
       \<lparr>rx_events = (\<lambda>_. []), tx_events = (\<lambda>_. []), tx_data = (\<lambda>_. []), closed_fds = []\<rparr>))"

definition demo_bus_accepted :: "(mmap_world, nat) Server" where
  "demo_bus_accepted = snd (the (pool_client_msgs mmap_ops (Poll_ready [POLLIN]) 5
     (demo_bus_start\<lparr>core := install_plugin_fn ''clear'' demo_clear (core demo_bus_start)\<rparr>)))"

lemma demo_bus_steps: "(server_step mmap_ops (trusted_plugin mmap_changes))\<^sup>*\<^sup>* demo_bus_start demo_bus_accepted"
proof -
  let ?s = "demo_bus_start\<lparr>core := install_plugin_fn ''clear'' demo_clear (core demo_bus_start)\<rparr>"
  have "server_step mmap_ops (trusted_plugin mmap_changes) demo_bus_start ?s"
    by (rule server_step.install [where s = demo_bus_start and p = demo_clear and fn_name = "''clear''"])
      (rule demo_clear_trusted)
  moreover have "pool_client_msgs mmap_ops (Poll_ready [POLLIN]) 5 ?s = Some (Inr (), demo_bus_accepted)"
    by (simp add: demo_bus_accepted_def demo_bus_start_def prepare_server_socket_def HwioServer_ctor_def push_poll_fd_def
        pool_client_msgs_def poll_entry_def poll_failed_def add_new_client_def Let_def)
  then have "server_step mmap_ops (trusted_plugin mmap_changes) ?s demo_bus_accepted" by (rule server_step.round)
  ultimately show ?thesis by simp
qed


end
