(* ===== verification/Hwio_Request.thy ===== *)
theory Hwio_Request
  imports Hwio_Client_Laws
begin

text \<open>
  \<open>HwioServer::handle_client_requests\<close> (\<open>src/src/server/hwio_server.cpp\<close>), the older way to serve a
  client: one message is received directly, without the client's buffer. Nothing calls it any more.
  It receives the body of the message at the address of the member \<open>rx_buffer\<close>, which was an array
  and has become a pointer, so the body replaces the pointer through which the handlers then read.
\<close>

section \<open>The pointer\<close>

text \<open>The bytes of the member \<open>rx_buffer\<close>, and the memory that starts at the address they form.\<close>

record rx_pointer =
  ptr_bytes :: carray
  ptr_mem :: "byte list \<Rightarrow> carray"

definition sizeof_ptr :: nat where [simp]: "sizeof_ptr = 8"

section \<open>Receiving exactly \<open>n\<close> bytes\<close>

text \<open>
  The loop receives \<open>n\<close> bytes, of which it already has \<open>k\<close>. The result is the final value of
  \<open>rx_data_size\<close>, which is 0 after an error and at the end of the stream. While bytes are missing
  after a \<open>recv\<close>, the answer it took has been used up.
\<close>

fun recv_full :: "carray \<Rightarrow> nat \<Rightarrow> nat \<Rightarrow> recv_event list \<Rightarrow> (nat res \<times> carray \<times> recv_event list) option" where
  "recv_full dst n k [] = None"
| "recv_full dst n k (Recv_again # es) = recv_full dst n k es"
| "recv_full dst n k (Recv_intr # es) = recv_full dst n k es"
| "recv_full dst n k (e # es) =
     (case recv1 (n - k) e es of
        (Received bs, es') \<Rightarrow>
          (case astore dst k bs of
             Inl f \<Rightarrow> Some (Inl f, dst, es')
           | Inr dst' \<Rightarrow>
               if k + length bs = n then Some (Inr n, dst', es')
               else recv_full dst' n (k + length bs) es)
      | (_, es') \<Rightarrow> Some (Inr 0, dst, es'))"

definition sock_recv_full :: "int \<Rightarrow> carray \<Rightarrow> nat \<Rightarrow> sockets \<Rightarrow> (nat res \<times> carray \<times> sockets) option" where
  "sock_recv_full sd dst n k =
     (case recv_full dst n 0 (rx_events k sd) of
        None \<Rightarrow> None
      | Some (r, dst', es) \<Rightarrow> Some (r, dst', k\<lparr>rx_events := (rx_events k)(sd := es)\<rparr>))"

section \<open>One request\<close>

text \<open>The end of the function: the client is dropped when the result says so.\<close>

definition end_request ::
  "int \<Rightarrow> PProcRes \<Rightarrow> rx_pointer \<Rightarrow> ('w, 'd) Server \<Rightarrow> unit res \<times> rx_pointer \<times> ('w, 'd) Server" where
  "end_request sd respMeta p s =
     (if \<not> disconnect respMeta then (Inr (), p, s)
      else case remove_client sd s of
             (Inl e, s') \<Rightarrow> (Inl e, p, s')
           | (Inr _, s') \<Rightarrow> (Inr (), p, s'\<lparr>removed_poll_fds := removed_poll_fds s' @ [sd]\<rparr>))"

text \<open>
  The handler of the client \<open>c\<close> at \<open>a\<close> runs on the memory behind the pointer instead of the client's
  buffer; what it stores there stays there.
\<close>

definition serve_request ::
  "('w, 'd) dev_ops \<Rightarrow> int \<Rightarrow> nat \<Rightarrow> 'd ClientInfo \<Rightarrow> Hwio_packet_header \<Rightarrow> rx_pointer \<Rightarrow> ('w, 'd) Server \<Rightarrow>
   (unit res \<times> rx_pointer \<times> ('w, 'd) Server) option" where
  "serve_request ops sd a c header p s =
     (let address = abytes (ptr_bytes p) 0 sizeof_ptr
      in case handle_msg ops (c\<lparr>ci_rx := (ci_rx c)\<lparr>rx_array := ptr_mem p address\<rparr>\<rparr>) header ((core s)\<lparr>rx_pos := 0\<rparr>) of
           (r, c', k) \<Rightarrow>
             (let p1 = p\<lparr>ptr_mem := (ptr_mem p)(address := rx_mem c')\<rparr>;
                  s1 = put_client a (c'\<lparr>ci_rx := (ci_rx c')\<lparr>rx_array := rx_mem c\<rparr>\<rparr>) (s\<lparr>core := k\<rparr>)
              in case r of
                   Inl e \<Rightarrow> Some (Inl e, p1, s1)
                 | Inr respMeta \<Rightarrow>
                     (case send_response sd respMeta s1 of
                        None \<Rightarrow> None
                      | Some (Inl e, s2) \<Rightarrow> Some (Inl e, p1, s2)
                      | Some (Inr respMeta', s2) \<Rightarrow> Some (end_request sd respMeta' p1 s2))))"

text \<open>An incomplete body: the error message is written into \<open>tx_buffer\<close> and never sent.\<close>

definition wrong_body :: "Hwio_packet_header \<Rightarrow> string" where
  "wrong_body header =
     ''Wrong frame body (expectedSize='' @ show_nat (unat (body_len header)) @ '' got='' @ show_nat 0"

definition receive_body ::
  "('w, 'd) dev_ops \<Rightarrow> int \<Rightarrow> nat \<Rightarrow> 'd ClientInfo \<Rightarrow> Hwio_packet_header \<Rightarrow> rx_pointer \<Rightarrow> ('w, 'd) Server \<Rightarrow>
   (unit res \<times> rx_pointer \<times> ('w, 'd) Server) option" where
  "receive_body ops sd a c header p s =
     (if body_len header = 0 then serve_request ops sd a c header p s
      else case sock_recv_full sd (ptr_bytes p) (unat (body_len header)) (socks s) of
        None \<Rightarrow> None
      | Some (r, b, n) \<Rightarrow>
          (let p1 = p\<lparr>ptr_bytes := b\<rparr>; s1 = s\<lparr>socks := n\<rparr>
           in case r of
                Inl e \<Rightarrow> Some (Inl e, p1, s1)
              | Inr got \<Rightarrow>
                  if got = 0
                  then (case send_err MALFORMED_PACKET (wrong_body header) c (core s1) of
                          (Inl e, _, k) \<Rightarrow> Some (Inl e, p1, s1\<lparr>core := k\<rparr>)
                        | (Inr respMeta, _, k) \<Rightarrow> Some (end_request sd respMeta p1 (s1\<lparr>core := k\<rparr>)))
                  else serve_request ops sd a c header p1 s1))"

definition handle_client_requests ::
  "('w, 'd) dev_ops \<Rightarrow> int \<Rightarrow> rx_pointer \<Rightarrow> ('w, 'd) Server \<Rightarrow> (unit res \<times> rx_pointer \<times> ('w, 'd) Server) option" where
  "handle_client_requests ops sd p s =
     (case client_of_fd sd s of
        (Inl e, s1) \<Rightarrow> Some (Inl e, p, s1)
      | (Inr a, s1) \<Rightarrow>
          (case client_heap s1 a of
             None \<Rightarrow> Some (Inl (Undefined Use_after_free), p, s1)
           | Some c \<Rightarrow>
               if ci_fd c \<noteq> sd then Some (Inl Assert_failed, p, s1)
               else case sock_recv_full sd \<lparr>acap = sizeof_header, aget = (\<lambda>_. 0)\<rparr> sizeof_header (socks s1) of
                 None \<Rightarrow> None
               | Some (Inl e, _, n) \<Rightarrow> Some (Inl e, p, s1\<lparr>socks := n\<rparr>)
               | Some (Inr got, hb, n) \<Rightarrow>
                   if got = 0
                   then Some (end_request sd \<lparr>disconnect = True, tx_size = 0\<rparr> p (s1\<lparr>socks := n\<rparr>))
                   else receive_body ops sd a c (dec_header (abytes hb 0 sizeof_header)) p (s1\<lparr>socks := n\<rparr>)))"

section \<open>What the loop receives\<close>

text \<open>Answers that deliver at least one byte or are retried.\<close>

abbreviation streams :: "recv_event list \<Rightarrow> bool" where
  "streams es \<equiv> delivers True es \<and> Recv_data [] \<notin> set es"

lemma recv_full_data:
  assumes "bs \<noteq> []" "k < n"
  shows "recv_full dst n k (Recv_data bs # es) =
    (case astore dst k (take (n - k) bs) of
       Inl f \<Rightarrow> Some (Inl f, dst, if length bs \<le> n - k then es else Recv_data (drop (n - k) bs) # es)
     | Inr dst' \<Rightarrow>
         if n - k \<le> length bs
         then Some (Inr n, dst', if length bs \<le> n - k then es else Recv_data (drop (n - k) bs) # es)
         else recv_full dst' n (k + length bs) es)"
  using assms by (auto simp: min_def split: sum.split)

lemma astore_fits:
  assumes "off + length bs \<le> acap a"
  obtains a' where "astore a off bs = Inr a'" "acap a' = acap a"
  using assms by (simp add: astore_def)

lemma streams_data: "streams (Recv_data bs # es) \<Longrightarrow> bs \<noteq> [] \<and> streams es"
  by auto

lemma recv_full_ok:
  "streams es \<Longrightarrow> k < n \<Longrightarrow> n \<le> acap dst \<Longrightarrow> n - k \<le> length (ev_bytes es) \<Longrightarrow>
   \<exists>dst' es'. recv_full dst n k es = Some (Inr n, dst', es') \<and>
     abytes dst' 0 n = abytes dst 0 k @ take (n - k) (ev_bytes es) \<and> acap dst' = acap dst \<and>
     streams es' \<and> ev_bytes es' = drop (n - k) (ev_bytes es)"
proof (induction es arbitrary: dst k)
  case (Cons e es)
  show ?case
  proof (cases e)
    case (Recv_data bs)
    have bs: "bs \<noteq> []" using Cons.prems(1) Recv_data by auto
    let ?got = "take (n - k) bs"
    obtain dst1 where dst1: "astore dst k ?got = Inr dst1" "acap dst1 = acap dst"
      by (rule astore_fits [of k ?got dst]) (use Cons.prems(2,3) in auto)
    have stored: "abytes dst1 0 (k + length ?got) = abytes dst 0 k @ ?got"
      using abytes_astore_same [OF dst1(1)] abytes_astore_other [OF dst1(1), of 0 k] by (simp add: abytes_split)
    show ?thesis
    proof (cases "n - k \<le> length bs")
      case True
      then show ?thesis
        using Cons.prems Recv_data bs dst1 stored by (auto simp: recv_full_data)
    next
      case False
      then have short: "k + length bs < n" "?got = bs" by simp_all
      obtain dst2 es2 where "recv_full dst1 n (k + length bs) es = Some (Inr n, dst2, es2)"
          "abytes dst2 0 n = abytes dst1 0 (k + length bs) @ take (n - (k + length bs)) (ev_bytes es)"
          "acap dst2 = acap dst1" "streams es2" "ev_bytes es2 = drop (n - (k + length bs)) (ev_bytes es)"
      proof -
        have "n - (k + length bs) \<le> length (ev_bytes es)" "n \<le> acap dst1"
          using Cons.prems(3,4) Recv_data short dst1(2) by simp_all
        then show thesis
          using Cons.IH [OF _ short(1), of dst1] streams_data Cons.prems(1) Recv_data that by blast
      qed
      then show ?thesis
        using bs dst1 stored short Cons.prems(2) False by (simp add: recv_full_data Recv_data)
    qed
  qed (use Cons in auto)
qed simp

text \<open>A destination that is too small is overrun before the loop has all bytes.\<close>

lemma recv_full_overrun:
  "streams es \<Longrightarrow> k \<le> acap dst \<Longrightarrow> acap dst < n \<Longrightarrow> n - k \<le> length (ev_bytes es) \<Longrightarrow>
   \<exists>dst' es'. recv_full dst n k es = Some (Inl (Undefined Out_of_bounds), dst', es')"
proof (induction es arbitrary: dst k)
  case (Cons e es)
  show ?case
  proof (cases e)
    case (Recv_data bs)
    have bs: "bs \<noteq> []" "k < n" using Cons.prems Recv_data by auto
    let ?got = "take (n - k) bs"
    show ?thesis
    proof (cases "k + length ?got \<le> acap dst")
      case True
      then have short: "length bs < n - k" using Cons.prems(3) by auto
      obtain dst1 where dst1: "astore dst k ?got = Inr dst1" "acap dst1 = acap dst"
        by (rule astore_fits [OF True])
      have "n - (k + length bs) \<le> length (ev_bytes es)" "k + length bs \<le> acap dst1" "acap dst1 < n"
        using Cons.prems(3,4) Recv_data True short dst1(2) by simp_all
      from Cons.IH [OF _ this(2,3,1)] obtain dst2 es2
        where "recv_full dst1 n (k + length bs) es = Some (Inl (Undefined Out_of_bounds), dst2, es2)"
        using streams_data Cons.prems(1) Recv_data by blast
      then show ?thesis using short dst1 bs by (simp add: recv_full_data Recv_data)
    next
      case False
      then show ?thesis using Recv_data bs by (simp add: recv_full_data astore_fault)
    qed
  qed (use Cons in auto)
qed simp

section \<open>The body replaces the pointer\<close>

lemma client_of_known: "map_of (fd_to_client s) fd = Some a \<Longrightarrow> client_of_fd fd s = (Inr a, s)"
  by (simp add: client_of_fd_def)

lemma receive_header:
  assumes "map_of (fd_to_client s) fd = Some a" "client_heap s a = Some c" "ci_fd c = fd"
    and "streams (rx_events (socks s) fd)" "ev_bytes (rx_events (socks s) fd) = enc_header h @ bs"
  obtains es where "streams es" "ev_bytes es = bs"
    "handle_client_requests ops fd p s =
       receive_body ops fd a c h p (s\<lparr>socks := (socks s)\<lparr>rx_events := (rx_events (socks s))(fd := es)\<rparr>\<rparr>)"
proof -
  obtain hb es where "recv_full \<lparr>acap = 3, aget = (\<lambda>_. 0)\<rparr> 3 0 (rx_events (socks s) fd) = Some (Inr 3, hb, es)"
      "abytes hb 0 3 = enc_header h" "streams es" "ev_bytes es = bs"
    using recv_full_ok [OF assms(4), of 0 3 "\<lparr>acap = 3, aget = (\<lambda>_. 0)\<rparr>"] assms(5)
    by (auto simp: abytes_def)
  then show thesis
    by (intro that [of es]) (simp_all add: handle_client_requests_def client_of_known assms(1-3) sock_recv_full_def)
qed

text \<open>
  C33: a request served by \<open>handle_client_requests\<close> overwrites the pointer \<open>rx_buffer\<close> with its body,
  however the stream is cut: with a body of more than 8 bytes (every write, every call by name, every
  query) the function writes past the pointer, and with a body of 8 bytes (every read) the handler
  runs on the memory at the address the client has sent.
\<close>

theorem request_body_overwrites_pointer:
  assumes "map_of (fd_to_client s) fd = Some a" "client_heap s a = Some c" "ci_fd c = fd"
    and "streams (rx_events (socks s) fd)" "ev_bytes (rx_events (socks s) fd) = enc_header h @ body @ rest"
    and "length body = unat (body_len h)" "acap (ptr_bytes p) = sizeof_ptr"
  shows "(sizeof_ptr < length body \<longrightarrow>
      (\<exists>p' s'. handle_client_requests ops fd p s = Some (Inl (Undefined Out_of_bounds), p', s'))) \<and>
    (length body = sizeof_ptr \<longrightarrow>
      (\<exists>p' s'. abytes (ptr_bytes p') 0 sizeof_ptr = body \<and> ptr_mem p' = ptr_mem p \<and> core s' = core s \<and>
         handle_client_requests ops fd p s = serve_request ops fd a c h p' s'))"
proof -
  obtain es where es: "streams es" "ev_bytes es = body @ rest"
    "handle_client_requests ops fd p s =
       receive_body ops fd a c h p (s\<lparr>socks := (socks s)\<lparr>rx_events := (rx_events (socks s))(fd := es)\<rparr>\<rparr>)"
    using receive_header [OF assms(1-5)] .
  let ?n = "length body"
  have nz: "body_len h \<noteq> 0" if "0 < ?n" using that assms(6) by auto
  have "\<exists>p' s'. handle_client_requests ops fd p s = Some (Inl (Undefined Out_of_bounds), p', s')" if "8 < ?n"
    using recv_full_overrun [OF es(1), of 0 "ptr_bytes p" ?n] that assms(6,7) es(2,3) nz
    by (auto simp: receive_body_def sock_recv_full_def)
  moreover have "\<exists>p' s'. abytes (ptr_bytes p') 0 8 = body \<and> ptr_mem p' = ptr_mem p \<and> core s' = core s \<and>
      handle_client_requests ops fd p s = serve_request ops fd a c h p' s'" if n: "?n = 8"
  proof -
    obtain b es' where "recv_full (ptr_bytes p) 8 0 es = Some (Inr 8, b, es')" "abytes b 0 8 = body"
      using recv_full_ok [OF es(1), of 0 8 "ptr_bytes p"] n assms(7) es(2) by (auto simp: abytes_def)
    then show ?thesis
      using n nz assms(6) es(3)
      by (intro exI [of _ "p\<lparr>ptr_bytes := b\<rparr>"] exI [of _ "s\<lparr>socks := (socks s)\<lparr>rx_events := (rx_events (socks s))(fd := es')\<rparr>\<rparr>"])
        (simp add: receive_body_def sock_recv_full_def)
  qed
  ultimately show ?thesis by simp
qed

definition demo_pointer :: rx_pointer where
  "demo_pointer = \<lparr>ptr_bytes = \<lparr>acap = 8, aget = (\<lambda>_. 0)\<rparr>, ptr_mem = (\<lambda>_. \<lparr>acap = 0, aget = (\<lambda>_. 0)\<rparr>)\<rparr>"

theorem request_body_overwrites_pointer_witness:
  "\<exists>p' s'. handle_client_requests mmap_ops 5 demo_pointer
     (demo_conn (demo_client []) [Recv_data (take 5 demo_stream), Recv_again, Recv_data (drop 5 demo_stream)]) =
       Some (Inl (Undefined Out_of_bounds), p', s')"
proof -
  let ?s = "demo_conn (demo_client []) [Recv_data (take 5 demo_stream), Recv_again, Recv_data (drop 5 demo_stream)]"
  have c: "map_of (fd_to_client ?s) 5 = Some 0" "client_heap ?s 0 = Some (demo_client [])" "ci_fd (demo_client []) = 5"
    by (simp_all add: demo_conn_def demo_client_at_def)
  have es: "streams (rx_events (socks ?s) 5)"
      "ev_bytes (rx_events (socks ?s) 5) = enc_header \<lparr>command = HWIO_CMD_WRITE, body_len = 10\<rparr> @
         [0, 0, 16, 0, 0, 0, 2, 0, 0xAA, 0xBB] @ [1, 8, 0, 0, 0, 16, 0, 0, 0, 2, 0]"
    by (simp_all add: demo_conn_def demo_stream_bytes enc_header_def enc16_def le_enc_2_4)
  show ?thesis
    using request_body_overwrites_pointer [OF c es, of demo_pointer mmap_ops] by (simp add: demo_pointer_def)
qed

end
