(* ===== verification/Hwio_Shutdown.thy ===== *)
theory Hwio_Shutdown
  imports Hwio_Clients_Laws "HOL-Library.Multiset"
begin

text \<open>
  The destructor of the server: in every state a running server reaches, it deletes each client
  object once, leaves none behind, and closes each connection and the listening socket once.
\<close>

section \<open>The clients in their slots\<close>

definition used_addrs :: "nat option list \<Rightarrow> nat list" where
  "used_addrs cs = map the (filter (\<lambda>c. c \<noteq> None) cs)"

lemma used_addrs_simps [simp]: "used_addrs [] = []" "used_addrs (None # cs) = used_addrs cs"
    "used_addrs (Some a # cs) = a # used_addrs cs"
  by (simp_all add: used_addrs_def)

definition fds_of :: "('w, 'd) Server \<Rightarrow> nat list \<Rightarrow> int list" where
  "fds_of s as = map (\<lambda>a. ci_fd (the (client_heap s a))) as"

lemma used_addrs_set: "a \<in> set (used_addrs cs) \<longleftrightarrow> Some a \<in> set cs"
  by (force simp: used_addrs_def image_iff)

lemma length_used_addrs: "length (used_addrs cs) = count_clients cs"
  by (simp add: used_addrs_def count_clients_filter)

lemma delete_clients_ok:
  assumes "\<And>a. Some a \<in> set cs \<Longrightarrow> client_heap s a \<noteq> None" "distinct (used_addrs cs)"
  shows "\<exists>s'. delete_clients cs s = (Inr (), s') \<and>
    client_heap s' = (\<lambda>a. if Some a \<in> set cs then None else client_heap s a) \<and> master_socket s' = master_socket s \<and>
    closed_fds (socks s') = closed_fds (socks s) @ filter (\<lambda>fd. 0 \<le> fd) (fds_of s (used_addrs cs))"
  using assms
proof (induction cs arbitrary: s)
  case (Cons c cs)
  show ?case
  proof (cases c)
    case (Some a)
    obtain cl where cl: "client_heap s a = Some cl" using Cons.prems(1) [of a] Some by auto
    let ?s = "delete_client a cl s"
    have fresh: "Some a \<notin> set cs" using Cons.prems(2) Some used_addrs_set [of a cs] by simp
    have heap: "client_heap ?s b = (if b = a then None else client_heap s b)" for b by (simp add: delete_client_def)
    have "fds_of ?s (used_addrs cs) = fds_of s (used_addrs cs)"
      using fresh used_addrs_set [of a cs] by (auto simp: fds_of_def heap)
    moreover have "client_heap ?s b \<noteq> None" if "Some b \<in> set cs" for b
      using Cons.prems(1) [of b] that fresh by (auto simp: heap)
    then obtain s' where "delete_clients cs ?s = (Inr (), s')"
        "client_heap s' = (\<lambda>b. if Some b \<in> set cs then None else client_heap ?s b)" "master_socket s' = master_socket ?s"
        "closed_fds (socks s') = closed_fds (socks ?s) @ filter (\<lambda>fd. 0 \<le> fd) (fds_of ?s (used_addrs cs))"
      using Cons.IH [of ?s] Cons.prems(2) Some by auto
    ultimately show ?thesis
      using Some cl by (auto simp: fun_eq_iff heap) (auto simp: delete_client_def fds_of_def sock_close_def)
  qed (use Cons in simp)
qed (simp add: fds_of_def)

lemma clients_fds:
  assumes "clients_wf s"
  shows "distinct (used_addrs (clients s))" "mset (fds_of s (used_addrs (clients s))) = mset (map fst (fd_to_client s))"
proof -
  let ?L = "fds_of s (used_addrs (clients s))" and ?M = "map fst (fd_to_client s)"
  have "set ?L = set ?M"
  proof (intro equalityI subsetI)
    fix fd assume "fd \<in> set ?L"
    then obtain a where a: "Some a \<in> set (clients s)" "fd = ci_fd (the (client_heap s a))"
      by (auto simp: fds_of_def used_addrs_set)
    then obtain i where "i < length (clients s)" "clients s ! i = Some a" by (auto simp: in_set_conv_nth)
    then show "fd \<in> set ?M" using clients_wfD(3) [OF assms, of i a] a(2) by (force dest: map_of_SomeD)
  next
    fix fd assume "fd \<in> set ?M"
    then obtain a where "map_of (fd_to_client s) fd = Some a" by (metis map_of_eq_None_iff not_None_eq set_map)
    then obtain c where c: "client_heap s a = Some c" "ci_fd c = fd" "ci_id c < length (clients s)" "clients s ! ci_id c = Some a"
      using clients_wfD(2) [OF assms] by (blast elim: client_atE)
    have "a \<in> set (used_addrs (clients s))" using nth_mem [OF c(3)] c(4) by (simp only: used_addrs_set)
    then show "fd \<in> set ?L" using c(1,2) by (force simp: fds_of_def)
  qed
  moreover have "length ?L = length ?M"
    using client_count [OF assms] by (simp add: fds_of_def length_used_addrs)
  moreover have M: "distinct ?M" by (rule clients_wfD(1) [OF assms])
  ultimately have L: "distinct ?L" by (metis card_distinct distinct_card)
  then show "distinct (used_addrs (clients s))" by (simp add: fds_of_def distinct_map)
  show "mset ?L = mset ?M" using L M \<open>set ?L = set ?M\<close> by (simp only: set_eq_iff_mset_eq_distinct)
qed

text \<open>
  C8: whatever happened to a running server, its destructor ends normally, no client object is left,
  and besides what was closed before exactly the descriptors of the current connections and the
  listening socket are closed, each once.
\<close>

theorem server_shutdown:
  assumes "server_run ops s"
  shows "\<exists>s'. HwioServer_delete s = (Inr (), s') \<and> client_heap s' = (\<lambda>_. None) \<and>
    mset (closed_fds (socks s')) = mset (closed_fds (socks s)) +
      filter_mset (\<lambda>fd. 0 \<le> fd) (mset (master_socket s # map fst (fd_to_client s)))"
proof -
  have wf: "clients_wf s" using server_run_inv [OF assms] by (simp add: server_inv_def)
  have "client_heap s a \<noteq> None" if "Some a \<in> set (clients s)" for a
    using that clients_wfD(3) [OF wf] by (force simp: in_set_conv_nth)
  then obtain s1 where s1: "delete_clients (clients s) s = (Inr (), s1)"
      "client_heap s1 = (\<lambda>a. if Some a \<in> set (clients s) then None else client_heap s a)" "master_socket s1 = master_socket s"
      "closed_fds (socks s1) = closed_fds (socks s) @ filter (\<lambda>fd. 0 \<le> fd) (fds_of s (used_addrs (clients s)))"
    using delete_clients_ok [OF _ clients_fds(1) [OF wf], of s] by blast
  have "client_heap s1 a = None" for a using s1(2) clients_wfD(5) [OF wf, of a] by (cases "client_heap s a") auto
  then have heap: "client_heap s1 = (\<lambda>_. None)" by (rule ext)
  have "mset (closed_fds (socks s1)) = mset (closed_fds (socks s)) + filter_mset (\<lambda>fd. 0 \<le> fd) (mset (map fst (fd_to_client s)))"
    using s1(4) clients_fds(2) [OF wf] by simp
  then show ?thesis using s1(1,3) heap by (auto simp: HwioServer_delete_def sock_close_def)
qed

theorem server_shutdown_witness:
  "\<exists>s'. HwioServer_delete demo_accepted = (Inr (), s') \<and> client_heap s' = (\<lambda>_. None) \<and>
    mset (closed_fds (socks s')) = {#3, 5#}"
proof -
  have "closed_fds (socks demo_accepted) = []" "master_socket demo_accepted = 3" "fd_to_client demo_accepted = [(5, 0)]"
    by (simp_all add: demo_accepted_def demo_start_def prepare_server_socket_def HwioServer_ctor_def push_poll_fd_def
        pool_client_msgs_def poll_entry_def poll_failed_def add_new_client_def clean_poll_fds_def Let_def)
  then show ?thesis using server_shutdown [OF demo_run] by simp
qed

end
