(* ===== verification/Spec2Isabelle.thy ===== *)
theory Spec2Isabelle
  imports Hwio_Rpc_Remote Hwio_Cli_Laws Hwio_Round Hwio_Session Hwio_Progress Hwio_Confinement Hwio_Request Hwio_Shutdown
begin

text \<open>
  A verification development for libhwio, a C++ library that gives programs access to
  memory-mapped hardware devices, on the same machine or through a server.

  \<^bold>\<open>The program.\<close> A component specification (vendor, type, version) names a kind of device. A bus
  finds the devices that match a list of specifications; a device reads and writes its registers.
  Local devices are windows of a memory file; the buses that make them read a device tree or a JSON
  file. A server owns local buses and serves clients over TCP: a query finds devices and gives the
  client an id for each, reads, writes and calls of plugin functions name a device by its id. On the
  client side a remote bus and remote devices send these requests. A command line module makes the
  buses of a program from its options and configuration files.

  \<^bold>\<open>The model.\<close> Structures are records, classes with an interface are records of functions or
  datatypes, machine integers are words of their width, \<open>char\<close> buffers are arrays of fixed capacity
  with bounds-checked accesses. Every exception, failed assertion, undefined memory access and
  \<open>std::terminate\<close> is a value of the type \<open>fault\<close>; an operation returns \<open>fault + 'a\<close> and the new state. The
  operating system (files, sockets, \<open>mmap\<close>), Boost's JSON parser, \<open>getopt_long\<close>, \<open>getaddrinfo\<close> and
  \<open>std::sort\<close> are parameters. Operations that wait in a loop for the operating system, and the walk
  of a directory tree, return \<open>None\<close> when they never end; no fuel is used anywhere. Sizes in
  hypotheses come from the code: 2048 bytes of transmit buffer (2045 for the data of a read, 1022
  ids of a query), 65536 bytes of receive buffer, 5 specifications in a query, 256 device ids,
  names below 128 characters.

  \<^bold>\<open>Theories and code\<close> (paths under \<open>src/src/\<close>).
  \<^item> \<open>Hwio_Prelude\<close>, \<open>Hwio_CStd\<close>: results, little-endian encodings, arrays; the functions of the C and
    C++ libraries on strings and numbers that the code calls.
  \<^item> \<open>Hwio_Version\<close> (\<open>hwio_version.cpp\<close>), \<open>Hwio_Comp_Spec\<close> (\<open>hwio_comp_spec.cpp\<close>): comparison, printing
    and parsing. The version matcher agrees with the regular expression of the source; printing and
    parsing is a round trip; what a compatibility string is parsed to, and where its parser goes wrong.
  \<^item> \<open>Hwio_Wire\<close> (\<open>hwio_remote.h\<close>): the packed structures as bytes, the commands and limits.
  \<^item> \<open>Hwio_Device\<close> (\<open>device/ihwio_dev.h\<close>): the device interface and its default loops, proved correct
    in the locale \<open>byte_device\<close>; the locale \<open>memory_device\<close> is what a client of a device relies on.
  \<^item> \<open>Hwio_Device_Mmap\<close> (\<open>device/hwio_device_mmap.cpp\<close>): the mapped device interprets both locales;
    window arithmetic, attaching, reading back what was written.
  \<^item> \<open>Hwio_Bus\<close> (\<open>bus/ihwio_bus.h\<close>, primitive and composite bus): the nested search loops are a filter.
  \<^item> \<open>Hwio_Bus_Devicetree\<close>, \<open>Hwio_Devicetree_Laws\<close> (\<open>bus/hwio_bus_devicetree.cpp\<close>): the walk with its
    stacks of directories and names; it ends on every tree and makes the devices of a recursive
    reference, which read the memory their file \<open>reg\<close> names.
  \<^item> \<open>Hwio_Bus_Json\<close> (\<open>bus/hwio_bus_json.cpp\<close>): loading devices, up to the first error.
  \<^item> \<open>Hwio_Server\<close> (\<open>server/hwio_server_*.cpp\<close> and \<open>handle_msg\<close> of \<open>server/hwio_server.cpp\<close>): the handlers.
    \<open>Hwio_Server_Laws\<close> shows that foreign devices are refused, what reads and writes do, the error
    frame and the missing bounds checks; \<open>Hwio_Query_Laws\<close> the table of devices of a client (locale
    \<open>attachable\<close>); \<open>Hwio_Rpc_Laws\<close> the plugin functions.
  \<^item> \<open>Hwio_Net\<close>, \<open>Hwio_Server_Loop\<close> (the rest of \<open>server/hwio_server.cpp\<close>): sockets as lists of answers
    of the operating system; clients on a heap, receive buffers, the poll loop. \<open>Hwio_Clients_Laws\<close>
    proves the invariant of the tables by induction on runs, seeing them as three maps that agree,
    \<open>Hwio_Shutdown\<close> what the destructor does
    then; \<open>Hwio_Framing\<close> proves in the context of \<open>memory_device\<close> that any cutting of a stream of
    requests is served as the requests one by one, and \<open>Hwio_Round\<close> that one round of the poll loop
    serves every client with a request; \<open>Hwio_Progress\<close> says when a round ends at all. \<open>Hwio_Message\<close> does the same for one message of any kind.
    \<open>Hwio_Buffers\<close> shows in the locale \<open>sized_reads\<close> that every operation keeps the shape of the
    buffers, \<open>Hwio_Isolation\<close> in the locale \<open>confined_device\<close> what a client can change at most,
    whatever it sends, and \<open>Hwio_Confinement\<close>, in the same locale, that over a whole run from the
    constructor on the server changes no memory outside the devices of its buses. \<open>Hwio_Request\<close> models \<open>handle_client_requests\<close>, which nothing calls any more,
    and shows why nothing can.
  \<^item> \<open>Hwio_Client\<close> (\<open>bus/hwio_client_to_server_con.cpp\<close>, \<open>device/hwio_device_remote.h\<close> and \<open>.cpp\<close>,
    \<open>bus/hwio_bus_remote.cpp\<close>), \<open>Hwio_Client_Laws\<close>: the client side. \<open>Hwio_Discovery\<close> joins a remote bus
    and the server, \<open>Hwio_Rpc_Remote\<close> a remote call and the plugin function it reaches, \<open>Hwio_Session\<close>
    whole sessions of accesses through remote devices and the same accesses on the mapped devices of
    the server. This theory adds that what is written through a remote device is read back.
  \<^item> \<open>Hwio_Remote_Utils\<close> (\<open>hwio_remote_utils.cpp\<close>): host and port.
  \<^item> \<open>Hwio_Cli\<close>, \<open>Hwio_Cli_Laws\<close> (\<open>hwio_cli.cpp\<close>): configuration files, the option loop, the command line.

  \<^bold>\<open>Not modelled.\<close> Log output; the help text of the command line; the numbers in
  the text of exceptions. The structures on the wire are modelled for the little-endian, byte-packed
  layout of the platforms the library is built for.

  \<^bold>\<open>Where the code is wrong.\<close> Several theorems state a defect the model shows: the use of a deleted
  client after a goodbye, the loop over a vector it appends to, an overlapping \<open>memcpy\<close>, unchecked
  sizes in reads and writes, an endless loop on a closed connection, a lost byte of arguments, a
  request received over a pointer, the swapped attributes of the JSON bus, the device tree option
  that points into freed memory, the command line that keeps what it should drop. Lemmas show
  others: a server kept busy by one descriptor, commands of the protocol it does not know.
\<close>

section \<open>Client and server together\<close>

text \<open>An idle connection: the client at \<open>a\<close> owns the mapped device \<open>d\<close> under \<open>dev\<close>.\<close>

definition idle_conn :: "(mmap_world, nat) Server \<Rightarrow> nat \<Rightarrow> nat ClientInfo \<Rightarrow> u16 \<Rightarrow> nat \<Rightarrow> bool" where
  "idle_conn s a c dev d \<longleftrightarrow>
     quiet_conn s a c \<and> client_get_dev c dev = Some d \<and> unat dev < MAX_DEVICES"

text \<open>What the server has sent to the client since the state \<open>s\<close>.\<close>

definition answered :: "int \<Rightarrow> ('w, 'd) Server \<Rightarrow> ('w, 'd) Server \<Rightarrow> byte list" where
  "answered fd s s' = drop (length (tx_data (socks s) fd)) (tx_data (socks s') fd)"

text \<open>
  A client that writes \<open>n\<close> bytes through a remote device and reads them back gets exactly these
  bytes, and the mapped device of the server holds them: over the frames the client builds, any
  cutting of the byte streams in both directions, the server's receive buffer, its dispatch, the
  word-wise device accesses, and the client's receive buffer.
\<close>

lemma remote_write_then_read:
  assumes "idle_conn s a c dev d" "unat off + n \<le> mmap_limit d (world (core s))" "n \<le> 2037"
    and "segmented [] ps" "concat (map piece_reqs ps) = [Write_req dev off (abytes src j n), Read_req dev off (word_of_nat n)]"
    and "rx_events (socks s) (ci_fd c) = concat (map piece_events ps)"
    and "3 + n \<le> send_room (tx_events (socks s) (ci_fd c))"
    and "con_wf con" "accepts busy (con_tx_events con)" "22 + n \<le> send_room (con_tx_events con)"
    and "delivers busy (con_rx_events con)" "j + n \<le> acap src" "i + n \<le> acap dst"
  shows "\<exists>s'. serve_rounds mmap_ops (ci_fd c) (length ps) s = Some (Inr (), s') \<and>
    mmap_contents d (world (core s')) = mem_store (mmap_contents d (world (core s))) (unat off) (abytes src j n) \<and>
    answered (ci_fd c) s s' = enc_header \<lparr>command = HWIO_CMD_READ_RESP, body_len = word_of_nat n\<rparr> @ abytes src j n \<and>
    (ev_bytes (con_rx_events con) = answered (ci_fd c) s s' \<longrightarrow>
      (\<exists>con1 con2 dst'. remote_write busy dev off src j n con = Some (Inr (), con1) \<and>
        remote_read busy dev off dst i n con1 = Some (Inr (), dst', con2) \<and>
        con_sent con2 = con_sent con @ concat (map enc_req (concat (map piece_reqs ps))) \<and>
        abytes dst' i n = abytes src j n))"
proof -
  let ?data = "abytes src j n" and ?w = "world (core s)" and ?fd = "ci_fd c"
  let ?reqs = "[Write_req dev off ?data, Read_req dev off (word_of_nat n)]"
  let ?w' = "mmap_poke d (unat off) ?data ?w"
  let ?out = "enc_header \<lparr>command = HWIO_CMD_READ_RESP, body_len = word_of_nat n\<rparr> @ ?data"
  have idle: "map_of (fd_to_client s) ?fd = Some a" "client_heap s a = Some c" "rx_wf c" "pending c = []"
      "server_wf (core s)" "client_get_dev c dev = Some d" "unat dev < 256"
    using assms(1) by (simp_all add: idle_conn_def quiet_conn_def)
  have n: "unat (word_of_nat n :: u16) = n" using assms(3) by (simp add: unat_of_nat)
  have cont: "mmap_contents d ?w' = mem_store (mmap_contents d ?w) (unat off) ?data"
    using assms(2) by (intro mmap_contents_poke) simp
  then have "mem_range (mmap_contents d ?w') (unat off) n = ?data"
    using mem_range_store_same [of "mmap_contents d ?w" "unat off" ?data] by simp
  then have ex: "exec_reqs mmap_sem (client_get_dev c) ?reqs ?w = (?out, ?w')"
    using idle(6) n by simp
  have ok: "list_all (req_ok mmap_limit (client_get_dev c) ?w) ?reqs"
    using assms(2,3) idle(6,7) n by (simp add: mmap_limit_poke)
  have "no_overlap c" using idle(4) length_pending [of c] by (simp add: no_overlap_def)
  then obtain c' s' where s': "serve_rounds mmap_ops ?fd (length ps) s = Some (Inr (), s')" "served mmap_sem a ?reqs c s c' s'"
    using mmap_dev.serve_pieces [OF idle(1-3) _ _ _ idle(5), of ps "[]"] assms(4-7) idle(4) ok ex n by auto
  then have w: "world (core s') = ?w'" and out: "answered ?fd s s' = ?out"
    using ex by (auto simp: served_def Let_def answered_def)
  have client: "\<exists>con1 con2 dst'. remote_write busy dev off src j n con = Some (Inr (), con1) \<and>
      remote_read busy dev off dst i n con1 = Some (Inr (), dst', con2) \<and>
      con_sent con2 = con_sent con @ concat (map enc_req ?reqs) \<and> abytes dst' i n = ?data"
    if "ev_bytes (con_rx_events con) = ?out"
  proof -
    obtain con1 where c1: "remote_write busy dev off src j n con = Some (Inr (), con1)" "con_wf con1"
        "con_sent con1 = con_sent con @ enc_req (Write_req dev off ?data)" "con_rx_events con1 = con_rx_events con"
        "accepts busy (con_tx_events con1)" "send_room (con_tx_events con) = 11 + n + send_room (con_tx_events con1)"
      using remote_write_ok [of busy n con j src dev off] assms(3,8-10,12) by (auto simp: can_send_def)
    have "delivers busy (con_rx_events con1)" "ev_bytes (con_rx_events con1) = ?out @ []" using c1(4) assms(11) that by simp_all
    moreover have "can_send busy 11 con1" using c1(2,5,6) assms(10) by (simp add: can_send_def)
    ultimately obtain dst' con2 where "remote_read busy dev off dst i n con1 = Some (Inr (), dst', con2)"
        "abytes dst' i n = ?data" "con_sent con2 = con_sent con1 @ enc_req (Read_req dev off (word_of_nat n))"
      using remote_read_ok [of busy con1 n i dst ?data "[]" dev off] assms(3,13) by auto
    with c1(1,3) show ?thesis by auto
  qed
  show ?thesis using s'(1) w cont out client assms(5) by auto
qed

end
